(* ===== verification/Prelude.thy ===== *)
theory Prelude
  imports Complex_Main "HOL-Library.Word"
begin

text \<open>
  Shared vocabulary of the development: the result type of fallible Python code
  (an exception or a value, as a sum) with its sequencing operator, generic facts
  about lists, filters and association lists that several components use, and the
  collections \<open>exn_simps\<close> (sequencing of fallible steps) and \<open>bytes_simps\<close>
  (bytes against integers).
\<close>

named_theorems exn_simps "sequencing of steps that may raise"
named_theorems bytes_simps "bytes read as integers"

type_synonym byte = "8 word"
type_synonym bytes = "byte list"

section \<open>Fallible steps\<close>

text \<open>\<open>bindE m f\<close> runs \<open>m\<close>; an exception of \<open>m\<close> skips \<open>f\<close>, as a raise does.\<close>

fun bindE :: "'e + 'a \<Rightarrow> ('a \<Rightarrow> 'e + 'b) \<Rightarrow> 'e + 'b" where
  "bindE (Inl e) f = Inl e"
| "bindE (Inr x) f = f x"

lemma bindE_eq_Inr [exn_simps]:
  "bindE m f = Inr y \<longleftrightarrow> (\<exists>x. m = Inr x \<and> f x = Inr y)"
  by (cases m) auto

lemma bindE_eq_Inl [exn_simps]:
  "bindE m f = Inl e \<longleftrightarrow> m = Inl e \<or> (\<exists>x. m = Inr x \<and> f x = Inl e)"
  by (cases m) auto

lemma bindE_assoc: "bindE (bindE m f) g = bindE m (\<lambda>x. bindE (f x) g)"
  by (cases m) auto

lemma bindE_cong:
  "m = m' \<Longrightarrow> (\<And>x. m' = Inr x \<Longrightarrow> f x = g x) \<Longrightarrow> bindE m f = bindE m' g"
  by (cases m') auto

section \<open>Bytes\<close>

definition byte_of :: "int \<Rightarrow> byte" where
  "byte_of n = word_of_int n"

lemma uint_byte_of [bytes_simps]: "0 \<le> n \<Longrightarrow> n < 256 \<Longrightarrow> uint (byte_of n) = n"
  by (simp add: byte_of_def uint_word_of_int)

lemma byte_of_uint [bytes_simps]: "byte_of (uint b) = b"
  by (simp add: byte_of_def)

lemma uint_byte_range: "0 \<le> uint (b :: byte)" "uint (b :: byte) < 256"
  using uint_lt2p [of b] by auto

section \<open>Arithmetic of six-bit groups\<close>

lemma pack_div_mod:
  fixes q r k :: int
  assumes "0 \<le> r" "r < k"
  shows "(q * k + r) div k = q" "(q * k + r) mod k = r"
  using assms by simp_all

lemma sextet_range:
  fixes x y :: int
  shows "0 \<le> x \<Longrightarrow> x < 4 \<Longrightarrow> 0 \<le> y \<Longrightarrow> y < 16 \<Longrightarrow> 0 \<le> x * 16 + y \<and> x * 16 + y < 64"
    "0 \<le> y \<Longrightarrow> y < 16 \<Longrightarrow> 0 \<le> x \<Longrightarrow> x < 4 \<Longrightarrow> 0 \<le> y * 4 + x \<and> y * 4 + x < 64"
  by linarith+

lemma byte_parts:
  fixes a :: int
  assumes "0 \<le> a" "a < 256"
  shows "0 \<le> a div 4" "a div 4 < 64" "0 \<le> a mod 4" "a mod 4 < 4" "0 \<le> a div 16" "a div 16 < 16"
    "0 \<le> a mod 16" "a mod 16 < 16" "0 \<le> a div 64" "a div 64 < 4" "0 \<le> a mod 64" "a mod 64 < 64"
  using assms by simp_all

lemma byte_join:
  fixes a b c :: int
  assumes "0 \<le> b" "b < 256" "0 \<le> c" "c < 256"
  shows "a div 4 * 4 + (a mod 4 * 16) div 16 = a"
    "a div 4 * 4 + (a mod 4 * 16 + b div 16) div 16 = a"
    "(a mod 4 * 16 + b div 16) mod 16 * 16 + (b mod 16 * 4) div 4 = b"
    "(a mod 4 * 16 + b div 16) mod 16 * 16 + (b mod 16 * 4 + c div 64) div 4 = b"
    "(b mod 16 * 4 + c div 64) mod 4 * 64 + c mod 64 = c"
  using byte_parts [OF assms(1,2)] byte_parts [OF assms(3,4)]
  by (simp_all only: pack_div_mod div_mult_mod_eq) (simp_all only: div_mult_mod_eq nonzero_mult_div_cancel_right zero_neq_numeral not_False_eq_True)
section \<open>Association lists\<close>

lemma map_of_filter_distinct:
  "distinct (map fst xs) \<Longrightarrow>
   map_of (filter (\<lambda>(k, v). P v) xs) k =
     (case map_of xs k of None \<Rightarrow> None | Some v \<Rightarrow> if P v then Some v else None)"
proof (induction xs)
  case Nil
  then show ?case by simp
next
  case (Cons x xs)
  then have "map_of xs (fst x) = None"
    by (simp add: map_of_eq_None_iff)
  with Cons show ?case
    by (cases x) (auto split: option.splits)
qed

lemma distinct_map_fst_filter:
  "distinct (map fst xs) \<Longrightarrow> distinct (map fst (filter P xs))"
  by (rule distinct_map_filter)

lemma sorted_map_snd_filter:
  "sorted (map snd xs) \<Longrightarrow> sorted (map snd (filter P xs))"
  by (rule sorted_filter)

lemma filter_notin_take:
  "distinct xs \<Longrightarrow> filter (\<lambda>x. x \<notin> set (take n xs)) xs = drop n xs"
proof -
  assume d: "distinct xs"
  have split: "xs = take n xs @ drop n xs" by simp
  from d have disj: "set (take n xs) \<inter> set (drop n xs) = {}"
    by (rule set_take_disj_set_drop_if_distinct) simp
  have "filter (\<lambda>x. x \<notin> set (take n xs)) (take n xs) = []"
    by (simp add: filter_empty_conv)
  moreover have "filter (\<lambda>x. x \<notin> set (take n xs)) (drop n xs) = drop n xs"
    using disj by (auto simp: filter_id_conv)
  ultimately show ?thesis
    by (subst (2) split) (simp only: filter_append append_Nil)
qed

lemma filter_fst_notin_take:
  assumes "distinct (map fst xs)"
  shows "filter (\<lambda>x. fst x \<notin> fst ` set (take n xs)) xs = drop n xs"
proof -
  have inj: "inj_on fst (set xs)" and d: "distinct xs"
    using assms by (auto simp: distinct_map)
  have "fst x \<in> fst ` set (take n xs) \<longleftrightarrow> x \<in> set (take n xs)" if "x \<in> set xs" for x
    using that inj set_take_subset [of n xs] by (auto dest: inj_onD)
  then have "filter (\<lambda>x. fst x \<notin> fst ` set (take n xs)) xs =
      filter (\<lambda>x. x \<notin> set (take n xs)) xs"
    by (intro filter_cong) auto
  with d show ?thesis by (simp add: filter_notin_take)
qed

end
