(* ===== verification/Py_Str.thy ===== *)
theory Py_Str
  imports Prelude
begin

text \<open>
  Python's \<open>str\<close> as a list of code points (\<open>ord\<close> values), with the string methods the
  sources call: \<open>strip\<close>, \<open>rstrip(c)\<close>, \<open>lower\<close>, \<open>upper\<close>, \<open>startswith\<close>, \<open>split(c)\<close>,
  \<open>in\<close>, \<open>join\<close>, \<open>str(int)\<close> and \<open>int(str)\<close>.
  A literal is written \<open>u ''text''\<close>.  Bounds of the model: \<open>lower\<close> maps the ASCII
  letters and the two non-ASCII code points whose lower case contains an ASCII letter
  (U+0130, U+212A) and leaves the rest alone, which is enough since every result is
  only compared with ASCII text; \<open>upper\<close> maps ASCII letters (HTTP methods are ASCII);
  \<open>int\<close> reads ASCII digits.
\<close>

type_synonym pystr = "int list"

definition u :: "string \<Rightarrow> pystr" where
  "u s = map of_char s"

lemma u_inject [simp]: "u s = u t \<longleftrightarrow> s = t"
  by (auto simp: u_def inj_map_eq_map [OF inj_of_char])

lemma u_Nil [simp]: "u [] = []" and u_eq_Nil [simp]: "u s = [] \<longleftrightarrow> s = []"
  "[] = u s \<longleftrightarrow> s = []"
  by (auto simp: u_def)

lemma u_Cons: "u (c # cs) = of_char c # u cs"
  by (simp add: u_def)

lemma u_append [simp]: "u (s @ t) = u s @ u t"
  by (simp add: u_def)

lemma length_u [simp]: "length (u s) = length s"
  by (simp add: u_def)

lemma set_u: "set (u s) = of_char ` set s"
  by (simp add: u_def)

section \<open>Whitespace and strip\<close>

definition is_space :: "int \<Rightarrow> bool" where
  "is_space c \<longleftrightarrow>
     (9 \<le> c \<and> c \<le> 13) \<or> (28 \<le> c \<and> c \<le> 32) \<or> c = 133 \<or> c = 160 \<or> c = 5760
     \<or> (8192 \<le> c \<and> c \<le> 8202) \<or> c = 8232 \<or> c = 8233 \<or> c = 8239 \<or> c = 8287 \<or> c = 12288"

definition rdrop :: "('a \<Rightarrow> bool) \<Rightarrow> 'a list \<Rightarrow> 'a list" where
  "rdrop P xs = rev (dropWhile P (rev xs))"

definition strip :: "pystr \<Rightarrow> pystr" where
  "strip s = rdrop is_space (dropWhile is_space s)"

definition rstrip_char :: "int \<Rightarrow> pystr \<Rightarrow> pystr" where
  "rstrip_char c s = rdrop (\<lambda>x. x = c) s"

text \<open>A string that \<open>strip\<close> leaves alone.\<close>

definition stripped :: "pystr \<Rightarrow> bool" where
  "stripped s \<longleftrightarrow> s = [] \<or> (\<not> is_space (hd s) \<and> \<not> is_space (last s))"

lemma rdrop_Nil [simp]: "rdrop P [] = []"
  by (simp add: rdrop_def)

lemma rdrop_snoc: "rdrop P (xs @ [x]) = (if P x then rdrop P xs else xs @ [x])"
  by (simp add: rdrop_def)

lemma rdrop_id: "xs = [] \<or> \<not> P (last xs) \<Longrightarrow> rdrop P xs = xs"
  by (cases xs rule: rev_cases) (auto simp: rdrop_snoc)

lemma rdrop_last: "rdrop P xs \<noteq> [] \<Longrightarrow> \<not> P (last (rdrop P xs))"
  by (induction xs rule: rev_induct) (auto simp: rdrop_snoc split: if_splits)

lemma rdrop_prefix: "\<exists>zs. xs = rdrop P xs @ zs \<and> (\<forall>z\<in>set zs. P z)"
proof (induction xs rule: rev_induct)
  case Nil
  then show ?case by simp
next
  case (snoc x xs)
  then obtain zs where "xs = rdrop P xs @ zs" and "\<forall>z\<in>set zs. P z" by blast
  then show ?case
    by (cases "P x") (auto simp: rdrop_snoc intro!: exI [of _ "zs @ [x]"])
qed

lemma rdrop_all: "(\<forall>x\<in>set xs. P x) \<Longrightarrow> rdrop P xs = []"
  by (simp add: rdrop_def)

lemma set_rdrop: "set (rdrop P xs) \<subseteq> set xs"
  by (auto simp: rdrop_def dest: set_dropWhileD)

lemma set_strip: "set (strip s) \<subseteq> set s"
  using set_rdrop [of is_space "dropWhile is_space s"]
  by (auto simp: strip_def dest: set_dropWhileD)

lemma strip_stripped: "stripped s \<Longrightarrow> strip s = s"
  unfolding strip_def stripped_def
  by (cases s) (simp_all add: rdrop_id)

lemma hd_rdrop: "rdrop P xs \<noteq> [] \<Longrightarrow> hd (rdrop P xs) = hd xs"
  using rdrop_prefix [of xs P] by (metis hd_append2)

lemma stripped_strip [simp]: "stripped (strip s)"
proof (cases "strip s = []")
  case True
  then show ?thesis by (simp add: stripped_def)
next
  case False
  then have ne: "rdrop is_space (dropWhile is_space s) \<noteq> []" by (simp add: strip_def)
  then have dne: "dropWhile is_space s \<noteq> []" by (metis rdrop_Nil)
  from ne have "hd (strip s) = hd (dropWhile is_space s)"
    by (simp add: strip_def hd_rdrop)
  moreover have "\<not> is_space (hd (dropWhile is_space s))"
    using dne by (rule hd_dropWhile)
  moreover have "\<not> is_space (last (strip s))"
    using ne unfolding strip_def by (rule rdrop_last)
  ultimately show ?thesis by (simp add: stripped_def)
qed

lemma strip_strip [simp]: "strip (strip s) = strip s"
  by (simp add: strip_stripped)

lemma strip_Nil [simp]: "strip [] = []"
  by (simp add: strip_def)

lemma stripped_no_space: "(\<forall>c\<in>set s. \<not> is_space c) \<Longrightarrow> stripped s"
  unfolding stripped_def using hd_in_set last_in_set by blast

lemma strip_no_space: "(\<forall>c\<in>set s. \<not> is_space c) \<Longrightarrow> strip s = s"
  by (simp add: strip_stripped stripped_no_space)

section \<open>Case, prefixes, splitting, joining\<close>

definition lower_cp :: "int \<Rightarrow> pystr" where
  "lower_cp c =
     (if 65 \<le> c \<and> c \<le> 90 then [c + 32]
      else if c = 304 then [105, 775]
      else if c = 8490 then [107]
      else [c])"

definition lower :: "pystr \<Rightarrow> pystr" where
  "lower s = concat (map lower_cp s)"

definition upper :: "pystr \<Rightarrow> pystr" where
  "upper s = map (\<lambda>c. if 97 \<le> c \<and> c \<le> 122 then c - 32 else c) s"

fun startswith :: "pystr \<Rightarrow> pystr \<Rightarrow> bool" where
  "startswith s [] = True"
| "startswith [] (p # ps) = False"
| "startswith (c # s) (p # ps) = (c = p \<and> startswith s ps)"

fun contains :: "pystr \<Rightarrow> pystr \<Rightarrow> bool" where
  "contains [] p = (p = [])"
| "contains (c # s) p = (startswith (c # s) p \<or> contains s p)"

fun split_on :: "int \<Rightarrow> pystr \<Rightarrow> pystr list" where
  "split_on d [] = [[]]"
| "split_on d (c # s) =
     (if c = d then [] # split_on d s
      else (case split_on d s of [] \<Rightarrow> [[c]] | w # ws \<Rightarrow> (c # w) # ws))"

text \<open>\<open>s.split(d, 1)[1]\<close>: what follows the first \<open>d\<close>.\<close>

fun after_first :: "int \<Rightarrow> pystr \<Rightarrow> pystr" where
  "after_first d [] = []"
| "after_first d (c # s) = (if c = d then s else after_first d s)"

fun join_nl :: "pystr list \<Rightarrow> pystr" where
  "join_nl [] = []"
| "join_nl [s] = s"
| "join_nl (s # t # ts) = s @ 10 # join_nl (t # ts)"

lemma startswith_append [simp]: "startswith (p @ s) p"
  by (induction p) auto

lemma startswith_iff: "startswith s p \<longleftrightarrow> (\<exists>t. s = p @ t)"
  by (induction s p rule: startswith.induct) auto

lemma contains_iff: "contains s p \<longleftrightarrow> (\<exists>a b. s = a @ p @ b)"
proof (induction s)
  case Nil
  then show ?case by auto
next
  case (Cons c s)
  have "(\<exists>a b. c # s = a @ p @ b) \<longleftrightarrow>
      (\<exists>b. c # s = p @ b) \<or> (\<exists>a b. s = a @ p @ b)"
    by (auto simp: Cons_eq_append_conv)
  with Cons show ?case by (simp add: startswith_iff)
qed

lemma split_on_nonempty [simp]: "split_on d s \<noteq> []"
  by (induction s) (auto split: list.splits)

lemma split_on_no_sep: "w \<in> set (split_on d s) \<Longrightarrow> d \<notin> set w"
  by (induction s arbitrary: w) (auto split: if_splits list.splits)

lemma split_on_id: "d \<notin> set s \<Longrightarrow> split_on d s = [s]"
  by (induction s) auto

lemma split_on_append: "d \<notin> set s \<Longrightarrow> split_on d (s @ d # t) = s # split_on d t"
  by (induction s) auto

lemma split_join_nl:
  "ss \<noteq> [] \<Longrightarrow> (\<forall>s\<in>set ss. 10 \<notin> set s) \<Longrightarrow> split_on 10 (join_nl ss) = ss"
  by (induction ss rule: join_nl.induct) (auto simp: split_on_id split_on_append)

lemma upper_u_upper: "(\<forall>c\<in>set s. \<not> (97 \<le> c \<and> c \<le> 122)) \<Longrightarrow> upper s = s"
  by (auto simp: upper_def map_idI)

section \<open>Decimal integers\<close>

fun nat_digits :: "nat \<Rightarrow> pystr" where
  "nat_digits n = (if n < 10 then [48 + int n] else nat_digits (n div 10) @ [48 + int (n mod 10)])"

declare nat_digits.simps [simp del]

definition py_str_int :: "int \<Rightarrow> pystr" where
  "py_str_int n = (if n < 0 then 45 # nat_digits (nat (- n)) else nat_digits (nat n))"

definition is_digit :: "int \<Rightarrow> bool" where
  "is_digit c \<longleftrightarrow> 48 \<le> c \<and> c \<le> 57"

text \<open>
  The digits of \<open>int(s)\<close>: single underscores may separate digits; the interpreter
  refuses more than 4300 digits.
\<close>

fun scan_digits :: "bool \<Rightarrow> int \<Rightarrow> pystr \<Rightarrow> int option" where
  "scan_digits prev acc [] = (if prev then Some acc else None)"
| "scan_digits prev acc (c # cs) =
     (if is_digit c then scan_digits True (10 * acc + (c - 48)) cs
      else if c = 95 \<and> prev then scan_digits False acc cs
      else None)"

definition py_int_digits :: "pystr \<Rightarrow> int option" where
  "py_int_digits s = (if 4300 < length (filter is_digit s) then None else scan_digits False 0 s)"

definition py_int_str :: "pystr \<Rightarrow> int option" where
  "py_int_str s =
     (case strip s of
        [] \<Rightarrow> None
      | c # cs \<Rightarrow>
          if c = 45 then map_option uminus (py_int_digits cs)
          else if c = 43 then py_int_digits cs
          else py_int_digits (c # cs))"

lemma nat_digits_range: "c \<in> set (nat_digits n) \<Longrightarrow> is_digit c"
proof (induction n rule: nat_digits.induct)
  case (1 n)
  show ?case
  proof (cases "n < 10")
    case True
    with "1.prems" show ?thesis
      by (subst (asm) nat_digits.simps) (auto simp: is_digit_def)
  next
    case False
    have "n mod 10 < 10" by simp
    then have "int (n mod 10) \<le> 9" by linarith
    moreover have "c \<in> set (nat_digits (n div 10)) \<or> c = 48 + int (n mod 10)"
      using "1.prems" False by (subst (asm) nat_digits.simps) auto
    ultimately show ?thesis
      using "1.IH" [OF False] unfolding is_digit_def by auto
  qed
qed

lemma nat_digits_nonempty [simp]: "nat_digits n \<noteq> []"
  by (subst nat_digits.simps) simp

lemma scan_digits_append_digit:
  "scan_digits p a s = Some v \<Longrightarrow> is_digit c \<Longrightarrow>
     scan_digits p a (s @ [c]) = Some (10 * v + (c - 48))"
  by (induction p a s rule: scan_digits.induct) (auto split: if_splits)

lemma scan_nat_digits: "scan_digits False 0 (nat_digits n) = Some (int n)"
proof (induction n rule: nat_digits.induct)
  case (1 n)
  show ?case
  proof (cases "n < 10")
    case True
    then show ?thesis by (subst nat_digits.simps) (auto simp: is_digit_def)
  next
    case False
    have "n mod 10 < 10" by simp
    then have d: "is_digit (48 + int (n mod 10))" unfolding is_digit_def by linarith
    have "scan_digits False 0 (nat_digits (n div 10) @ [48 + int (n mod 10)]) =
        Some (10 * int (n div 10) + (48 + int (n mod 10) - 48))"
      by (rule scan_digits_append_digit [OF "1.IH" [OF False] d])
    also have "10 * int (n div 10) + (48 + int (n mod 10) - 48) = int n"
      using mult_div_mod_eq [of 10 n] by linarith
    finally show ?thesis using False by (subst nat_digits.simps) simp
  qed
qed

lemma length_nat_digits: "n < 10 ^ k \<Longrightarrow> 0 < k \<Longrightarrow> length (nat_digits n) \<le> k"
proof (induction n arbitrary: k rule: nat_digits.induct)
  case (1 n)
  show ?case
  proof (cases "n < 10")
    case True
    with "1.prems" show ?thesis by (subst nat_digits.simps) simp
  next
    case False
    from "1.prems" obtain j where k: "k = Suc j" by (cases k) auto
    with False "1.prems" have "0 < j" by (cases j) auto
    moreover have "n div 10 < 10 ^ j"
      using "1.prems" k by (simp add: less_mult_imp_div_less mult.commute)
    ultimately have "length (nat_digits (n div 10)) \<le> j"
      using "1.IH" [OF False] by blast
    with False k show ?thesis by (subst nat_digits.simps) simp
  qed
qed

lemma digit_not_space: "is_digit c \<Longrightarrow> \<not> is_space c"
  by (auto simp: is_digit_def is_space_def)

lemma py_str_int_no_space: "c \<in> set (py_str_int n) \<Longrightarrow> \<not> is_space c"
proof -
  assume "c \<in> set (py_str_int n)"
  then have "c = 45 \<or> is_digit c"
    by (auto simp: py_str_int_def dest: nat_digits_range split: if_splits)
  then show ?thesis
    using digit_not_space by (auto simp: is_space_def)
qed

lemma strip_py_str_int [simp]: "strip (py_str_int n) = py_str_int n"
  by (rule strip_no_space) (auto dest: py_str_int_no_space)

lemma py_str_int_nonempty [simp]: "py_str_int n \<noteq> []"
  by (simp add: py_str_int_def)

lemma filter_digits_nat_digits: "filter is_digit (nat_digits n) = nat_digits n"
  by (rule filter_True) (auto dest: nat_digits_range)

text \<open>\<open>int(str(n)) == n\<close>, up to the interpreter's digit limit.\<close>

lemma py_int_str_of_int:
  assumes "\<bar>n\<bar> < 10 ^ k" and "0 < k" and "k \<le> 4300"
  shows "py_int_str (py_str_int n) = Some n"
proof -
  have "int (nat \<bar>n\<bar>) < int (10 ^ k)" using assms(1) by simp
  then have "nat \<bar>n\<bar> < 10 ^ k" by (simp only: of_nat_less_iff)
  then have len: "length (nat_digits (nat \<bar>n\<bar>)) \<le> 4300"
    using length_nat_digits [of "nat \<bar>n\<bar>" k] assms(2,3) by linarith
  have dig: "py_int_digits (nat_digits (nat \<bar>n\<bar>)) = Some \<bar>n\<bar>"
    using len by (simp add: py_int_digits_def filter_digits_nat_digits scan_nat_digits)
  show ?thesis
  proof (cases "n < 0")
    case True
    then have "py_str_int n = 45 # nat_digits (nat \<bar>n\<bar>)" by (simp add: py_str_int_def)
    with dig True show ?thesis
      unfolding py_int_str_def strip_py_str_int by simp
  next
    case False
    then have eq: "py_str_int n = nat_digits (nat \<bar>n\<bar>)" by (simp add: py_str_int_def)
    obtain c cs where c: "nat_digits (nat \<bar>n\<bar>) = c # cs"
      by (cases "nat_digits (nat \<bar>n\<bar>)") auto
    then have "is_digit c" using nat_digits_range [of c "nat \<bar>n\<bar>"] by simp
    then have "c \<noteq> 45" "c \<noteq> 43" by (auto simp: is_digit_def)
    with dig False c eq have "py_str_int n = c # cs" and "py_int_digits (c # cs) = Some n"
      by simp_all
    with \<open>c \<noteq> 45\<close> \<open>c \<noteq> 43\<close> show ?thesis
      unfolding py_int_str_def strip_py_str_int by simp
  qed
qed

end
