(* ===== verification/Py_Codec.thy ===== *)
theory Py_Codec
  imports Py_Str
begin

text \<open>
  The byte codecs of Python's standard library that the sources call: strict UTF-8
  (\<open>str.encode("utf-8")\<close>, \<open>bytes.decode("utf-8")\<close>), \<open>hexdigest\<close>, and Base64 in the
  standard and the URL-safe alphabet.  Each encoder comes with its decoder and the
  round trip, and with the alphabet its output is drawn from.
\<close>

section \<open>UTF-8\<close>

definition scalar :: "int \<Rightarrow> bool" where
  "scalar c \<longleftrightarrow> 0 \<le> c \<and> c < 1114112 \<and> \<not> (55296 \<le> c \<and> c \<le> 57343)"

definition utf8_cp :: "int \<Rightarrow> bytes" where
  "utf8_cp c =
     (if c < 128 then [byte_of c]
      else if c < 2048 then [byte_of (192 + c div 64), byte_of (128 + c mod 64)]
      else if c < 65536 then
        [byte_of (224 + c div 4096), byte_of (128 + c div 64 mod 64),
         byte_of (128 + c mod 64)]
      else
        [byte_of (240 + c div 262144), byte_of (128 + c div 4096 mod 64),
         byte_of (128 + c div 64 mod 64), byte_of (128 + c mod 64)])"

text \<open>\<open>None\<close> is the \<open>UnicodeEncodeError\<close> of a lone surrogate.\<close>

fun utf8_encode :: "pystr \<Rightarrow> bytes option" where
  "utf8_encode [] = Some []"
| "utf8_encode (c # s) =
     (if scalar c then map_option (\<lambda>bs. utf8_cp c @ bs) (utf8_encode s) else None)"

definition cont :: "int \<Rightarrow> bool" where
  "cont b \<longleftrightarrow> 128 \<le> b \<and> b < 192"

text \<open>Append the six bits of a continuation byte to an accumulated code point.\<close>

definition join6 :: "int \<Rightarrow> int \<Rightarrow> int" where
  "join6 acc b = acc * 64 + (b - 128)"

definition utf8_next2 :: "int \<Rightarrow> bytes \<Rightarrow> (int \<times> bytes) option" where
  "utf8_next2 a r =
     (case r of [] \<Rightarrow> None
      | b # r' \<Rightarrow>
          if cont (uint b) then Some (join6 (a - 192) (uint b), r') else None)"

definition utf8_next3 :: "int \<Rightarrow> bytes \<Rightarrow> (int \<times> bytes) option" where
  "utf8_next3 a r =
     (case r of b # c # r' \<Rightarrow>
        (let v = join6 (join6 (a - 224) (uint b)) (uint c) in
         if cont (uint b) \<and> cont (uint c) \<and> 2048 \<le> v \<and> scalar v then Some (v, r') else None)
      | _ \<Rightarrow> None)"

definition utf8_next4 :: "int \<Rightarrow> bytes \<Rightarrow> (int \<times> bytes) option" where
  "utf8_next4 a r =
     (case r of b # c # d # r' \<Rightarrow>
        (let v = join6 (join6 (join6 (a - 240) (uint b)) (uint c)) (uint d) in
         if cont (uint b) \<and> cont (uint c) \<and> cont (uint d) \<and> 65536 \<le> v \<and> scalar v
         then Some (v, r') else None)
      | _ \<Rightarrow> None)"

definition utf8_next :: "bytes \<Rightarrow> (int \<times> bytes) option" where
  "utf8_next bs =
     (case bs of [] \<Rightarrow> None
      | b # r \<Rightarrow>
          (let a = uint b in
           if a < 128 then Some (a, r)
           else if 194 \<le> a \<and> a < 224 then utf8_next2 a r
           else if 224 \<le> a \<and> a < 240 then utf8_next3 a r
           else if 240 \<le> a \<and> a < 245 then utf8_next4 a r
           else None))"

lemma utf8_next_shorter: "utf8_next bs = Some (c, r) \<Longrightarrow> length r < length bs"
  by (auto simp: utf8_next_def utf8_next2_def utf8_next3_def utf8_next4_def Let_def
      split: list.splits if_splits)

function utf8_decode :: "bytes \<Rightarrow> pystr option" where
  "utf8_decode bs =
     (if bs = [] then Some []
      else (case utf8_next bs of
              None \<Rightarrow> None
            | Some (c, r) \<Rightarrow> map_option (\<lambda>s. c # s) (utf8_decode r)))"
  by pat_completeness auto
termination
  by (relation "measure length") (auto dest: utf8_next_shorter)

declare utf8_decode.simps [simp del]

lemma utf8_next_seq1: "0 \<le> x \<Longrightarrow> x < 128 \<Longrightarrow> utf8_next (byte_of x # r) = Some (x, r)"
  by (simp add: utf8_next_def uint_byte_of)

lemma utf8_next_seq2:
  "2 \<le> x \<Longrightarrow> x < 32 \<Longrightarrow> 0 \<le> y \<Longrightarrow> y < 64 \<Longrightarrow>
     utf8_next (byte_of (192 + x) # byte_of (128 + y) # r) = Some (join6 x (128 + y), r)"
  by (simp add: utf8_next_def utf8_next2_def uint_byte_of cont_def Let_def)

lemma utf8_next_seq3:
  "0 \<le> x \<Longrightarrow> x < 16 \<Longrightarrow> 0 \<le> y \<Longrightarrow> y < 64 \<Longrightarrow> 0 \<le> z \<Longrightarrow> z < 64 \<Longrightarrow>
   v = join6 (join6 x (128 + y)) (128 + z) \<Longrightarrow> 2048 \<le> v \<Longrightarrow> scalar v \<Longrightarrow>
     utf8_next (byte_of (224 + x) # byte_of (128 + y) # byte_of (128 + z) # r) = Some (v, r)"
  by (simp add: utf8_next_def utf8_next3_def uint_byte_of cont_def Let_def)

lemma utf8_next_seq4:
  "0 \<le> w \<Longrightarrow> w < 5 \<Longrightarrow> 0 \<le> x \<Longrightarrow> x < 64 \<Longrightarrow> 0 \<le> y \<Longrightarrow> y < 64 \<Longrightarrow> 0 \<le> z \<Longrightarrow> z < 64 \<Longrightarrow>
   v = join6 (join6 (join6 w (128 + x)) (128 + y)) (128 + z) \<Longrightarrow> 65536 \<le> v \<Longrightarrow> scalar v \<Longrightarrow>
     utf8_next (byte_of (240 + w) # byte_of (128 + x) # byte_of (128 + y) # byte_of (128 + z) # r) =
       Some (v, r)"
  by (simp add: utf8_next_def utf8_next4_def uint_byte_of cont_def Let_def)

lemma join6_div_mod: "join6 (q div 64) (128 + q mod 64) = q"
  by (simp add: join6_def)

lemma div_64_steps: "(c :: int) div 4096 = c div 64 div 64" "c div 262144 = c div 4096 div 64"
  by (simp_all add: zdiv_zmult2_eq [symmetric])

lemma utf8_next_encode:
  assumes "scalar c"
  shows "utf8_next (utf8_cp c @ r) = Some (c, r)"
proof -
  consider (1) "c < 128" | (2) "128 \<le> c" "c < 2048" | (3) "2048 \<le> c" "c < 65536" | (4) "65536 \<le> c"
    by linarith
  moreover have m: "0 \<le> x mod 64" "x mod 64 < 64" for x :: int by simp_all
  ultimately show ?thesis
  proof cases
    case 1
    with assms have "utf8_next (byte_of c # r) = Some (c, r)"
      by (intro utf8_next_seq1) (auto simp: scalar_def)
    with 1 show ?thesis by (simp add: utf8_cp_def)
  next
    case 2
    then have "2 \<le> c div 64" "c div 64 < 32" by linarith+
    then have "utf8_next (byte_of (192 + c div 64) # byte_of (128 + c mod 64) # r) = Some (c, r)"
      using utf8_next_seq2 [of "c div 64" "c mod 64" r] by (simp add: join6_div_mod)
    with 2 show ?thesis by (simp add: utf8_cp_def)
  next
    case 3
    then have d: "0 \<le> c div 4096" "c div 4096 < 16" by linarith+
    have eq: "c = join6 (join6 (c div 4096) (128 + c div 64 mod 64)) (128 + c mod 64)"
      by (simp only: div_64_steps(1) join6_div_mod)
    have "utf8_next (byte_of (224 + c div 4096) # byte_of (128 + c div 64 mod 64)
        # byte_of (128 + c mod 64) # r) = Some (c, r)"
      by (rule utf8_next_seq3 [OF d m m eq 3(1) assms])
    with 3 show ?thesis by (simp add: utf8_cp_def)
  next
    case 4
    then have d0: "0 \<le> c div 262144" by simp
    have d: "c div 262144 < 5" using assms unfolding scalar_def by linarith
    have eq: "c = join6 (join6 (join6 (c div 262144) (128 + c div 4096 mod 64))
        (128 + c div 64 mod 64)) (128 + c mod 64)"
      by (simp only: div_64_steps(2) join6_div_mod) (simp only: div_64_steps(1) join6_div_mod)
    have "utf8_next (byte_of (240 + c div 262144) # byte_of (128 + c div 4096 mod 64)
        # byte_of (128 + c div 64 mod 64) # byte_of (128 + c mod 64) # r) = Some (c, r)"
      by (rule utf8_next_seq4 [OF d0 d m m m eq 4 assms])
    with 4 show ?thesis by (simp add: utf8_cp_def)
  qed
qed

lemma utf8_cp_nonempty [simp]: "utf8_cp c \<noteq> []"
  by (simp add: utf8_cp_def)

lemma utf8_decode_encode: "utf8_encode s = Some bs \<Longrightarrow> utf8_decode bs = Some s"
proof (induction s arbitrary: bs)
  case Nil
  then show ?case by (simp add: utf8_decode.simps)
next
  case (Cons c s)
  then obtain bs' where bs': "scalar c" "utf8_encode s = Some bs'" "bs = utf8_cp c @ bs'"
    by (auto split: if_splits)
  with Cons.IH have "utf8_decode bs' = Some s" by blast
  with bs' show ?case
    by (subst utf8_decode.simps) (simp add: utf8_next_encode)
qed

lemma utf8_encode_Some_iff: "(\<exists>bs. utf8_encode s = Some bs) \<longleftrightarrow> (\<forall>c\<in>set s. scalar c)"
  by (induction s) auto

lemma utf8_encode_inject:
  "utf8_encode s = Some bs \<Longrightarrow> utf8_encode t = Some bs \<Longrightarrow> s = t"
  by (drule utf8_decode_encode)+ simp

lemma utf8_encode_append:
  "utf8_encode s = Some a \<Longrightarrow> utf8_encode t = Some b \<Longrightarrow> utf8_encode (s @ t) = Some (a @ b)"
  by (induction s arbitrary: a) (auto split: if_splits)

lemma utf8_encode_ascii:
  "(\<forall>c\<in>set s. 0 \<le> c \<and> c < 128) \<Longrightarrow> utf8_encode s = Some (map byte_of s)"
  by (induction s) (auto simp: scalar_def utf8_cp_def)

lemma utf8_next_scalar: "utf8_next bs = Some (c, r) \<Longrightarrow> scalar c"
proof -
  assume *: "utf8_next bs = Some (c, r)"
  show ?thesis
    using * uint_byte_range [of "hd bs"]
    by (auto simp: utf8_next_def utf8_next2_def utf8_next3_def utf8_next4_def Let_def cont_def
        scalar_def join6_def split: list.splits if_splits)
qed

lemma utf8_decode_scalar: "utf8_decode bs = Some s \<Longrightarrow> \<forall>c\<in>set s. scalar c"
proof (induction bs arbitrary: s rule: utf8_decode.induct)
  case (1 bs)
  then show ?case
    by (subst (asm) (2) utf8_decode.simps)
      (auto split: if_splits option.splits dest: utf8_next_scalar)
qed

section \<open>Hexadecimal digests\<close>

definition hex_digit :: "int \<Rightarrow> int" where
  "hex_digit n = (if n < 10 then 48 + n else 87 + n)"

definition hex_byte :: "byte \<Rightarrow> pystr" where
  "hex_byte b = [hex_digit (uint b div 16), hex_digit (uint b mod 16)]"

definition hex :: "bytes \<Rightarrow> pystr" where
  "hex bs = concat (map hex_byte bs)"

lemma hex_digit_range:
  "0 \<le> n \<Longrightarrow> n < 16 \<Longrightarrow>
     (48 \<le> hex_digit n \<and> hex_digit n \<le> 57) \<or> (97 \<le> hex_digit n \<and> hex_digit n \<le> 102)"
  by (auto simp: hex_digit_def)

lemma hex_byte_range:
  "c \<in> set (hex_byte b) \<Longrightarrow> (48 \<le> c \<and> c \<le> 57) \<or> (97 \<le> c \<and> c \<le> 102)"
proof -
  have "uint b div 16 < 16" "0 \<le> uint b div 16" "0 \<le> uint b mod 16" "uint b mod 16 < 16"
    using uint_byte_range [of b] by presburger+
  then show "c \<in> set (hex_byte b) \<Longrightarrow> ?thesis"
    using hex_digit_range [of "uint b div 16"] hex_digit_range [of "uint b mod 16"]
    by (auto simp: hex_byte_def)
qed

lemma hex_range: "c \<in> set (hex bs) \<Longrightarrow> (48 \<le> c \<and> c \<le> 57) \<or> (97 \<le> c \<and> c \<le> 102)"
  using hex_byte_range by (auto simp: hex_def)

lemma length_hex [simp]: "length (hex bs) = 2 * length bs"
  by (induction bs) (auto simp: hex_def hex_byte_def)

lemma hex_digit_inj:
  "0 \<le> m \<Longrightarrow> m < 16 \<Longrightarrow> 0 \<le> n \<Longrightarrow> n < 16 \<Longrightarrow> hex_digit m = hex_digit n \<longleftrightarrow> m = n"
  by (auto simp: hex_digit_def)

lemma hex_byte_inject [simp]: "hex_byte a = hex_byte b \<longleftrightarrow> a = b"
proof
  assume eq: "hex_byte a = hex_byte b"
  have "uint a div 16 < 16" "0 \<le> uint a div 16" "0 \<le> uint a mod 16" "uint a mod 16 < 16"
    "uint b div 16 < 16" "0 \<le> uint b div 16" "0 \<le> uint b mod 16" "uint b mod 16 < 16"
    using uint_byte_range [of a] uint_byte_range [of b] by presburger+
  with eq have "uint a div 16 = uint b div 16" "uint a mod 16 = uint b mod 16"
    by (auto simp: hex_byte_def hex_digit_inj)
  then have "uint a = uint b" by (metis div_mult_mod_eq)
  then show "a = b" by (simp only: word_uint_eqI)
qed simp

lemma hex_inject [simp]: "hex a = hex b \<longleftrightarrow> a = b"
proof (induction a arbitrary: b)
  case Nil
  then show ?case by (cases b) (auto simp: hex_def hex_byte_def)
next
  case (Cons x a)
  show ?case
  proof (cases b)
    case Nil
    then show ?thesis by (simp add: hex_def hex_byte_def)
  next
    case (Cons y b')
    have "length (hex_byte x) = length (hex_byte y)" by (simp add: hex_byte_def)
    then have "hex (x # a) = hex (y # b') \<longleftrightarrow> hex_byte x = hex_byte y \<and> hex a = hex b'"
      by (simp add: hex_def)
    with Cons.IH Cons show ?thesis by simp
  qed
qed

lemma hex_no_space: "c \<in> set (hex bs) \<Longrightarrow> \<not> is_space c"
  by (drule hex_range) (auto simp: is_space_def)

lemma strip_hex [simp]: "strip (hex bs) = hex bs"
  by (rule strip_no_space) (auto dest: hex_no_space)

section \<open>Base64\<close>

definition b64_char :: "bool \<Rightarrow> int \<Rightarrow> int" where
  "b64_char url n =
     (if n < 26 then 65 + n
      else if n < 52 then 71 + n
      else if n < 62 then n - 4
      else if n = 62 then (if url then 45 else 43)
      else (if url then 95 else 47))"

text \<open>Three bytes make four characters; \<open>=\<close> pads the last group.\<close>

fun b64_encode :: "bool \<Rightarrow> bytes \<Rightarrow> pystr" where
  "b64_encode url [] = []"
| "b64_encode url [a] =
     [b64_char url (uint a div 4), b64_char url (uint a mod 4 * 16), 61, 61]"
| "b64_encode url [a, b] =
     [b64_char url (uint a div 4), b64_char url (uint a mod 4 * 16 + uint b div 16),
      b64_char url (uint b mod 16 * 4), 61]"
| "b64_encode url (a # b # c # r) =
     [b64_char url (uint a div 4), b64_char url (uint a mod 4 * 16 + uint b div 16),
      b64_char url (uint b mod 16 * 4 + uint c div 64), b64_char url (uint c mod 64)]
     @ b64_encode url r"

definition b64_val :: "bool \<Rightarrow> int \<Rightarrow> int option" where
  "b64_val url c =
     (if 65 \<le> c \<and> c \<le> 90 then Some (c - 65)
      else if 97 \<le> c \<and> c \<le> 122 then Some (c - 71)
      else if 48 \<le> c \<and> c \<le> 57 then Some (c + 4)
      else if c = (if url then 45 else 43) then Some 62
      else if c = (if url then 95 else 47) then Some 63
      else None)"

fun b64_decode :: "bool \<Rightarrow> pystr \<Rightarrow> bytes option" where
  "b64_decode url [] = Some []"
| "b64_decode url (p # q # r # s # t) =
     (case (b64_val url p, b64_val url q) of
        (Some a, Some b) \<Rightarrow>
          let x = byte_of (a * 4 + b div 16) in
          if r = 61 \<and> s = 61 \<and> t = [] then Some [x]
          else (case b64_val url r of
                  None \<Rightarrow> None
                | Some c \<Rightarrow>
                    let y = byte_of (b mod 16 * 16 + c div 4) in
                    if s = 61 \<and> t = [] then Some [x, y]
                    else (case b64_val url s of
                            None \<Rightarrow> None
                          | Some d \<Rightarrow>
                              map_option (\<lambda>bs. x # y # byte_of (c mod 4 * 64 + d) # bs)
                                (b64_decode url t)))
      | _ \<Rightarrow> None)"
| "b64_decode url _ = None"

lemma b64_val_char:
  "0 \<le> n \<Longrightarrow> n < 64 \<Longrightarrow> b64_val url (b64_char url n) = Some n"
  by (auto simp: b64_val_def b64_char_def)

lemma b64_char_not_pad [simp]: "0 \<le> n \<Longrightarrow> n < 64 \<Longrightarrow> b64_char url n \<noteq> 61"
  by (auto simp: b64_char_def)

lemma sextet_bounds:
  fixes a b c :: byte
  shows "0 \<le> uint a div 4" "uint a div 4 < 64"
    "0 \<le> uint a mod 4 * 16" "uint a mod 4 * 16 < 64"
    "0 \<le> uint a mod 4 * 16 + uint b div 16" "uint a mod 4 * 16 + uint b div 16 < 64"
    "0 \<le> uint b mod 16 * 4" "uint b mod 16 * 4 < 64"
    "0 \<le> uint b mod 16 * 4 + uint c div 64" "uint b mod 16 * 4 + uint c div 64 < 64"
    "0 \<le> uint c mod 64" "uint c mod 64 < 64"
  using byte_parts [OF uint_byte_range, of a] byte_parts [OF uint_byte_range, of b]
    byte_parts [OF uint_byte_range, of c]
    sextet_range(1) [of "uint a mod 4" 0] sextet_range(1) [of "uint a mod 4" "uint b div 16"]
    sextet_range(2) [of "uint b mod 16" 0] sextet_range(2) [of "uint b mod 16" "uint c div 64"]
  by (simp_all only: add_0_right order_refl zero_less_numeral simp_thms)

lemma sextet_join:
  fixes a b c :: byte
  shows "uint a div 4 * 4 + (uint a mod 4 * 16) div 16 = uint a"
    "uint a div 4 * 4 + (uint a mod 4 * 16 + uint b div 16) div 16 = uint a"
    "(uint a mod 4 * 16 + uint b div 16) mod 16 * 16 + (uint b mod 16 * 4) div 4 = uint b"
    "(uint a mod 4 * 16 + uint b div 16) mod 16 * 16 + (uint b mod 16 * 4 + uint c div 64) div 4 = uint b"
    "(uint b mod 16 * 4 + uint c div 64) mod 4 * 64 + uint c mod 64 = uint c"
  by (rule byte_join [OF uint_byte_range uint_byte_range])+

lemma b64_decode_group:
  assumes "0 \<le> p" "p < 64" "0 \<le> q" "q < 64" "0 \<le> r" "r < 64" "0 \<le> s" "s < 64"
  shows "b64_decode url
      ([b64_char url p, b64_char url q, b64_char url r, b64_char url s] @ t) =
    map_option (\<lambda>bs. byte_of (p * 4 + q div 16) # byte_of (q mod 16 * 16 + r div 4)
        # byte_of (r mod 4 * 64 + s) # bs) (b64_decode url t)"
    "b64_decode url [b64_char url p, b64_char url q, b64_char url r, 61] =
     Some [byte_of (p * 4 + q div 16), byte_of (q mod 16 * 16 + r div 4)]"
    "b64_decode url [b64_char url p, b64_char url q, 61, 61] = Some [byte_of (p * 4 + q div 16)]"
  using assms by (simp_all add: b64_val_char Let_def)

lemma b64_decode_encode: "b64_decode url (b64_encode url bs) = Some bs"
proof (induction url bs rule: b64_encode.induct)
  case (1 url)
  show ?case by simp
next
  case (2 url a)
  show ?case
    by (simp only: b64_encode.simps b64_decode_group(3) [OF sextet_bounds(1,2,3,4) order.refl
          zero_less_numeral order.refl zero_less_numeral] sextet_join byte_of_uint)
next
  case (3 url a b)
  show ?case
    by (simp only: b64_encode.simps b64_decode_group(2) [OF sextet_bounds(1,2,5,6,7,8) order.refl
          zero_less_numeral] sextet_join byte_of_uint)
next
  case (4 url a b c r)
  then show ?case
    by (simp only: b64_encode.simps b64_decode_group(1) [OF sextet_bounds(1,2,5,6,9,10,11,12)]
        sextet_join byte_of_uint option.map)
qed

definition b64_alphabet :: "bool \<Rightarrow> int set" where
  "b64_alphabet url = {65..90} \<union> {97..122} \<union> {48..57} \<union> (if url then {45, 95} else {43, 47})"

lemma b64_char_alphabet: "0 \<le> n \<Longrightarrow> n < 64 \<Longrightarrow> b64_char url n \<in> b64_alphabet url"
  by (auto simp: b64_char_def b64_alphabet_def)

text \<open>The encoding is a body over the alphabet followed by zero to two \<open>=\<close>.\<close>

lemma b64_encode_shape:
  "\<exists>body. b64_encode url bs = body @ replicate ((3 - length bs mod 3) mod 3) 61
     \<and> set body \<subseteq> b64_alphabet url
     \<and> length body = 4 * (length bs div 3) + (if length bs mod 3 = 0 then 0 else length bs mod 3 + 1)"
proof (induction url bs rule: b64_encode.induct)
  case (1 url)
  show ?case by simp
next
  case (2 url a)
  have "b64_char url (uint a div 4) \<in> b64_alphabet url"
    "b64_char url (uint a mod 4 * 16) \<in> b64_alphabet url"
    by (intro b64_char_alphabet sextet_bounds)+
  then show ?case
    by (intro exI [of _ "[b64_char url (uint a div 4), b64_char url (uint a mod 4 * 16)]"])
      (simp add: numeral_2_eq_2)
next
  case (3 url a b)
  have "b64_char url (uint a div 4) \<in> b64_alphabet url"
    "b64_char url (uint a mod 4 * 16 + uint b div 16) \<in> b64_alphabet url"
    "b64_char url (uint b mod 16 * 4) \<in> b64_alphabet url"
    by (intro b64_char_alphabet sextet_bounds)+
  then show ?case
    by (intro exI [of _ "[b64_char url (uint a div 4),
        b64_char url (uint a mod 4 * 16 + uint b div 16), b64_char url (uint b mod 16 * 4)]"]) simp
next
  case (4 url a b c r)
  have q: "b64_char url (uint a div 4) \<in> b64_alphabet url"
    "b64_char url (uint a mod 4 * 16 + uint b div 16) \<in> b64_alphabet url"
    "b64_char url (uint b mod 16 * 4 + uint c div 64) \<in> b64_alphabet url"
    "b64_char url (uint c mod 64) \<in> b64_alphabet url"
    by (intro b64_char_alphabet sextet_bounds)+
  obtain body where body: "b64_encode url r = body @ replicate ((3 - length r mod 3) mod 3) 61"
    "set body \<subseteq> b64_alphabet url"
    "length body = 4 * (length r div 3) + (if length r mod 3 = 0 then 0 else length r mod 3 + 1)"
    using 4 by blast
  have len: "length (a # b # c # r) = length r + 3" by simp
  have "(length r + 3) div 3 = Suc (length r div 3)" "(length r + 3) mod 3 = length r mod 3"
    by simp_all
  with body q show ?case unfolding len
    by (intro exI [of _ "[b64_char url (uint a div 4),
        b64_char url (uint a mod 4 * 16 + uint b div 16),
        b64_char url (uint b mod 16 * 4 + uint c div 64), b64_char url (uint c mod 64)] @ body"]) simp
qed

end
