(* ===== verification/Py_Sha256.thy ===== *)
theory Py_Sha256
  imports Py_Codec
begin

text \<open>
  \<open>hashlib.sha256\<close> and \<open>hmac.new(..., hashlib.sha256)\<close> of the standard library, on
  32-bit words: padding, message schedule, compression, and HMAC over 64-byte blocks.
  What the rest of the development uses of them is that they are functions and that a
  digest has 32 bytes; the definitions compute, so a witness can evaluate them.
\<close>

unbundle bit_operations_syntax

type_synonym w32 = "32 word"

definition rotr :: "nat \<Rightarrow> w32 \<Rightarrow> w32" where
  "rotr n x = drop_bit n x OR push_bit (32 - n) x"

text \<open>The round constants: the first 32 bits of the fractional parts of the cube roots of the first
  64 primes, by binary search for the integer cube root of \<open>p * 2 ^ 96\<close>.\<close>

fun cube_root :: "nat \<Rightarrow> int \<Rightarrow> int \<Rightarrow> int" where
  "cube_root 0 n r = r"
| "cube_root (Suc k) n r =
     (let r' = r + 2 ^ k in cube_root k n (if r' * r' * r' \<le> n then r' else r))"

definition sha_primes :: "int list" where
  "sha_primes = take 64 (filter (\<lambda>n. list_all (\<lambda>d. n mod d \<noteq> 0) [2..n - 1]) [2..311])"

definition sha_k :: "w32 list" where
  "sha_k = map (\<lambda>p. word_of_int (cube_root 36 (p * 2 ^ 96) 0)) sha_primes"

record sha_state =
  sa :: w32
  sb :: w32
  sc :: w32
  sd :: w32
  se :: w32
  sf :: w32
  sg :: w32
  sh :: w32

definition sha_init :: sha_state where
  "sha_init = \<lparr>sa = 0x6a09e667, sb = 0xbb67ae85, sc = 0x3c6ef372, sd = 0xa54ff53a,
               se = 0x510e527f, sf = 0x9b05688c, sg = 0x1f83d9ab, sh = 0x5be0cd19\<rparr>"

text \<open>The schedule is kept newest word first: \<open>extend n ws\<close> adds \<open>n\<close> words.\<close>

fun extend :: "nat \<Rightarrow> w32 list \<Rightarrow> w32 list" where
  "extend 0 ws = ws"
| "extend (Suc n) ws =
     (let w15 = ws ! 14; w2 = ws ! 1;
          s0 = rotr 7 w15 XOR rotr 18 w15 XOR drop_bit 3 w15;
          s1 = rotr 17 w2 XOR rotr 19 w2 XOR drop_bit 10 w2
      in extend n ((ws ! 15 + s0 + ws ! 6 + s1) # ws))"

definition sha_round :: "w32 \<times> w32 \<Rightarrow> sha_state \<Rightarrow> sha_state" where
  "sha_round kw st =
     (let e = se st; a = sa st;
          s1 = rotr 6 e XOR rotr 11 e XOR rotr 25 e;
          ch = (e AND sf st) XOR (NOT e AND sg st);
          t1 = sh st + s1 + ch + fst kw + snd kw;
          s0 = rotr 2 a XOR rotr 13 a XOR rotr 22 a;
          maj = (a AND sb st) XOR (a AND sc st) XOR (sb st AND sc st)
      in \<lparr>sa = t1 + s0 + maj, sb = a, sc = sb st, sd = sc st,
          se = sd st + t1, sf = e, sg = sf st, sh = sg st\<rparr>)"

definition sha_compress :: "sha_state \<Rightarrow> w32 list \<Rightarrow> sha_state" where
  "sha_compress st block =
     (let r = fold sha_round (zip sha_k (rev (extend 48 (rev block)))) st
      in \<lparr>sa = sa st + sa r, sb = sb st + sb r, sc = sc st + sc r, sd = sd st + sd r,
          se = se st + se r, sf = sf st + sf r, sg = sg st + sg r, sh = sh st + sh r\<rparr>)"

fun words_of :: "bytes \<Rightarrow> w32 list" where
  "words_of (a # b # c # d # r) =
     word_of_int (((uint a * 256 + uint b) * 256 + uint c) * 256 + uint d) # words_of r"
| "words_of _ = []"

definition word_bytes :: "w32 \<Rightarrow> bytes" where
  "word_bytes w =
     (let n = uint w in
      [byte_of (n div 16777216), byte_of (n div 65536 mod 256), byte_of (n div 256 mod 256),
       byte_of (n mod 256)])"

definition be64 :: "nat \<Rightarrow> bytes" where
  "be64 n = map (\<lambda>i. byte_of (int n div 256 ^ i mod 256)) [7, 6, 5, 4, 3, 2, 1, 0]"

definition sha_pad :: "bytes \<Rightarrow> bytes" where
  "sha_pad m = m @ [128] @ replicate ((119 - length m mod 64) mod 64) 0 @ be64 (8 * length m)"

function sha_blocks :: "sha_state \<Rightarrow> w32 list \<Rightarrow> sha_state" where
  "sha_blocks st ws =
     (if length ws < 16 then st else sha_blocks (sha_compress st (take 16 ws)) (drop 16 ws))"
  by pat_completeness auto
termination
  by (relation "measure (\<lambda>(st, ws). length ws)") auto

declare sha_blocks.simps [simp del]

definition sha_digest :: "sha_state \<Rightarrow> bytes" where
  "sha_digest st =
     concat (map word_bytes [sa st, sb st, sc st, sd st, se st, sf st, sg st, sh st])"

definition sha256 :: "bytes \<Rightarrow> bytes" where
  "sha256 m = sha_digest (sha_blocks sha_init (words_of (sha_pad m)))"

section \<open>HMAC\<close>

definition hmac_block_key :: "bytes \<Rightarrow> bytes" where
  "hmac_block_key k =
     (let k' = (if 64 < length k then sha256 k else k) in k' @ replicate (64 - length k') 0)"

definition hmac_sha256 :: "bytes \<Rightarrow> bytes \<Rightarrow> bytes" where
  "hmac_sha256 key msg =
     (let k = hmac_block_key key
      in sha256 (map (\<lambda>b. b XOR 0x5c) k @ sha256 (map (\<lambda>b. b XOR 0x36) k @ msg)))"

lemma length_word_bytes [simp]: "length (word_bytes w) = 4"
  by (simp add: word_bytes_def Let_def)

lemma length_sha256 [simp]: "length (sha256 m) = 32"
  by (simp add: sha256_def sha_digest_def)

lemma length_hmac_sha256 [simp]: "length (hmac_sha256 k m) = 32"
  by (simp add: hmac_sha256_def Let_def)

text \<open>The padded message is a whole number of 64-byte blocks.\<close>

lemma length_sha_pad: "length (sha_pad m) mod 64 = 0"
proof -
  define r where "r = length m mod 64"
  have r: "r < 64" by (simp add: r_def)
  have z: "(119 - r) mod 64 = (if r \<le> 55 then 55 - r else 119 - r)"
    using r by (auto simp: mod_if)
  have "(r + (9 + (119 - r) mod 64)) mod 64 = 0"
    using r unfolding z by (cases "r \<le> 55") simp_all
  then have "(length m + (9 + (119 - r) mod 64)) mod 64 = 0"
    unfolding r_def by (simp add: mod_simps)
  then show ?thesis by (simp add: sha_pad_def be64_def r_def ac_simps)
qed

end
