(* ===== verification/Py_Json.thy ===== *)
theory Py_Json
  imports Py_Sha256
begin

text \<open>
  JSON values as Python sees them, with the operations the sources apply to them:
  truth value, \<open>str\<close>, \<open>int\<close>, iteration, \<open>dict.get\<close>, and the text codec
  \<open>json.dumps(..., separators=(",", ":"), ensure_ascii=False)\<close> / \<open>json.loads\<close>.
  An object is an association list in insertion order.  A float is kept as its shortest
  decimal form (mantissa and power of ten), the form \<open>repr\<close> prints; binary rounding of
  longer literals and the interpreter's recursion limit are not modelled.
\<close>

datatype pyfloat = Dec bool nat int | Inf bool | NaN

datatype json =
    JNull
  | JBool bool
  | JInt int
  | JFloat pyfloat
  | JStr pystr
  | JArr "json list"
  | JObj "(pystr \<times> json) list"

type_synonym jobj = "(pystr \<times> json) list"

section \<open>Values\<close>

fun truthy :: "json \<Rightarrow> bool" where
  "truthy JNull = False"
| "truthy (JBool b) = b"
| "truthy (JInt n) = (n \<noteq> 0)"
| "truthy (JFloat (Dec _ m _)) = (m \<noteq> 0)"
| "truthy (JFloat _) = True"
| "truthy (JStr s) = (s \<noteq> [])"
| "truthy (JArr xs) = (xs \<noteq> [])"
| "truthy (JObj kvs) = (kvs \<noteq> [])"

fun zeros :: "nat \<Rightarrow> pystr" where
  "zeros 0 = []"
| "zeros (Suc n) = 48 # zeros n"

definition sign_str :: "bool \<Rightarrow> pystr" where
  "sign_str neg = (if neg then [45] else [])"

text \<open>\<open>repr\<close> of a float from its shortest digits.\<close>

definition float_digits_str :: "nat \<Rightarrow> int \<Rightarrow> pystr" where
  "float_digits_str m e =
     (let ds = nat_digits m; n = int (length ds); p = n + e in
      if m = 0 then [48, 46, 48]
      else if - 4 < p \<and> p \<le> 16 then
        (if p \<le> 0 then [48, 46] @ zeros (nat (- p)) @ ds
         else if n \<le> p then ds @ zeros (nat (p - n)) @ [46, 48]
         else take (nat p) ds @ 46 # drop (nat p) ds)
      else
        (let x = p - 1;
             xs = nat_digits (nat \<bar>x\<bar>);
             mant = (if tl ds = [] then ds else hd ds # 46 # tl ds)
         in mant @ 101 # (if x < 0 then 45 else 43) # (if length xs < 2 then 48 # xs else xs)))"

fun float_str :: "pyfloat \<Rightarrow> pystr" where
  "float_str (Dec neg m e) = sign_str neg @ float_digits_str m e"
| "float_str (Inf neg) = sign_str neg @ u ''inf''"
| "float_str NaN = u ''nan''"

definition esc_repr :: "int \<Rightarrow> int \<Rightarrow> pystr" where
  "esc_repr q c =
     (if c = q \<or> c = 92 then [92, c]
      else if c = 10 then [92, 110]
      else if c = 13 then [92, 114]
      else if c = 9 then [92, 116]
      else if (0 \<le> c \<and> c < 32) \<or> c = 127 then
        [92, 120, hex_digit (c div 16), hex_digit (c mod 16)]
      else [c])"

definition repr_str :: "pystr \<Rightarrow> pystr" where
  "repr_str s =
     (let q = (if 39 \<in> set s \<and> 34 \<notin> set s then 34 else 39)
      in q # concat (map (esc_repr q) s) @ [q])"

fun comma_sep :: "pystr list \<Rightarrow> pystr" where
  "comma_sep [] = []"
| "comma_sep [s] = s"
| "comma_sep (s # t # ts) = s @ u '', '' @ comma_sep (t # ts)"

fun py_repr :: "json \<Rightarrow> pystr" where
  "py_repr JNull = u ''None''"
| "py_repr (JBool b) = (if b then u ''True'' else u ''False'')"
| "py_repr (JInt n) = py_str_int n"
| "py_repr (JFloat f) = float_str f"
| "py_repr (JStr s) = repr_str s"
| "py_repr (JArr xs) = 91 # comma_sep (map py_repr xs) @ [93]"
| "py_repr (JObj kvs) =
     123 # comma_sep (map (\<lambda>(k, v). repr_str k @ u '': '' @ py_repr v) kvs) @ [125]"

definition py_str :: "json \<Rightarrow> pystr" where
  "py_str v = (case v of JStr s \<Rightarrow> s | _ \<Rightarrow> py_repr v)"

lemma py_str_JStr [simp]: "py_str (JStr s) = s"
  by (simp add: py_str_def)

text \<open>Truncation towards zero of a decimal.\<close>

definition dec_trunc :: "bool \<Rightarrow> nat \<Rightarrow> int \<Rightarrow> int" where
  "dec_trunc neg m e =
     (let a = (if 0 \<le> e then int m * 10 ^ nat e else int m div 10 ^ nat (- e))
      in if neg then - a else a)"

section \<open>Dictionaries\<close>

fun dict_put :: "'k \<Rightarrow> 'v \<Rightarrow> ('k \<times> 'v) list \<Rightarrow> ('k \<times> 'v) list" where
  "dict_put k v [] = [(k, v)]"
| "dict_put k v ((k', v') # d) = (if k = k' then (k', v) # d else (k', v') # dict_put k v d)"

definition dict_of :: "('k \<times> 'v) list \<Rightarrow> ('k \<times> 'v) list" where
  "dict_of kvs = fold (\<lambda>(k, v) d. dict_put k v d) kvs []"

lemma map_of_dict_put: "map_of (dict_put k v d) = (map_of d)(k \<mapsto> v)"
  by (induction k v d rule: dict_put.induct) (auto simp: fun_eq_iff)

lemma fst_dict_put: "fst ` set (dict_put k v d) = insert k (fst ` set d)"
  by (induction k v d rule: dict_put.induct) auto

lemma distinct_dict_put: "distinct (map fst d) \<Longrightarrow> distinct (map fst (dict_put k v d))"
proof (induction k v d rule: dict_put.induct)
  case (2 k v k' v' d)
  have "fst ` set (dict_put k v d) = insert k (fst ` set d)" by (rule fst_dict_put)
  with 2 show ?case by (auto simp: image_iff)
qed simp

lemma dict_put_new: "k \<notin> fst ` set d \<Longrightarrow> dict_put k v d = d @ [(k, v)]"
  by (induction k v d rule: dict_put.induct) auto

lemma dict_of_fold:
  "distinct (map fst kvs) \<Longrightarrow> fst ` set d \<inter> fst ` set kvs = {} \<Longrightarrow>
     fold (\<lambda>(k, v) d. dict_put k v d) kvs d = d @ kvs"
proof (induction kvs arbitrary: d)
  case (Cons x kvs)
  obtain k v where x: "x = (k, v)" by (cases x)
  with Cons.prems have "dict_put k v d = d @ [(k, v)]" by (intro dict_put_new) auto
  moreover have "fst ` set (d @ [(k, v)]) \<inter> fst ` set kvs = {}"
    using Cons.prems x by (auto simp: image_iff)
  ultimately show ?case using Cons x by simp
qed simp

lemma dict_of_distinct: "distinct (map fst kvs) \<Longrightarrow> dict_of kvs = kvs"
  by (simp add: dict_of_def dict_of_fold)

lemma distinct_dict_of: "distinct (map fst (dict_of kvs))"
proof -
  have "distinct (map fst d) \<Longrightarrow> distinct (map fst (fold (\<lambda>(k, v) d. dict_put k v d) kvs d))"
    for d :: "('k \<times> 'v) list" and kvs
    by (induction kvs arbitrary: d) (auto simp: distinct_dict_put)
  from this [of "[]" kvs] show ?thesis by (simp add: dict_of_def)
qed

end
