(* ===== verification/Py_Json_Text.thy ===== *)
theory Py_Json_Text
  imports Py_Json
begin

text \<open>
  The JSON text codec: \<open>json_dumps\<close> is \<open>json.dumps\<close> with the compact separators and
  \<open>ensure_ascii=False\<close> the clients use, \<open>json_pretty\<close> is \<open>json.dumps\<close> with \<open>indent=2\<close> and
  \<open>ensure_ascii=False\<close>, in which the scripts save their reports, and \<open>json_loads\<close> is \<open>json.loads\<close> of
  a string.  The parser runs on fuel (one unit per value, element or member); \<open>json_loads\<close>
  gives it one more than the length of the text.  \<open>Py_Json_Roundtrip\<close> shows that this is enough
  for everything that is printed.
\<close>

section \<open>Printing\<close>

definition esc_json :: "int \<Rightarrow> pystr" where
  "esc_json c =
     (if c = 34 then [92, 34]
      else if c = 92 then [92, 92]
      else if c = 10 then [92, 110]
      else if c = 13 then [92, 114]
      else if c = 9 then [92, 116]
      else if c = 12 then [92, 102]
      else if c = 8 then [92, 98]
      else if 0 \<le> c \<and> c < 32 then [92, 117, 48, 48, hex_digit (c div 16), hex_digit (c mod 16)]
      else [c])"

definition json_string :: "pystr \<Rightarrow> pystr" where
  "json_string s = 34 # concat (map esc_json s) @ [34]"

fun json_float :: "pyfloat \<Rightarrow> pystr" where
  "json_float (Inf neg) = sign_str neg @ u ''Infinity''"
| "json_float NaN = u ''NaN''"
| "json_float (Dec neg m e) = float_str (Dec neg m e)"

fun commas :: "pystr list \<Rightarrow> pystr" where
  "commas [] = []"
| "commas [s] = s"
| "commas (s # t # ts) = s @ 44 # commas (t # ts)"

fun json_dumps :: "json \<Rightarrow> pystr" where
  "json_dumps JNull = u ''null''"
| "json_dumps (JBool b) = (if b then u ''true'' else u ''false'')"
| "json_dumps (JInt n) = py_str_int n"
| "json_dumps (JFloat f) = json_float f"
| "json_dumps (JStr s) = json_string s"
| "json_dumps (JArr xs) = 91 # commas (map json_dumps xs) @ [93]"
| "json_dumps (JObj kvs) =
     123 # commas (map (\<lambda>(k, v). json_string k @ 58 # json_dumps v) kvs) @ [125]"

text \<open>A layout: \<open>w n\<close> is the white space before an item at depth \<open>n\<close> and before the bracket that closes
  depth \<open>n\<close>, \<open>k\<close> what follows a colon.\<close>

fun json_print :: "(nat \<Rightarrow> pystr) \<Rightarrow> pystr \<Rightarrow> nat \<Rightarrow> json \<Rightarrow> pystr" where
  "json_print w k n JNull = u ''null''"
| "json_print w k n (JBool b) = (if b then u ''true'' else u ''false'')"
| "json_print w k n (JInt i) = py_str_int i"
| "json_print w k n (JFloat f) = json_float f"
| "json_print w k n (JStr s) = json_string s"
| "json_print w k n (JArr xs) =
     (if xs = [] then [91, 93]
      else 91 # commas (map (\<lambda>x. w (Suc n) @ json_print w k (Suc n) x) xs) @ w n @ [93])"
| "json_print w k n (JObj kvs) =
     (if kvs = [] then [123, 125]
      else 123 # commas (map (\<lambda>(key, v). w (Suc n) @ json_string key @ 58 # k @
             json_print w k (Suc n) v) kvs) @ w n @ [125])"

definition json_pretty :: "json \<Rightarrow> pystr" where
  "json_pretty v = json_print (\<lambda>n. 10 # replicate (2 * n) 32) [32] 0 v"

section \<open>Parsing\<close>

definition json_ws :: "int \<Rightarrow> bool" where
  "json_ws c \<longleftrightarrow> c = 32 \<or> c = 9 \<or> c = 10 \<or> c = 13"

definition skip_ws :: "pystr \<Rightarrow> pystr" where
  "skip_ws s = dropWhile json_ws s"

definition hex_val :: "int \<Rightarrow> int option" where
  "hex_val c =
     (if 48 \<le> c \<and> c \<le> 57 then Some (c - 48)
      else if 97 \<le> c \<and> c \<le> 102 then Some (c - 87)
      else if 65 \<le> c \<and> c \<le> 70 then Some (c - 55)
      else None)"

fun hex4 :: "pystr \<Rightarrow> (int \<times> pystr) option" where
  "hex4 (a # b # c # d # r) =
     (case (hex_val a, hex_val b, hex_val c, hex_val d) of
        (Some w, Some x, Some y, Some z) \<Rightarrow> Some (((w * 16 + x) * 16 + y) * 16 + z, r)
      | _ \<Rightarrow> None)"
| "hex4 _ = None"

text \<open>What follows \<open>\u\<close>: four hex digits, a second escape completing a surrogate pair.\<close>

definition unicode_escape :: "pystr \<Rightarrow> (int \<times> pystr) option" where
  "unicode_escape s =
     (case hex4 s of
        None \<Rightarrow> None
      | Some (a, r) \<Rightarrow>
          if 55296 \<le> a \<and> a \<le> 56319 \<and> take 2 r = [92, 117] then
            (case hex4 (drop 2 r) of
               None \<Rightarrow> None
             | Some (b, r') \<Rightarrow>
                 if 56320 \<le> b \<and> b \<le> 57343
                 then Some (65536 + (a - 55296) * 1024 + (b - 56320), r')
                 else Some (a, r))
          else Some (a, r))"

definition simple_escape :: "int \<Rightarrow> int option" where
  "simple_escape c =
     (if c = 34 \<or> c = 92 \<or> c = 47 then Some c
      else if c = 98 then Some 8
      else if c = 102 then Some 12
      else if c = 110 then Some 10
      else if c = 114 then Some 13
      else if c = 116 then Some 9
      else None)"

text \<open>One character of a string literal: \<open>Inr None\<close> is the closing quote.\<close>

definition string_char :: "pystr \<Rightarrow> ((int option) \<times> pystr) option" where
  "string_char s =
     (case s of
        [] \<Rightarrow> None
      | c # r \<Rightarrow>
          if c = 34 then Some (None, r)
          else if c = 92 then
            (case r of
               [] \<Rightarrow> None
             | e # r' \<Rightarrow>
                 if e = 117 then map_option (\<lambda>(x, r''). (Some x, r'')) (unicode_escape r')
                 else map_option (\<lambda>x. (Some x, r')) (simple_escape e))
          else if 0 \<le> c \<and> c < 32 then None
          else Some (Some c, r))"

lemma hex4_shorter: "hex4 s = Some (c, r) \<Longrightarrow> length r < length s"
  by (induction s rule: hex4.induct) (auto split: option.splits)

lemma unicode_escape_shorter: "unicode_escape s = Some (c, r) \<Longrightarrow> length r < length s"
  by (auto simp: unicode_escape_def split: option.splits prod.splits if_splits
      dest!: hex4_shorter)

lemma string_char_shorter: "string_char s = Some (c, r) \<Longrightarrow> length r < length s"
  by (auto simp: string_char_def split: list.splits if_splits dest: unicode_escape_shorter)

function parse_string :: "pystr \<Rightarrow> (pystr \<times> pystr) option" where
  "parse_string s =
     (case string_char s of
        None \<Rightarrow> None
      | Some (None, r) \<Rightarrow> Some ([], r)
      | Some (Some c, r) \<Rightarrow> map_option (\<lambda>(t, r'). (c # t, r')) (parse_string r))"
  by pat_completeness auto
termination
  by (relation "measure length") (auto dest: string_char_shorter)

declare parse_string.simps [simp del]

fun digits_val :: "int \<Rightarrow> pystr \<Rightarrow> int" where
  "digits_val acc [] = acc"
| "digits_val acc (c # cs) = digits_val (10 * acc + (c - 48)) cs"

fun norm_dec :: "nat \<Rightarrow> nat \<Rightarrow> int \<Rightarrow> nat \<times> int" where
  "norm_dec 0 m e = (m, e)"
| "norm_dec (Suc n) m e =
     (if m = 0 then (0, 0) else if m mod 10 = 0 then norm_dec n (m div 10) (e + 1) else (m, e))"

text \<open>A decimal rounds to an infinite double from \<open>2 ^ 1024 - 2 ^ 970\<close> on, halfway above the largest one.\<close>

definition too_large :: "nat \<Rightarrow> int \<Rightarrow> bool" where
  "too_large m e \<longleftrightarrow>
     (let p = int (length (nat_digits m)) + e in
      309 < p \<or> (p = 309 \<and> (2 ^ 1024 - 2 ^ 970) * 10 ^ nat (- e) \<le> int m * 10 ^ nat e))"

text \<open>A float literal: digits before and after the point, and the exponent.\<close>

definition float_of :: "bool \<Rightarrow> pystr \<Rightarrow> pystr \<Rightarrow> int \<Rightarrow> pyfloat" where
  "float_of neg ip fp x =
     (let (m, e) = norm_dec (length ip + length fp) (nat (digits_val 0 (ip @ fp)))
                     (x - int (length fp));
          p = int (length (nat_digits m)) + e
      in if m = 0 \<or> p < - 323 then Dec neg 0 0
         else if too_large m e then Inf neg
         else Dec neg m e)"

definition frac_part :: "pystr \<Rightarrow> (pystr \<times> pystr) option" where
  "frac_part s =
     (case s of
        c # r \<Rightarrow> if c = 46 \<and> takeWhile is_digit r \<noteq> []
                 then Some (takeWhile is_digit r, dropWhile is_digit r) else None
      | [] \<Rightarrow> None)"

definition exp_part :: "pystr \<Rightarrow> (int \<times> pystr) option" where
  "exp_part s =
     (case s of
        c # r \<Rightarrow>
          if c = 101 \<or> c = 69 then
            (let (neg, ds) = (case r of
                 d # r' \<Rightarrow> if d = 45 then (True, r') else if d = 43 then (False, r') else (False, r)
               | [] \<Rightarrow> (False, r))
             in if takeWhile is_digit ds = [] then None
                else Some ((if neg then - 1 else 1) * digits_val 0 (takeWhile is_digit ds),
                           dropWhile is_digit ds))
          else None
      | [] \<Rightarrow> None)"

definition int_part :: "pystr \<Rightarrow> (pystr \<times> pystr) option" where
  "int_part s =
     (case s of
        [] \<Rightarrow> None
      | c # r \<Rightarrow> if c = 48 then Some ([48], r)
                 else if is_digit c then Some (takeWhile is_digit s, dropWhile is_digit s)
                 else None)"

definition parse_number :: "pystr \<Rightarrow> (json \<times> pystr) option" where
  "parse_number s =
     (let (neg, t) = (case s of c # r \<Rightarrow> if c = 45 then (True, r) else (False, s) | [] \<Rightarrow> (False, s))
      in case int_part t of
           None \<Rightarrow> None
         | Some (ip, r) \<Rightarrow>
             (case frac_part r of
                None \<Rightarrow>
                  (case exp_part r of
                     None \<Rightarrow>
                       if 4300 < length ip then None
                       else Some (JInt ((if neg then - 1 else 1) * digits_val 0 ip), r)
                   | Some (x, r') \<Rightarrow> Some (JFloat (float_of neg ip [] x), r'))
              | Some (fp, r') \<Rightarrow>
                  (case exp_part r' of
                     None \<Rightarrow> Some (JFloat (float_of neg ip fp 0), r')
                   | Some (x, r'') \<Rightarrow> Some (JFloat (float_of neg ip fp x), r''))))"

definition parse_word :: "pystr \<Rightarrow> (json \<times> pystr) option" where
  "parse_word s =
     (if startswith s (u ''null'') then Some (JNull, drop 4 s)
      else if startswith s (u ''true'') then Some (JBool True, drop 4 s)
      else if startswith s (u ''false'') then Some (JBool False, drop 5 s)
      else if startswith s (u ''NaN'') then Some (JFloat NaN, drop 3 s)
      else if startswith s (u ''Infinity'') then Some (JFloat (Inf False), drop 8 s)
      else if startswith s (u ''-Infinity'') then Some (JFloat (Inf True), drop 9 s)
      else None)"

fun parse_value :: "nat \<Rightarrow> pystr \<Rightarrow> (json \<times> pystr) option"
  and parse_elems :: "nat \<Rightarrow> pystr \<Rightarrow> (json list \<times> pystr) option"
  and parse_members :: "nat \<Rightarrow> pystr \<Rightarrow> (jobj \<times> pystr) option" where
  "parse_value 0 s = None"
| "parse_value (Suc n) s =
     (case s of
        [] \<Rightarrow> None
      | c # r \<Rightarrow>
          if c = 34 then map_option (\<lambda>(t, r'). (JStr t, r')) (parse_string r)
          else if c = 91 then
            (case skip_ws r of
               d # r' \<Rightarrow> if d = 93 then Some (JArr [], r')
                         else map_option (\<lambda>(xs, r''). (JArr xs, r'')) (parse_elems n (d # r'))
             | [] \<Rightarrow> None)
          else if c = 123 then
            (case skip_ws r of
               d # r' \<Rightarrow> if d = 125 then Some (JObj [], r')
                         else map_option (\<lambda>(kvs, r''). (JObj (dict_of kvs), r''))
                                (parse_members n (d # r'))
             | [] \<Rightarrow> None)
          else (case parse_word s of Some x \<Rightarrow> Some x | None \<Rightarrow> parse_number s))"
| "parse_elems 0 s = None"
| "parse_elems (Suc n) s =
     (case parse_value n s of
        None \<Rightarrow> None
      | Some (v, r) \<Rightarrow>
          (case skip_ws r of
             c # r' \<Rightarrow>
               if c = 93 then Some ([v], r')
               else if c = 44 then
                 map_option (\<lambda>(vs, r''). (v # vs, r'')) (parse_elems n (skip_ws r'))
               else None
           | [] \<Rightarrow> None))"
| "parse_members 0 s = None"
| "parse_members (Suc n) s =
     (case s of
        [] \<Rightarrow> None
      | q # t \<Rightarrow>
          if q \<noteq> 34 then None
          else (case parse_string t of
                  None \<Rightarrow> None
                | Some (k, r) \<Rightarrow>
                    (case skip_ws r of
                       c # r' \<Rightarrow>
                         if c \<noteq> 58 then None
                         else (case parse_value n (skip_ws r') of
                                 None \<Rightarrow> None
                               | Some (v, r2) \<Rightarrow>
                                   (case skip_ws r2 of
                                      d # r3 \<Rightarrow>
                                        if d = 125 then Some ([(k, v)], r3)
                                        else if d = 44 then
                                          map_option (\<lambda>(kvs, r4). ((k, v) # kvs, r4))
                                            (parse_members n (skip_ws r3))
                                        else None
                                    | [] \<Rightarrow> None))
                     | [] \<Rightarrow> None)))"

definition json_loads :: "pystr \<Rightarrow> json option" where
  "json_loads s =
     (case parse_value (Suc (length s)) (skip_ws s) of
        None \<Rightarrow> None
      | Some (v, r) \<Rightarrow> if skip_ws r = [] then Some v else None)"

end
