(* ===== verification/Py_Json_Roundtrip.thy ===== *)
theory Py_Json_Roundtrip
  imports Py_Json_Text
begin

text \<open>
  Reading back what is printed: \<open>json_loads\<close> inverts every layout of \<open>json_print\<close>, so also the compact
  \<open>json_dumps\<close> and the indented \<open>json_pretty\<close>, on the values \<open>json_plain\<close> describes; and these are
  exactly the values \<open>json_loads\<close> itself returns (\<open>json_loads_plain\<close>).
\<close>

section \<open>Tokens\<close>

lemma hex_val_digit: "0 \<le> n \<Longrightarrow> n < 16 \<Longrightarrow> hex_val (hex_digit n) = Some n"
  by (auto simp: hex_val_def hex_digit_def)

lemma hex4_control:
  assumes "0 \<le> c" "c < 32"
  shows "hex4 (48 # 48 # hex_digit (c div 16) # hex_digit (c mod 16) # r) = Some (c, r)"
proof -
  have "0 \<le> c div 16" "c div 16 < 16" "0 \<le> c mod 16" "c mod 16 < 16"
    using assms by simp_all
  then have "hex_val (hex_digit (c div 16)) = Some (c div 16)"
    "hex_val (hex_digit (c mod 16)) = Some (c mod 16)"
    by (simp_all only: hex_val_digit)
  moreover have "hex_val 48 = Some 0" by (simp add: hex_val_def)
  ultimately show ?thesis by simp
qed

lemma string_char_esc: "string_char (esc_json c @ r) = Some (Some c, r)"
proof (cases "0 \<le> c \<and> c < 32 \<and> c \<noteq> 10 \<and> c \<noteq> 13 \<and> c \<noteq> 9 \<and> c \<noteq> 12 \<and> c \<noteq> 8")
  case True
  then show ?thesis
    by (simp add: esc_json_def string_char_def unicode_escape_def hex4_control del: hex4.simps)
next
  case False
  then show ?thesis
    by (auto simp: esc_json_def string_char_def simple_escape_def)
qed

lemma parse_string_esc: "parse_string (concat (map esc_json s) @ 34 # r) = Some (s, r)"
proof (induction s)
  case Nil
  show ?case by (subst parse_string.simps) (simp add: string_char_def)
next
  case (Cons c s)
  then show ?case by (subst parse_string.simps) (simp add: string_char_esc)
qed

lemma digits_val_append: "digits_val a (s @ [c]) = 10 * digits_val a s + (c - 48)"
  by (induction a s rule: digits_val.induct) auto

lemma digits_val_nat_digits: "digits_val 0 (nat_digits n) = int n"
proof (induction n rule: nat_digits.induct)
  case (1 n)
  show ?case
  proof (cases "n < 10")
    case True
    then show ?thesis by (subst nat_digits.simps) simp
  next
    case False
    have "10 * int (n div 10) + (48 + int (n mod 10) - 48) = int n"
      using mult_div_mod_eq [of 10 n] by linarith
    with False "1.IH" show ?thesis
      by (subst nat_digits.simps) (simp add: digits_val_append)
  qed
qed

lemma hd_nat_digits: "n \<noteq> 0 \<Longrightarrow> hd (nat_digits n) \<noteq> 48"
proof (induction n rule: nat_digits.induct)
  case (1 n)
  show ?case
  proof (cases "n < 10")
    case True
    with "1.prems" show ?thesis by (subst nat_digits.simps) simp
  next
    case False
    then have "n div 10 \<noteq> 0" by simp
    with False "1.IH" show ?thesis by (subst nat_digits.simps) simp
  qed
qed

text \<open>What may follow a value inside a document.\<close>

definition delim :: "pystr \<Rightarrow> bool" where
  "delim r \<longleftrightarrow> r = [] \<or> hd r \<in> {44, 93, 125} \<or> json_ws (hd r)"

lemma delim_simps [simp]: "delim []" "delim (44 # r)" "delim (93 # r)" "delim (125 # r)"
  by (auto simp: delim_def)

lemma delim_ws: "list_all json_ws w \<Longrightarrow> delim r \<Longrightarrow> delim (w @ r)"
  by (cases w) (auto simp: delim_def)

lemma delim_tail:
  "delim r \<Longrightarrow> takeWhile is_digit r = []" "delim r \<Longrightarrow> dropWhile is_digit r = r"
  "delim r \<Longrightarrow> frac_part r = None" "delim r \<Longrightarrow> exp_part r = None"
  by (cases r; auto simp: delim_def json_ws_def is_digit_def frac_part_def exp_part_def)+

lemma int_part_nat_digits:
  assumes "delim r"
  shows "int_part (nat_digits n @ r) = Some (nat_digits n, r)"
proof (cases "n = 0")
  case True
  have "nat_digits 0 = [48]" by (subst nat_digits.simps) simp
  with True show ?thesis by (simp add: int_part_def)
next
  case False
  obtain c cs where c: "nat_digits n = c # cs" by (cases "nat_digits n") auto
  have d: "is_digit x" if "x \<in> set (nat_digits n)" for x using that by (rule nat_digits_range)
  have "c \<noteq> 48" using hd_nat_digits [OF False] c by simp
  moreover have "is_digit c" using d c by simp
  moreover have "takeWhile is_digit (nat_digits n @ r) = nat_digits n @ takeWhile is_digit r"
    using d by (rule takeWhile_append2)
  moreover have "dropWhile is_digit (nat_digits n @ r) = dropWhile is_digit r"
    using d by (rule dropWhile_append2)
  ultimately show ?thesis
    using c by (simp add: int_part_def delim_tail [OF assms])
qed

lemma parse_number_int:
  assumes "delim r" and "length (nat_digits (nat \<bar>n\<bar>)) \<le> 4300"
  shows "parse_number (py_str_int n @ r) = Some (JInt n, r)"
proof -
  obtain c cs where c: "nat_digits (nat \<bar>n\<bar>) = c # cs" by (cases "nat_digits (nat \<bar>n\<bar>)") auto
  have "is_digit c" using nat_digits_range [of c "nat \<bar>n\<bar>"] c by simp
  then have c45: "c \<noteq> 45" by (auto simp: is_digit_def)
  have ip: "int_part (c # cs @ r) = Some (c # cs, r)"
    using int_part_nat_digits [OF assms(1), of "nat \<bar>n\<bar>"] c by simp
  have v: "digits_val 0 (c # cs) = \<bar>n\<bar>" using digits_val_nat_digits [of "nat \<bar>n\<bar>"] c by simp
  have "nat \<bar>n\<bar> = (if n < 0 then nat (- n) else nat n)" by simp
  then have "py_str_int n = (if n < 0 then 45 # c # cs else c # cs)"
    using c by (auto simp: py_str_int_def)
  with c45 ip v assms c show ?thesis
    by (simp add: parse_number_def delim_tail del: digits_val.simps)
qed

definition opens :: "int \<Rightarrow> bool" where
  "opens c \<longleftrightarrow> \<not> json_ws c \<and> c \<noteq> 93 \<and> c \<noteq> 125"

lemma py_str_int_first:
  "\<exists>c t. py_str_int n = c # t \<and> (is_digit c \<or> (c = 45 \<and> t \<noteq> [] \<and> is_digit (hd t)))"
proof -
  obtain c cs where c: "nat_digits (nat \<bar>n\<bar>) = c # cs" by (cases "nat_digits (nat \<bar>n\<bar>)") auto
  have "is_digit c" using nat_digits_range [of c "nat \<bar>n\<bar>"] c by simp
  with c show ?thesis by (auto simp: py_str_int_def)
qed

lemma parse_word_int: "parse_word (py_str_int n @ r) = None"
proof -
  obtain c t where n: "py_str_int n = c # t"
    and c: "is_digit c \<or> (c = 45 \<and> t \<noteq> [] \<and> is_digit (hd t))"
    using py_str_int_first [of n] by blast
  have other: "x \<noteq> 110" "x \<noteq> 116" "x \<noteq> 102" "x \<noteq> 78" "x \<noteq> 73" "x \<noteq> 45" if "is_digit x" for x
    using that by (auto simp: is_digit_def)
  from c show ?thesis
  proof
    assume "is_digit c"
    with n show ?thesis by (simp add: parse_word_def u_Cons other)
  next
    assume "c = 45 \<and> t \<noteq> [] \<and> is_digit (hd t)"
    then obtain d t' where "c = 45" "t = d # t'" "is_digit d" by (cases t) auto
    with n show ?thesis by (simp add: parse_word_def u_Cons other)
  qed
qed

section \<open>Floats\<close>

text \<open>The floats that literals denote: no trailing zero in the mantissa, in range.\<close>

fun float_plain :: "pyfloat \<Rightarrow> bool" where
  "float_plain (Dec neg m e) =
     (if m = 0 then e = 0
      else m mod 10 \<noteq> 0 \<and> - 323 \<le> int (length (nat_digits m)) + e \<and> \<not> too_large m e)"
| "float_plain _ = True"

lemma norm_dec_pow: "0 < m \<Longrightarrow> m mod 10 \<noteq> 0 \<Longrightarrow> b \<le> n \<Longrightarrow> norm_dec n (m * 10 ^ b) e = (m, e + int b)"
proof (induction b arbitrary: n e)
  case 0
  then show ?case by (cases n) auto
next
  case (Suc b)
  then obtain n' where n: "n = Suc n'" by (cases n) auto
  have "(m * 10 ^ Suc b) div 10 = m * 10 ^ b" "(m * 10 ^ Suc b) mod 10 = 0" by simp_all
  with Suc n show ?case by simp
qed

lemma norm_dec_normal:
  assumes "m < 10 ^ n" "norm_dec n m e = (m', e')" "m' \<noteq> 0"
  shows "m' mod 10 \<noteq> 0"
  using assms by (induction n m e rule: norm_dec.induct) (auto split: if_splits)

lemma digits_val_split: "digits_val a (s @ t) = digits_val (digits_val a s) t"
  by (induction a s rule: digits_val.induct) auto

lemma digits_val_zeros [simp]: "digits_val a (zeros k) = a * 10 ^ k"
  by (induction k arbitrary: a) (auto simp: algebra_simps)

lemma is_digit_zeros: "c \<in> set (zeros k) \<Longrightarrow> is_digit c"
  by (induction k) (auto simp: is_digit_def)

lemma length_zeros [simp]: "length (zeros k) = k"
  by (induction k) auto

lemma digits_val_bound:
  "list_all is_digit s \<Longrightarrow> 0 \<le> a \<Longrightarrow> 0 \<le> digits_val a s \<and> digits_val a s < (a + 1) * 10 ^ length s"
proof (induction a s rule: digits_val.induct)
  case (2 acc c cs)
  then have "0 \<le> c - 48" "c - 48 < 10" by (auto simp: is_digit_def)
  with 2 have IH: "0 \<le> digits_val (10 * acc + (c - 48)) cs"
    "digits_val (10 * acc + (c - 48)) cs < (10 * acc + (c - 48) + 1) * 10 ^ length cs" by auto
  have "(10 * acc + (c - 48) + 1) * 10 ^ length cs \<le> ((acc + 1) * 10) * 10 ^ length cs"
    using \<open>c - 48 < 10\<close> by (intro mult_right_mono) auto
  with IH(2) have "digits_val (10 * acc + (c - 48)) cs < ((acc + 1) * 10) * 10 ^ length cs" by linarith
  moreover have "((acc + 1) * 10) * 10 ^ length cs = (acc + 1) * 10 ^ length (c # cs)" by simp
  ultimately show ?case using IH(1) by (simp only: digits_val.simps)
qed simp

lemma float_of_exact:
  assumes "float_plain (Dec neg m e)" "digits_val 0 (ip @ fp) = int (m * 10 ^ b)"
    and "b \<le> length ip + length fp" "x = e + int (length fp) - int b"
  shows "float_of neg ip fp x = Dec neg m e"
proof (cases "m = 0")
  case True
  obtain e' where "norm_dec (length ip + length fp) 0 (x - int (length fp)) = (0, e')"
    by (cases "length ip + length fp") auto
  with True assms(1,2) show ?thesis by (simp add: float_of_def)
next
  case False
  then have "norm_dec (length ip + length fp) (m * 10 ^ b) (x - int (length fp)) = (m, e)"
    using norm_dec_pow [of m b "length ip + length fp" "x - int (length fp)"] assms by simp
  moreover have "nat (digits_val 0 (ip @ fp)) = m * 10 ^ b" by (simp only: assms(2) nat_int)
  ultimately show ?thesis using assms(1) False by (simp add: float_of_def Let_def)
qed

text \<open>The integer part of a literal.\<close>

definition whole :: "pystr \<Rightarrow> bool" where
  "whole ip \<longleftrightarrow> ip \<noteq> [] \<and> list_all is_digit ip \<and> (ip = [48] \<or> hd ip \<noteq> 48)"

lemma takeWhile_digits:
  assumes "list_all is_digit ds" "takeWhile is_digit r = []"
  shows "takeWhile is_digit (ds @ r) = ds" "dropWhile is_digit (ds @ r) = r"
proof -
  have "dropWhile is_digit r = r" using assms(2) by (cases r) (auto split: if_splits)
  with assms show "takeWhile is_digit (ds @ r) = ds" "dropWhile is_digit (ds @ r) = r"
    by (induction ds) auto
qed

lemma int_part_whole:
  assumes "whole ip" "takeWhile is_digit r = []"
  shows "int_part (ip @ r) = Some (ip, r)"
proof -
  obtain c cs where ip: "ip = c # cs" using assms(1) by (cases ip) (auto simp: whole_def)
  with assms(1) have "ip = [48] \<or> c \<noteq> 48" "is_digit c" "list_all is_digit ip" by (auto simp: whole_def)
  with ip takeWhile_digits [of ip r] assms(2) show ?thesis by (auto simp: int_part_def)
qed

lemma sign_split:
  assumes "whole ip"
  shows "(case sign_str neg @ ip @ r of c # t \<Rightarrow> if c = 45 then (True, t) else (False, sign_str neg @ ip @ r)
           | [] \<Rightarrow> (False, sign_str neg @ ip @ r)) = (neg, ip @ r)"
proof -
  obtain c cs where "ip = c # cs" using assms by (cases ip) (auto simp: whole_def)
  with assms show ?thesis by (auto simp: sign_str_def whole_def is_digit_def)
qed

lemma parse_number_point:
  assumes "whole ip" "list_all is_digit fp" "fp \<noteq> []" "delim r"
  shows "parse_number (sign_str neg @ ip @ 46 # fp @ r) = Some (JFloat (float_of neg ip fp 0), r)"
proof -
  have "int_part (ip @ 46 # fp @ r) = Some (ip, 46 # fp @ r)"
    using assms(1) by (rule int_part_whole) (simp add: is_digit_def)
  moreover have "frac_part (46 # fp @ r) = Some (fp, r)"
    using takeWhile_digits [OF assms(2)] assms(3) delim_tail [OF assms(4)] by (simp add: frac_part_def)
  ultimately show ?thesis
    using sign_split [OF assms(1), of neg "46 # fp @ r"] delim_tail [OF assms(4)] by (simp add: parse_number_def)
qed

lemma parse_number_exponent:
  assumes "whole ip" "list_all is_digit fp" "list_all is_digit xs" "xs \<noteq> []" "delim r" "sgn_c \<in> {43, 45}"
  shows "parse_number (sign_str neg @ ip @ (if fp = [] then [] else 46 # fp) @ 101 # sgn_c # xs @ r) =
    Some (JFloat (float_of neg ip fp ((if sgn_c = 45 then - 1 else 1) * digits_val 0 xs)), r)"
proof -
  let ?e = "101 # sgn_c # xs @ r"
  have e: "exp_part ?e = Some ((if sgn_c = 45 then - 1 else 1) * digits_val 0 xs, r)"
    using takeWhile_digits [OF assms(3)] assms(4,6) delim_tail [OF assms(5)] by (auto simp: exp_part_def)
  have nd: "takeWhile is_digit ?e = []" by (simp add: is_digit_def)
  have f: "frac_part ((if fp = [] then [] else 46 # fp) @ ?e) = (if fp = [] then None else Some (fp, ?e))"
    using takeWhile_digits [OF assms(2) nd] by (simp add: frac_part_def)
  have "int_part (ip @ (if fp = [] then [] else 46 # fp) @ ?e) = Some (ip, (if fp = [] then [] else 46 # fp) @ ?e)"
    using assms(1) by (rule int_part_whole) (simp add: is_digit_def)
  with e f sign_split [OF assms(1), of neg "(if fp = [] then [] else 46 # fp) @ ?e"] show ?thesis
    by (simp add: parse_number_def)
qed

text \<open>\<open>repr\<close> of a float is a literal of that float.\<close>

lemma whole_nat_digits: "whole (nat_digits m)"
proof (cases "m = 0")
  case True
  have "nat_digits 0 = [48]" by (subst nat_digits.simps) simp
  with True show ?thesis by (simp add: whole_def is_digit_def)
next
  case False
  then show ?thesis
    using hd_nat_digits [OF False] nat_digits_range by (auto simp: whole_def list_all_iff)
qed

text \<open>\<open>repr\<close> writes small and medium magnitudes with a point, the others with an exponent.\<close>

lemma digits_plain: "list_all is_digit (nat_digits m)" "list_all is_digit (zeros k)" "whole [48]" "list_all is_digit [48]"
  using nat_digits_range is_digit_zeros by (auto simp: list_all_iff whole_def is_digit_def)

lemma float_text_point:
  fixes m :: nat
  defines "n \<equiv> int (length (nat_digits m))"
  assumes plain: "float_plain (Dec neg m e)" and range: "m = 0 \<or> - 4 < n + e \<and> n + e \<le> 16"
  obtains ip fp where "float_digits_str m e = ip @ 46 # fp" "whole ip" "list_all is_digit fp" "fp \<noteq> []"
      "float_of neg ip fp 0 = Dec neg m e"
proof -
  let ?ds = "nat_digits m" and ?p = "n + e"
  note val = digits_val_nat_digits [of m] and float_digits_str_def [simp] Let_def [simp] n_def [simp]
  consider (zero) "m = 0" | (small) "m \<noteq> 0" "- 4 < ?p" "?p \<le> 0" | (big) "m \<noteq> 0" "0 < ?p" "?p \<le> 16" "n \<le> ?p"
    | (mid) "m \<noteq> 0" "0 < ?p" "?p \<le> 16" "?p < n"
    using range by linarith
  then show thesis
  proof cases
    case zero
    have "float_of neg [48] [48] 0 = Dec neg m e"
      by (rule float_of_exact [OF plain, of _ _ 1]) (use zero plain in simp_all)
    then show thesis using that [of "[48]" "[48]"] zero digits_plain by simp
  next
    case small
    have "float_of neg [48] (zeros (nat (- ?p)) @ ?ds) 0 = Dec neg m e"
      by (rule float_of_exact [OF plain, of _ _ 0]) (use small val in \<open>simp_all add: digits_val_split\<close>)
    then show thesis using that [of "[48]" "zeros (nat (- ?p)) @ ?ds"] small digits_plain by simp
  next
    case big
    let ?ip = "?ds @ zeros (nat (?p - n))"
    have "float_of neg ?ip [48] 0 = Dec neg m e"
    proof (rule float_of_exact [OF plain, of _ _ "Suc (nat (?p - n))"])
      show "digits_val 0 (?ip @ [48]) = int (m * 10 ^ Suc (nat (?p - n)))"
        using val by (simp add: digits_val_split)
    qed (use big in simp_all)
    moreover have "whole ?ip"
      using whole_nat_digits [of m] hd_nat_digits [OF big(1)] digits_plain by (auto simp: whole_def)
    ultimately show thesis using that [of ?ip "[48]"] big digits_plain by simp
  next
    case mid
    let ?ip = "take (nat ?p) ?ds" and ?fp = "drop (nat ?p) ?ds"
    have "float_of neg ?ip ?fp 0 = Dec neg m e"
      by (rule float_of_exact [OF plain, of _ _ 0]) (use mid val in simp_all)
    moreover have "whole ?ip" "list_all is_digit ?fp" "?fp \<noteq> []"
      using mid digits_plain(1) [of m] hd_nat_digits [OF mid(1)]
      by (auto simp: whole_def list_all_iff dest: in_set_takeD in_set_dropD)
    ultimately show thesis using that [of ?ip ?fp] mid by simp
  qed
qed

lemma float_text_exponent:
  fixes m :: nat
  defines "n \<equiv> int (length (nat_digits m))"
  assumes plain: "float_plain (Dec neg m e)" and m: "m \<noteq> 0" and out: "\<not> (- 4 < n + e \<and> n + e \<le> 16)"
  obtains ip fp sgn_c xs where "float_digits_str m e = ip @ (if fp = [] then [] else 46 # fp) @ 101 # sgn_c # xs"
      "whole ip" "list_all is_digit fp" "list_all is_digit xs" "xs \<noteq> []" "sgn_c \<in> {43, 45}"
      "float_of neg ip fp ((if sgn_c = 45 then - 1 else 1) * digits_val 0 xs) = Dec neg m e"
proof -
  let ?ds = "nat_digits m" and ?x = "n + e - 1"
  let ?ip = "[hd ?ds]" and ?fp = "tl ?ds"
  let ?xs = "(let xs = nat_digits (nat \<bar>?x\<bar>) in if length xs < 2 then 48 # xs else xs)"
  let ?c = "(if ?x < 0 then 45 else 43) :: int"
  have xs: "list_all is_digit ?xs" "?xs \<noteq> []" "digits_val 0 ?xs = \<bar>?x\<bar>"
    using nat_digits_range [of _ "nat \<bar>?x\<bar>"] digits_val_nat_digits [of "nat \<bar>?x\<bar>"] digits_plain(4)
    by (auto simp: Let_def list_all_iff)
  have one: "tl ?ds = [] \<Longrightarrow> ?ds = [hd ?ds]" by (cases ?ds) auto
  have x: "(if ?c = 45 then - 1 else 1) * digits_val 0 ?xs = ?x" using xs(3) by auto
  have len: "int (length ?fp) = n - 1" unfolding n_def by (cases ?ds) auto
  have fl: "float_of neg ?ip ?fp ?x = Dec neg m e"
    by (rule float_of_exact [OF plain, of _ _ 0]) (use digits_val_nat_digits [of m] len in simp_all)
  have wh: "whole ?ip" "list_all is_digit ?fp"
    using digits_plain(1) [of m] hd_nat_digits [OF m] by (cases ?ds; simp add: whole_def)+
  have tx: "float_digits_str m e = ?ip @ (if ?fp = [] then [] else 46 # ?fp) @ 101 # ?c # ?xs"
    using m out one by (auto simp: float_digits_str_def Let_def n_def)
  have c: "?c \<in> {43, 45}" by simp
  show thesis
    by (rule that [OF tx wh xs(1,2) c]) (simp only: x fl)
qed

lemma float_text_cases [consumes 1, case_names point exponent]:
  assumes plain: "float_plain (Dec neg m e)"
  obtains ip fp where "float_digits_str m e = ip @ 46 # fp" "whole ip" "list_all is_digit fp" "fp \<noteq> []"
      "float_of neg ip fp 0 = Dec neg m e"
    | ip fp sgn_c xs where "float_digits_str m e = ip @ (if fp = [] then [] else 46 # fp) @ 101 # sgn_c # xs"
      "whole ip" "list_all is_digit fp" "list_all is_digit xs" "xs \<noteq> []" "sgn_c \<in> {43, 45}"
      "float_of neg ip fp ((if sgn_c = 45 then - 1 else 1) * digits_val 0 xs) = Dec neg m e"
proof (cases "m = 0 \<or> - 4 < int (length (nat_digits m)) + e \<and> int (length (nat_digits m)) + e \<le> 16")
  case True
  with plain show thesis by (rule float_text_point) (rule that(1))
next
  case False
  then have "m \<noteq> 0" "\<not> (- 4 < int (length (nat_digits m)) + e \<and> int (length (nat_digits m)) + e \<le> 16)" by simp_all
  with plain show thesis by (rule float_text_exponent) (rule that(2))
qed

lemma parse_number_float:
  assumes "float_plain (Dec neg m e)" "delim r"
  shows "parse_number (float_str (Dec neg m e) @ r) = Some (JFloat (Dec neg m e), r)"
  using assms(1)
proof (cases rule: float_text_cases)
  case (point ip fp)
  then show ?thesis using parse_number_point [of ip fp r neg] assms(2) by simp
next
  case (exponent ip fp sgn_c xs)
  then show ?thesis using parse_number_exponent [of ip fp xs r sgn_c neg] assms(2) by simp
qed

lemma parse_word_digit:
  assumes "is_digit c"
  shows "parse_word (sign_str neg @ c # r) = None"
proof -
  have "c \<noteq> 110" "c \<noteq> 116" "c \<noteq> 102" "c \<noteq> 78" "c \<noteq> 73" "c \<noteq> 45" using assms by (auto simp: is_digit_def)
  then show ?thesis by (simp add: parse_word_def u_Cons sign_str_def)
qed

lemma float_text_first:
  assumes "float_plain (Dec neg m e)"
  obtains c t where "float_digits_str m e = c # t" "is_digit c"
  using assms by (cases rule: float_text_cases) (auto simp: whole_def neq_Nil_conv)

lemma parse_value_float:
  assumes "float_plain f" "delim r"
  shows "parse_value (Suc n) (json_float f @ r) = Some (JFloat f, r)"
proof (cases f)
  case (Dec neg m e)
  with assms obtain c t where c: "float_digits_str m e = c # t" "is_digit c" using float_text_first by blast
  then have "c \<noteq> 34" "c \<noteq> 91" "c \<noteq> 123" by (auto simp: is_digit_def)
  with c Dec parse_word_digit [OF c(2), of neg "t @ r"] parse_number_float [of neg m e r] assms show ?thesis
    by (cases neg) (simp_all add: sign_str_def)
next
  case (Inf neg)
  then show ?thesis by (cases neg) (simp_all add: sign_str_def parse_word_def u_Cons)
next
  case NaN
  then show ?thesis by (simp add: parse_word_def u_Cons)
qed

section \<open>Documents\<close>

fun json_plain :: "json \<Rightarrow> bool" where
  "json_plain (JInt n) = (length (nat_digits (nat \<bar>n\<bar>)) \<le> 4300)"
| "json_plain (JFloat f) = float_plain f"
| "json_plain (JArr xs) = (\<forall>x\<in>set xs. json_plain x)"
| "json_plain (JObj kvs) = (distinct (map fst kvs) \<and> (\<forall>(k, v)\<in>set kvs. json_plain v))"
| "json_plain _ = True"

lemma commas_Cons: "commas (s # ss) = s @ (if ss = [] then [] else 44 # commas ss)"
  by (cases ss) auto

lemma skip_ws_ws: "list_all json_ws w \<Longrightarrow> skip_ws (w @ r) = skip_ws r"
  by (induction w) (auto simp: skip_ws_def)

lemma skip_ws_opens: "opens c \<Longrightarrow> skip_ws (c # r) = c # r"
  by (simp add: skip_ws_def opens_def)

lemma skip_ws_marks [simp]:
  "skip_ws [] = []" "skip_ws (93 # r) = 93 # r" "skip_ws (125 # r) = 125 # r"
  "skip_ws (44 # r) = 44 # r" "skip_ws (58 # r) = 58 # r" "skip_ws (34 # r) = 34 # r"
  by (simp_all add: skip_ws_def json_ws_def)

definition value_text :: "pystr \<Rightarrow> bool" where
  "value_text s \<longleftrightarrow> s \<noteq> [] \<and> opens (hd s)"

lemma skip_ws_value_text: "value_text s \<Longrightarrow> skip_ws (s @ r) = s @ r"
  by (cases s) (auto simp: value_text_def skip_ws_opens)

lemma value_text_print: "json_plain v \<Longrightarrow> value_text (json_print w k n v)"
proof (cases v)
  case (JInt i)
  then show ?thesis
    using py_str_int_first [of i] by (auto simp: value_text_def opens_def json_ws_def is_digit_def)
next
  case (JFloat f)
  assume "json_plain v"
  show ?thesis
  proof (cases f)
    case (Dec neg m e)
    with JFloat \<open>json_plain v\<close> obtain c t where "float_digits_str m e = c # t" "is_digit c"
      using float_text_first [of neg m e] by auto
    with JFloat Dec show ?thesis by (auto simp: value_text_def opens_def json_ws_def is_digit_def sign_str_def)
  qed (use JFloat in \<open>auto simp: value_text_def opens_def json_ws_def sign_str_def u_def\<close>)
qed (auto simp: value_text_def opens_def json_ws_def json_string_def u_def)

text \<open>The items of an array and of an object, in any layout.\<close>

lemma parse_elems_layout:
  assumes "\<And>x n r. x \<in> set xs \<Longrightarrow> length (f x) \<le> n \<Longrightarrow> delim r \<Longrightarrow> parse_value n (f x @ r) = Some (x, r)"
    and "\<And>x. x \<in> set xs \<Longrightarrow> value_text (f x)" and "xs \<noteq> []"
    and "length (commas (map (\<lambda>x. i @ f x) xs)) < n" and ws: "list_all json_ws i" "list_all json_ws j"
  shows "parse_elems n (skip_ws (commas (map (\<lambda>x. i @ f x) xs) @ j @ 93 # r)) = Some (xs, r)"
  using assms(1-4)
proof (induction xs arbitrary: n)
  case (Cons x xs)
  let ?rest = "(if xs = [] then [] else 44 # commas (map (\<lambda>x. i @ f x) xs)) @ j @ 93 # r"
  from Cons.prems(4) obtain m where n: "n = Suc m" by (cases n) auto
  have delim: "delim ?rest" using delim_ws [OF ws(2)] by simp
  have len: "length (f x) \<le> m" using Cons.prems(4) n by (simp add: commas_Cons)
  have shape: "skip_ws (commas (map (\<lambda>x. i @ f x) (x # xs)) @ j @ 93 # r) = f x @ ?rest"
    using skip_ws_value_text [OF Cons.prems(2)] by (simp add: commas_Cons skip_ws_ws [OF ws(1)])
  have v: "parse_value m (f x @ ?rest) = Some (x, ?rest)" by (rule Cons.prems(1)) (use delim len in simp_all)
  show ?case
  proof (cases "xs = []")
    case True
    with v shape n show ?thesis by (simp add: skip_ws_ws [OF ws(2)])
  next
    case False
    have pos: "0 < length (f x)" using Cons.prems(2) [of x] by (simp add: value_text_def)
    have "parse_elems m (skip_ws (commas (map (\<lambda>x. i @ f x) xs) @ j @ 93 # r)) = Some (xs, r)"
      using Cons.prems n False pos by (intro Cons.IH) (auto simp: commas_Cons)
    with v shape n False show ?thesis by simp
  qed
qed simp

lemma parse_members_layout:
  assumes "\<And>q v n r. (q, v) \<in> set kvs \<Longrightarrow> length (f v) \<le> n \<Longrightarrow> delim r \<Longrightarrow> parse_value n (f v @ r) = Some (v, r)"
    and "\<forall>(q, v)\<in>set kvs. value_text (f v)" and "kvs \<noteq> []"
    and "length (commas (map (\<lambda>(q, v). i @ json_string q @ 58 # k @ f v) kvs)) < n"
    and ws: "list_all json_ws i" "list_all json_ws j" "list_all json_ws k"
  shows "parse_members n (skip_ws (commas (map (\<lambda>(q, v). i @ json_string q @ 58 # k @ f v) kvs) @ j @ 125 # r))
    = Some (kvs, r)"
  using assms(1-4)
proof (induction kvs arbitrary: n)
  case (Cons x kvs)
  obtain q v where x: "x = (q, v)" by (cases x)
  let ?more = "commas (map (\<lambda>(q, v). i @ json_string q @ 58 # k @ f v) kvs)"
  let ?rest = "(if kvs = [] then [] else 44 # ?more) @ j @ 125 # r"
  from Cons.prems(4) obtain m where n: "n = Suc m" by (cases n) auto
  have delim: "delim ?rest" using delim_ws [OF ws(2)] by simp
  have len: "length (f v) \<le> m" using Cons.prems(4) n x by (simp add: commas_Cons)
  have shape: "skip_ws (commas (map (\<lambda>(q, v). i @ json_string q @ 58 # k @ f v) (x # kvs)) @ j @ 125 # r) =
      34 # concat (map esc_json q) @ 34 # 58 # k @ f v @ ?rest"
    by (simp add: commas_Cons skip_ws_ws [OF ws(1)] x json_string_def)
  have key: "parse_string (concat (map esc_json q) @ 34 # 58 # k @ f v @ ?rest) = Some (q, 58 # k @ f v @ ?rest)"
    by (rule parse_string_esc)
  have skip: "skip_ws (k @ f v @ ?rest) = f v @ ?rest"
    using Cons.prems(2) x by (simp add: skip_ws_ws [OF ws(3)] skip_ws_value_text)
  have v: "parse_value m (f v @ ?rest) = Some (v, ?rest)"
    by (rule Cons.prems(1) [of q]) (use delim len x in simp_all)
  show ?case
  proof (cases "kvs = []")
    case True
    with v shape key skip n x show ?thesis by (simp add: skip_ws_ws [OF ws(2)])
  next
    case False
    have "parse_members m (skip_ws (?more @ j @ 125 # r)) = Some (kvs, r)"
      using Cons.prems n False x by (intro Cons.IH) (auto simp: commas_Cons)
    with v shape key skip n x False show ?thesis by simp
  qed
qed simp

text \<open>Any value in any layout, then the two layouts the sources use.\<close>

lemma parse_value_print:
  assumes ws: "\<And>n. list_all json_ws (w n)" "list_all json_ws k"
  shows "json_plain v \<Longrightarrow> length (json_print w k d v) \<le> n \<Longrightarrow> delim r \<Longrightarrow>
     parse_value n (json_print w k d v @ r) = Some (v, r)"
proof (induction v arbitrary: n d r)
  case (JInt i)
  obtain c t where ct: "py_str_int i = c # t" "is_digit c \<or> c = 45"
    using py_str_int_first [of i] by blast
  from JInt ct obtain m where "n = Suc m" by (cases n) auto
  moreover have "c \<noteq> 34" "c \<noteq> 91" "c \<noteq> 123" using ct by (auto simp: is_digit_def)
  ultimately show ?case
    using JInt parse_number_int [of r i] parse_word_int [of i r] ct by simp
next
  case (JFloat f)
  have "json_float f \<noteq> []"
    using value_text_print [OF JFloat.prems(1), of w k d] by (simp add: value_text_def)
  with JFloat obtain m where "n = Suc m" by (cases n) auto
  with JFloat show ?case by (simp only: json_print.simps json_plain.simps parse_value_float)
next
  case (JStr s)
  then obtain m where "n = Suc m" by (cases n) (auto simp: json_string_def)
  then show ?case by (simp add: json_string_def parse_string_esc)
next
  case (JArr xs)
  then obtain m where n: "n = Suc m" by (cases n) (auto split: if_splits)
  show ?case
  proof (cases "xs = []")
    case True
    then show ?thesis by (simp add: n)
  next
    case False
    let ?body = "commas (map (\<lambda>x. w (Suc d) @ json_print w k (Suc d) x) xs) @ w d @ 93 # r"
    have el: "parse_elems m (skip_ws ?body) = Some (xs, r)"
      using JArr n False ws by (intro parse_elems_layout) (auto intro: value_text_print)
    moreover obtain c t where ct: "skip_ws ?body = c # t" "opens c"
    proof -
      obtain x xs' where x: "xs = x # xs'" using False by (cases xs) auto
      then have "value_text (json_print w k (Suc d) x)" using JArr.prems by (auto intro: value_text_print)
      then show thesis
        using that x by (auto simp: commas_Cons skip_ws_ws [OF ws(1)] skip_ws_value_text value_text_def neq_Nil_conv)
    qed
    ultimately show ?thesis using False n by (auto simp: opens_def)
  qed
next
  case (JObj kvs)
  then obtain m where n: "n = Suc m" by (cases n) (auto split: if_splits)
  show ?case
  proof (cases "kvs = []")
    case True
    then show ?thesis by (simp add: n dict_of_def)
  next
    case False
    let ?body = "commas (map (\<lambda>(q, v). w (Suc d) @ json_string q @ 58 # k @ json_print w k (Suc d) v) kvs) @ w d @ 125 # r"
    have IH: "parse_value n' (json_print w k (Suc d) v @ r') = Some (v, r')"
      if "(q, v) \<in> set kvs" "length (json_print w k (Suc d) v) \<le> n'" "delim r'" for q v n' r'
      using JObj.IH [OF that(1)] JObj.prems(1) that by auto
    have "parse_members m (skip_ws ?body) = Some (kvs, r)"
      using JObj.prems n False ws by (intro parse_members_layout IH) (auto intro: value_text_print)
    moreover obtain t where "skip_ws ?body = 34 # t"
      using False by (cases kvs) (auto simp: commas_Cons skip_ws_ws [OF ws(1)] json_string_def)
    moreover have "dict_of kvs = kvs" using JObj.prems by (simp add: dict_of_distinct)
    ultimately show ?thesis using False n by simp
  qed
next
  case JNull
  then obtain m where "n = Suc m" by (cases n) auto
  then show ?case by (simp add: parse_word_def u_def)
next
  case (JBool b)
  then obtain m where "n = Suc m" by (cases n; cases b) auto
  then show ?case by (cases b) (simp_all add: parse_word_def u_def)
qed

lemma json_loads_print:
  assumes "\<And>n. list_all json_ws (w n)" "list_all json_ws k" "json_plain v"
  shows "json_loads (json_print w k d v) = Some v"
  using parse_value_print [where w = w and k = k and d = d and r = "[]" and n = "Suc (length (json_print w k d v))",
      OF assms] skip_ws_value_text [OF value_text_print [OF assms(3)], of w k d "[]"]
  by (simp add: json_loads_def)

lemma json_dumps_print: "json_dumps v = json_print (\<lambda>_. []) [] d v"
proof (induction v arbitrary: d)
  case (JArr xs)
  then have *: "map json_dumps xs = map (json_print (\<lambda>_. []) [] (Suc d)) xs" by simp
  show ?case by (simp add: * del: map_eq_conv)
next
  case (JObj kvs)
  then have *: "map (\<lambda>(k, v). json_string k @ 58 # json_dumps v) kvs =
      map (\<lambda>(k, v). json_string k @ 58 # json_print (\<lambda>_. []) [] (Suc d) v) kvs" by auto
  show ?case by (simp add: * del: map_eq_conv)
qed simp_all

lemma json_loads_dumps: "json_plain v \<Longrightarrow> json_loads (json_dumps v) = Some v"
  using json_loads_print [of "\<lambda>_. []" "[]" v 0] by (simp add: json_dumps_print [of _ 0])

lemma json_loads_pretty: "json_plain v \<Longrightarrow> json_loads (json_pretty v) = Some v"
  unfolding json_pretty_def by (rule json_loads_print) (auto simp: json_ws_def list_all_iff)

lemma json_dumps_nonempty: "json_plain v \<Longrightarrow> 0 < length (json_dumps v)"
  using value_text_print [of v "\<lambda>_. []" "[]" 0] by (simp add: json_dumps_print [of _ 0] value_text_def)

section \<open>What the parser returns can be printed and read back\<close>

lemma float_of_plain:
  assumes "list_all is_digit (ip @ fp)"
  shows "float_plain (float_of neg ip fp x)"
proof -
  obtain m e where nd: "norm_dec (length ip + length fp) (nat (digits_val 0 (ip @ fp))) (x - int (length fp)) = (m, e)"
    by force
  have "0 \<le> digits_val 0 (ip @ fp)" "digits_val 0 (ip @ fp) < 10 ^ (length ip + length fp)"
    using digits_val_bound [OF assms, of 0] by simp_all
  then have "nat (digits_val 0 (ip @ fp)) < 10 ^ (length ip + length fp)" by (simp add: nat_less_iff)
  then have "m \<noteq> 0 \<Longrightarrow> m mod 10 \<noteq> 0" using norm_dec_normal nd by blast
  then show ?thesis using nd by (simp add: float_of_def Let_def)
qed

lemma list_all_takeWhile: "list_all P (takeWhile P s)"
  by (induction s) auto

lemma int_part_digits: "int_part s = Some (ip, r) \<Longrightarrow> list_all is_digit ip \<and> ip \<noteq> []"
  by (auto simp: int_part_def is_digit_def list_all_takeWhile split: list.splits if_splits)

lemma frac_part_digits: "frac_part s = Some (fp, r) \<Longrightarrow> list_all is_digit fp"
  by (auto simp: frac_part_def list_all_takeWhile split: list.splits if_splits)

lemma int_digits_plain:
  assumes "list_all is_digit ip" "ip \<noteq> []" "length ip \<le> 4300"
  shows "length (nat_digits (nat (digits_val 0 ip))) \<le> 4300"
proof -
  have b: "0 \<le> digits_val 0 ip" "digits_val 0 ip < 10 ^ length ip" using digits_val_bound [OF assms(1), of 0] by simp_all
  then have "nat (digits_val 0 ip) < 10 ^ length ip" by (simp add: nat_less_iff)
  then have "length (nat_digits (nat (digits_val 0 ip))) \<le> length ip" using assms(2) by (intro length_nat_digits) auto
  with assms(3) show ?thesis by simp
qed

lemma parse_number_plain:
  assumes "parse_number s = Some (v, r)"
  shows "json_plain v"
proof -
  obtain neg t where t: "(case s of c # r \<Rightarrow> if c = 45 then (True, r) else (False, s) | [] \<Rightarrow> (False, s)) = (neg, t)"
    by force
  with assms obtain ip r1 where ip: "int_part t = Some (ip, r1)"
    by (auto simp: parse_number_def split: option.splits)
  note d = int_part_digits [OF ip]
  have fl: "json_plain (JFloat (float_of neg ip fp x))" if "list_all is_digit fp" for fp x
    using d that by (simp add: float_of_plain)
  show ?thesis
  proof (cases "frac_part r1")
    case None
    then show ?thesis
      using assms t ip d fl [of "[]"] digits_val_bound [of ip 0] int_digits_plain [of ip]
      by (auto simp: parse_number_def split: option.splits if_splits)
  next
    case (Some y)
    then show ?thesis
      using assms t ip fl frac_part_digits [of r1] by (auto simp: parse_number_def split: option.splits prod.splits)
  qed
qed

lemma parse_word_plain: "parse_word s = Some (v, r) \<Longrightarrow> json_plain v"
  by (auto simp: parse_word_def split: if_splits)

lemma dict_put_all: "list_all (\<lambda>x. P (snd x)) d \<Longrightarrow> P v \<Longrightarrow> list_all (\<lambda>x. P (snd x)) (dict_put k v d)"
  by (induction k v d rule: dict_put.induct) auto

lemma dict_of_all:
  assumes "list_all (\<lambda>x. P (snd x)) kvs"
  shows "list_all (\<lambda>x. P (snd x)) (dict_of kvs)"
proof -
  have "list_all (\<lambda>x. P (snd x)) (fold (\<lambda>(k, v) d. dict_put k v d) kvs d)" if "list_all (\<lambda>x. P (snd x)) d" for d
    using assms that by (induction kvs arbitrary: d) (simp_all add: dict_put_all case_prod_beta)
  from this [of "[]"] show ?thesis by (simp add: dict_of_def)
qed

lemma json_plain_JObj:
  "json_plain (JObj kvs) \<longleftrightarrow> distinct (map fst kvs) \<and> list_all (\<lambda>x. json_plain (snd x)) kvs"
  by (simp add: list_all_iff case_prod_beta)

lemma dict_of_plain: "list_all (\<lambda>x. json_plain (snd x)) kvs \<Longrightarrow> json_plain (JObj (dict_of kvs))"
  unfolding json_plain_JObj by (simp add: distinct_dict_of dict_of_all)

lemma parse_plain:
  "parse_value n s = Some (v, r) \<Longrightarrow> json_plain v"
  "parse_elems n s = Some (xs, r) \<Longrightarrow> \<forall>x\<in>set xs. json_plain x"
  "parse_members n s = Some (kvs, r) \<Longrightarrow> list_all (\<lambda>x. json_plain (snd x)) kvs"
proof (induction n s and n s and n s arbitrary: v r and xs r and kvs r rule: parse_value_parse_elems_parse_members.induct)
  case (2 n s)
  then obtain c t where s: "s = c # t" by (cases s) auto
  consider "c = 34" | "c = 91" | "c = 123" | "c \<noteq> 34" "c \<noteq> 91" "c \<noteq> 123" by blast
  then show ?case
  proof cases
    case 2
    with s "2.prems" "2.IH"(1) show ?thesis by (auto split: list.splits if_splits)
  next
    case 3
    with s "2.prems" consider "v = JObj []" | d t' kvs where "skip_ws t = d # t'" "d \<noteq> 125"
        "parse_members n (d # t') = Some (kvs, r)" "v = JObj (dict_of kvs)"
      by (auto split: list.splits if_splits)
    then show ?thesis
    proof cases
      case 2
      then have "list_all (\<lambda>x. json_plain (snd x)) kvs" using 3 s by (intro "2.IH"(2) [of c t d t']) simp_all
      with 2 show ?thesis by (simp only: dict_of_plain)
    qed simp
  next
    case 4
    with s "2.prems" show ?thesis
      by (auto split: option.splits dest: parse_word_plain parse_number_plain)
  qed (use s "2.prems" in auto)
next
  case (4 n s)
  then show ?case by (auto split: list.splits if_splits option.splits)
next
  case (6 n s)
  then show ?case by (auto split: list.splits if_splits option.splits)
qed auto

lemma json_loads_plain: "json_loads s = Some v \<Longrightarrow> json_plain v"
  unfolding json_loads_def by (auto simp del: parse_value.simps split: option.splits if_splits dest: parse_plain(1))

end
