(* ===== verification/Py_Exn.thy ===== *)
theory Py_Exn
  imports Py_Json_Roundtrip
begin

text \<open>
  The exceptions the sources raise or handle, as one type, with the class tests their
  \<open>except\<close> clauses make, and the standard-library calls that raise: encoding a string
  with a lone surrogate, decoding bytes, \<open>hmac.compare_digest\<close>, \<open>int(x)\<close>, iteration.
\<close>

datatype exn =
    ValueError
  | TypeError
  | AttributeError
  | KeyError pystr
  | OverflowError
  | UnicodeEncodeError
  | UnicodeDecodeError
  | JSONDecodeError
  | ValidationError "json list"
  | HTTPException int json
  | OmegaClientError pystr
  | OmegaCircuitOpen pystr
  | OmegaTimeoutError pystr
  | OmegaUnavailableError pystr
  | OmegaRejectedError int pystr pystr
  | ConnectorClientError pystr
  | RuntimeError pystr
  | LibraryError pystr

text \<open>\<open>isinstance(e, OmegaClientError)\<close>: the class and its four subclasses.\<close>

fun is_omega_client_error :: "exn \<Rightarrow> bool" where
  "is_omega_client_error (OmegaClientError _) = True"
| "is_omega_client_error (OmegaCircuitOpen _) = True"
| "is_omega_client_error (OmegaTimeoutError _) = True"
| "is_omega_client_error (OmegaUnavailableError _) = True"
| "is_omega_client_error (OmegaRejectedError _ _ _) = True"
| "is_omega_client_error _ = False"

definition encodeE :: "pystr \<Rightarrow> exn + bytes" where
  "encodeE s = (case utf8_encode s of None \<Rightarrow> Inl UnicodeEncodeError | Some bs \<Rightarrow> Inr bs)"

definition decodeE :: "bytes \<Rightarrow> exn + pystr" where
  "decodeE bs = (case utf8_decode bs of None \<Rightarrow> Inl UnicodeDecodeError | Some s \<Rightarrow> Inr s)"

definition loadsE :: "pystr \<Rightarrow> exn + json" where
  "loadsE s = (case json_loads s of None \<Rightarrow> Inl JSONDecodeError | Some v \<Rightarrow> Inr v)"

definition is_ascii :: "pystr \<Rightarrow> bool" where
  "is_ascii s \<longleftrightarrow> (\<forall>c\<in>set s. 0 \<le> c \<and> c < 128)"

text \<open>\<open>hmac.compare_digest\<close> on strings: only ASCII strings can be compared.\<close>

definition compare_digest :: "pystr \<Rightarrow> pystr \<Rightarrow> exn + bool" where
  "compare_digest a b = (if is_ascii a \<and> is_ascii b then Inr (a = b) else Inl TypeError)"

fun py_int :: "json \<Rightarrow> exn + int" where
  "py_int (JBool b) = Inr (if b then 1 else 0)"
| "py_int (JInt n) = Inr n"
| "py_int (JFloat (Dec neg m e)) = Inr (dec_trunc neg m e)"
| "py_int (JFloat (Inf _)) = Inl OverflowError"
| "py_int (JFloat NaN) = Inl ValueError"
| "py_int (JStr s) = (case py_int_str s of None \<Rightarrow> Inl ValueError | Some n \<Rightarrow> Inr n)"
| "py_int _ = Inl TypeError"

text \<open>\<open>for item in x\<close>: a string yields its characters, a dict its keys.\<close>

fun py_iter :: "json \<Rightarrow> exn + json list" where
  "py_iter (JArr xs) = Inr xs"
| "py_iter (JStr s) = Inr (map (\<lambda>c. JStr [c]) s)"
| "py_iter (JObj kvs) = Inr (map (\<lambda>(k, _). JStr k) kvs)"
| "py_iter _ = Inl TypeError"

text \<open>\<open>int(x)\<close> of a clock reading.\<close>

definition trunc :: "real \<Rightarrow> int" where
  "trunc t = (if 0 \<le> t then \<lfloor>t\<rfloor> else \<lceil>t\<rceil>)"

lemma trunc_nonneg: "0 \<le> t \<Longrightarrow> trunc t = \<lfloor>t\<rfloor>"
  by (simp add: trunc_def)

lemma encodeE_Inr: "encodeE s = Inr bs \<longleftrightarrow> utf8_encode s = Some bs"
  by (auto simp: encodeE_def split: option.splits)

lemma encodeE_scalar: "(\<exists>bs. encodeE s = Inr bs) \<longleftrightarrow> (\<forall>c\<in>set s. scalar c)"
  by (simp add: encodeE_Inr utf8_encode_Some_iff)

lemma encodeE_Inl: "encodeE s = Inl e \<Longrightarrow> e = UnicodeEncodeError"
  by (auto simp: encodeE_def split: option.splits)

lemma loadsE_Inr: "loadsE s = Inr v \<longleftrightarrow> json_loads s = Some v"
  by (auto simp: loadsE_def split: option.splits)

lemma compare_digest_refl: "is_ascii a \<Longrightarrow> compare_digest a a = Inr True"
  by (simp add: compare_digest_def)

lemma compare_digest_True: "compare_digest a b = Inr True \<longleftrightarrow> a = b \<and> is_ascii a"
  by (auto simp: compare_digest_def)

lemma is_ascii_scalar: "is_ascii s \<Longrightarrow> \<forall>c\<in>set s. scalar c"
  by (auto simp: is_ascii_def scalar_def)

lemma is_ascii_hex [simp]: "is_ascii (hex bs)"
  using hex_range by (fastforce simp: is_ascii_def)

lemma is_ascii_append [simp]: "is_ascii (s @ t) \<longleftrightarrow> is_ascii s \<and> is_ascii t"
  by (auto simp: is_ascii_def)

lemma is_ascii_Cons [simp]: "is_ascii (c # s) \<longleftrightarrow> 0 \<le> c \<and> c < 128 \<and> is_ascii s"
  by (auto simp: is_ascii_def)

lemma is_ascii_Nil [simp]: "is_ascii []"
  by (simp add: is_ascii_def)

end
