(* ===== verification/Security.thy ===== *)
theory Security
  imports Py_Exn
begin

text \<open>
  \<open>connector/security.py\<close>: the hash, the canonical string and its HMAC signature, and
  the cache of seen nonces.  The interface the request validator relies on is the locale
  \<open>replay_guard\<close>: a guard that has accepted a key refuses it until its expiry, as long as
  fewer than its capacity of other keys pass in between.
\<close>

section \<open>Hash, canonical string, signature\<close>

definition sha256_hex :: "bytes \<Rightarrow> pystr" where
  "sha256_hex data = hex (sha256 data)"

definition b64url_encode :: "bytes \<Rightarrow> pystr" where
  "b64url_encode data = rstrip_char 61 (b64_encode True data)"

definition build_canonical_string ::
  "pystr \<Rightarrow> pystr \<Rightarrow> pystr \<Rightarrow> pystr \<Rightarrow> pystr \<Rightarrow> pystr \<Rightarrow> pystr \<Rightarrow> pystr" where
  "build_canonical_string method path body_sha256_hex tenant_id request_id timestamp nonce =
     join_nl
       [strip (upper method), strip path, strip body_sha256_hex, strip tenant_id,
        strip request_id, strip timestamp, strip nonce]"

definition sign_canonical :: "pystr \<Rightarrow> pystr \<Rightarrow> exn + pystr" where
  "sign_canonical canonical secret =
     bindE (encodeE secret) (\<lambda>key.
     bindE (encodeE canonical) (\<lambda>msg.
     Inr (b64url_encode (hmac_sha256 key msg))))"

lemma sha256_hex_facts:
  "length (sha256_hex d) = 64" "is_ascii (sha256_hex d)" "strip (sha256_hex d) = sha256_hex d"
  "c \<in> set (sha256_hex d) \<Longrightarrow> \<not> is_space c"
  by (simp_all add: sha256_hex_def hex_no_space)

lemma rdrop_pad: "(\<forall>x\<in>set body. \<not> P x) \<Longrightarrow> P p \<Longrightarrow> rdrop P (body @ replicate k p) = body"
proof (induction k)
  case 0
  then show ?case by (cases body rule: rev_cases) (auto simp: rdrop_snoc)
next
  case (Suc k)
  then show ?case
    using rdrop_snoc [of P "body @ replicate k p" p] by (simp add: replicate_append_same)
qed

lemma b64url_shape:
  "b64_encode True d = b64url_encode d @ replicate ((3 - length d mod 3) mod 3) 61
     \<and> set (b64url_encode d) \<subseteq> b64_alphabet True
     \<and> length (b64url_encode d) = 4 * (length d div 3) + (if length d mod 3 = 0 then 0 else length d mod 3 + 1)"
proof -
  obtain body where body: "b64_encode True d = body @ replicate ((3 - length d mod 3) mod 3) 61"
    "set body \<subseteq> b64_alphabet True"
    "length body = 4 * (length d div 3) + (if length d mod 3 = 0 then 0 else length d mod 3 + 1)"
    using b64_encode_shape by blast
  have "\<forall>x\<in>set body. x \<noteq> 61" using body(2) by (auto simp: b64_alphabet_def)
  then have "b64url_encode d = body"
    unfolding b64url_encode_def rstrip_char_def body(1) by (intro rdrop_pad) auto
  with body show ?thesis by simp
qed

lemma b64url_inject:
  assumes "length a = length b"
  shows "b64url_encode a = b64url_encode b \<longleftrightarrow> a = b"
proof
  assume "b64url_encode a = b64url_encode b"
  then have "b64_encode True a = b64_encode True b"
    using b64url_shape [of a] b64url_shape [of b] assms by simp
  then have "Some a = Some b" using b64_decode_encode by metis
  then show "a = b" by simp
qed simp

lemma is_ascii_b64url [simp]: "is_ascii (b64url_encode d)"
  using b64url_shape [of d] by (force simp: is_ascii_def b64_alphabet_def)

lemma b64url_no_space: "c \<in> set (b64url_encode d) \<Longrightarrow> \<not> is_space c"
  using b64url_shape [of d] by (force simp: is_space_def b64_alphabet_def)

lemma strip_b64url [simp]: "strip (b64url_encode d) = b64url_encode d"
  by (rule strip_no_space) (auto dest: b64url_no_space)

text \<open>A signature exists for encodable inputs, is 43 characters of the URL-safe alphabet, and
  is left alone by \<open>strip\<close>.\<close>

lemma sign_canonical_ok:
  assumes "\<forall>c\<in>set canonical. scalar c" and "\<forall>c\<in>set secret. scalar c"
  shows "\<exists>s. sign_canonical canonical secret = Inr s"
  using assms encodeE_scalar [of canonical] encodeE_scalar [of secret]
  by (auto simp: sign_canonical_def)

lemma sign_canonical_shape:
  assumes "sign_canonical canonical secret = Inr s"
  shows "length s = 43" "set s \<subseteq> b64_alphabet True" "is_ascii s" "strip s = s" "s \<noteq> []"
proof -
  obtain d where s: "s = b64url_encode d" and d: "length d = 32"
    using assms by (auto simp: sign_canonical_def exn_simps)
  then show len: "length s = 43" using b64url_shape [of d] by simp
  show "set s \<subseteq> b64_alphabet True" using s b64url_shape [of d] by simp
  show "is_ascii s" "strip s = s" using s by simp_all
  show "s \<noteq> []" using len by auto
qed

text \<open>Two canonical strings have the same signature only if their MACs collide.\<close>

lemma sign_canonical_eq_iff:
  assumes "encodeE secret = Inr k" and "encodeE c1 = Inr m1" and "encodeE c2 = Inr m2"
  shows "sign_canonical c1 secret = sign_canonical c2 secret \<longleftrightarrow>
    hmac_sha256 k m1 = hmac_sha256 k m2"
  using assms by (simp add: sign_canonical_def b64url_inject)

text \<open>The canonical string determines its stripped fields when none of them contains a newline.\<close>

lemma canonical_fields:
  assumes "build_canonical_string m p h t r ts n = build_canonical_string m' p' h' t' r' ts' n'"
    and "\<forall>s\<in>{upper m, p, h, t, r, ts, n, upper m', p', h', t', r', ts', n'}. 10 \<notin> set (strip s)"
  shows "strip (upper m) = strip (upper m') \<and> strip p = strip p' \<and> strip h = strip h' \<and>
    strip t = strip t' \<and> strip r = strip r' \<and> strip ts = strip ts' \<and> strip n = strip n'"
proof -
  let ?xs = "[strip (upper m), strip p, strip h, strip t, strip r, strip ts, strip n]"
  let ?ys = "[strip (upper m'), strip p', strip h', strip t', strip r', strip ts', strip n']"
  have "split_on 10 (join_nl ?xs) = ?xs" "split_on 10 (join_nl ?ys) = ?ys"
    using assms(2) by (intro split_join_nl; simp)+
  moreover have "join_nl ?xs = join_nl ?ys"
    using assms(1) by (simp only: build_canonical_string_def)
  ultimately have "?xs = ?ys" by metis
  then show ?thesis by simp
qed

section \<open>The interface of a replay guard\<close>

text \<open>
  \<open>remembers s k e n\<close>: state \<open>s\<close> refuses \<open>k\<close> before time \<open>e\<close>, and still will after up to \<open>n\<close>
  more checks.  \<open>inv t s\<close> is the invariant of a state last used at time \<open>t\<close>.
\<close>

fun run_checks :: "(real \<Rightarrow> 'k \<Rightarrow> 's \<Rightarrow> bool \<times> 's) \<Rightarrow> (real \<times> 'k) list \<Rightarrow> 's \<Rightarrow> 's" where
  "run_checks check [] s = s"
| "run_checks check ((t, k) # xs) s = run_checks check xs (snd (check t k s))"

locale replay_guard =
  fixes check :: "real \<Rightarrow> 'k \<Rightarrow> 's \<Rightarrow> bool \<times> 's"
    and inv :: "real \<Rightarrow> 's \<Rightarrow> bool"
    and remembers :: "'s \<Rightarrow> 'k \<Rightarrow> real \<Rightarrow> nat \<Rightarrow> bool"
    and ttl :: real
    and capacity :: nat
  assumes inv_check: "inv t s \<Longrightarrow> t \<le> t' \<Longrightarrow> inv t' (snd (check t' k s))"
    and mark: "inv t s \<Longrightarrow> t \<le> t' \<Longrightarrow> fst (check t' k s) \<Longrightarrow>
      remembers (snd (check t' k s)) k (t' + ttl) capacity"
    and keep: "inv t s \<Longrightarrow> t \<le> t' \<Longrightarrow> t' < e \<Longrightarrow> remembers s k e (Suc n) \<Longrightarrow>
      remembers (snd (check t' j s)) k e n"
    and refuse: "inv t s \<Longrightarrow> t \<le> t' \<Longrightarrow> t' < e \<Longrightarrow> remembers s k e n \<Longrightarrow> \<not> fst (check t' k s)"
begin

lemma inv_checks:
  "inv t s \<Longrightarrow> sorted (t # map fst xs) \<Longrightarrow> inv (last (t # map fst xs)) (run_checks check xs s)"
proof (induction xs arbitrary: t s)
  case (Cons x xs)
  then show ?case using inv_check by (cases x) force
qed simp

lemma keep_checks:
  "inv t s \<Longrightarrow> sorted (t # map fst xs) \<Longrightarrow> last (t # map fst xs) < e \<Longrightarrow>
     length xs \<le> n \<Longrightarrow> remembers s k e n \<Longrightarrow> remembers (run_checks check xs s) k e (n - length xs)"
proof (induction xs arbitrary: t s n)
  case (Cons x xs)
  obtain t' j where x: "x = (t', j)" by (cases x)
  obtain m where n: "n = Suc m" using Cons.prems(4) by (cases n) auto
  have "t' \<le> last (t' # map fst xs)"
    using Cons.prems(2) x by (cases xs rule: rev_cases) auto
  with Cons.prems x have "t' < e" by simp
  with Cons.prems x n have "remembers (snd (check t' j s)) k e m"
    by (auto intro: keep)
  moreover have "inv t' (snd (check t' j s))" using Cons.prems x by (auto intro: inv_check)
  ultimately show ?case using Cons.IH [of t' "snd (check t' j s)" m] Cons.prems x n by simp
qed simp

text \<open>A key accepted at time \<open>t\<close> is refused until \<open>t + ttl\<close>, if at most \<open>capacity\<close> other checks
  happen in between.\<close>

lemma no_replay:
  assumes "inv t0 s" "t0 \<le> t" "fst (check t k s)"
    and "sorted (t # map fst xs @ [t'])" "t' < t + ttl" "length xs \<le> capacity"
  shows "\<not> fst (check t' k (run_checks check xs (snd (check t k s))))"
proof -
  let ?s = "snd (check t k s)"
  have inv: "inv t ?s" using assms(1,2) by (rule inv_check)
  have srt: "sorted (t # map fst xs)" and last: "last (t # map fst xs) \<le> t'"
    using assms(4) by (auto simp: sorted_append last_map)
  have "remembers ?s k (t + ttl) capacity" using assms(1-3) by (rule mark)
  then have rem: "remembers (run_checks check xs ?s) k (t + ttl) (capacity - length xs)"
    using inv srt last assms(5,6) by (intro keep_checks) auto
  have "inv (last (t # map fst xs)) (run_checks check xs ?s)" using inv srt by (rule inv_checks)
  from refuse [OF this last assms(5) rem] show ?thesis .
qed

end

section \<open>The nonce cache\<close>

record nonce_replay_cache =
  ttl_sec :: int
  max_entries :: int
  entries :: "(pystr \<times> real) list"

definition new_cache :: "int \<Rightarrow> int \<Rightarrow> nonce_replay_cache" where
  "new_cache ttl m = \<lparr>ttl_sec = ttl, max_entries = m, entries = []\<rparr>"

text \<open>Popping a list of keys.\<close>

definition pop_keys :: "pystr list \<Rightarrow> (pystr \<times> real) list \<Rightarrow> (pystr \<times> real) list" where
  "pop_keys ks d = filter (\<lambda>(k, _). k \<notin> set ks) d"

definition cleanup :: "real \<Rightarrow> nonce_replay_cache \<Rightarrow> nonce_replay_cache" where
  "cleanup now_ts c =
     (let expired = map fst (filter (\<lambda>(k, e). e \<le> now_ts) (entries c));
          c1 = c\<lparr>entries := pop_keys expired (entries c)\<rparr>
      in if int (length (entries c1)) \<le> max_entries c1 then c1
         else
           (let sorted_items = sort_key snd (entries c1);
                overflow = int (length (entries c1)) - max_entries c1
            in c1\<lparr>entries := pop_keys (map fst (take (nat overflow) sorted_items)) (entries c1)\<rparr>))"

definition check_and_mark :: "real \<Rightarrow> pystr \<Rightarrow> nonce_replay_cache \<Rightarrow> bool \<times> nonce_replay_cache" where
  "check_and_mark now_ts key c =
     (let c1 = cleanup now_ts c
      in if key \<in> fst ` set (entries c1) then (False, c1)
         else (True, c1\<lparr>entries := dict_put key (now_ts + of_int (ttl_sec c1)) (entries c1)\<rparr>))"

text \<open>The invariant under a clock that does not go back: distinct keys, in the order of their
  expiry, none later than the newest mark would be.\<close>

definition cache_inv :: "int \<Rightarrow> int \<Rightarrow> real \<Rightarrow> nonce_replay_cache \<Rightarrow> bool" where
  "cache_inv ttl m now_ts c \<longleftrightarrow>
     ttl_sec c = ttl \<and> max_entries c = m \<and> distinct (map fst (entries c)) \<and>
     sorted (map snd (entries c)) \<and> (\<forall>(k, e)\<in>set (entries c). e \<le> now_ts + of_int ttl)"

definition live :: "real \<Rightarrow> (pystr \<times> real) list \<Rightarrow> (pystr \<times> real) list" where
  "live now_ts es = filter (\<lambda>(k, e). now_ts < e) es"

lemma cache_inv_new: "cache_inv ttl m t (new_cache ttl m)"
  by (simp add: cache_inv_def new_cache_def)

lemma cleanup_new [simp]:
  "entries (cleanup t (new_cache ttl m)) = []" "ttl_sec (new_cache ttl m) = ttl"
  by (simp_all add: cleanup_def new_cache_def pop_keys_def Let_def)

lemma pop_expired:
  assumes "distinct (map fst es)"
  shows "pop_keys (map fst (filter (\<lambda>(k, e). e \<le> t) es)) es = live t es"
proof -
  have "k \<in> fst ` set (filter (\<lambda>(k, e). e \<le> t) es) \<longleftrightarrow> e \<le> t" if "(k, e) \<in> set es" for k e
    using that assms by (auto simp: image_iff dest: eq_key_imp_eq_value)
  then show ?thesis
    unfolding pop_keys_def live_def set_map by (intro filter_cong) force+
qed

lemma pop_oldest:
  assumes "distinct (map fst es)" "sorted (map snd es)"
  shows "pop_keys (map fst (take n (sort_key snd es))) es = drop n es"
  using filter_fst_notin_take [OF assms(1), of n]
  by (simp add: pop_keys_def sort_key_id_if_sorted [OF assms(2)] case_prod_beta')

text \<open>On the invariant, clean-up drops the expired entries and then the oldest of the rest.\<close>

lemma entries_cleanup:
  assumes "cache_inv ttl m t c"
  shows "cleanup now_ts c =
    c\<lparr>entries := drop (nat (int (length (live now_ts (entries c))) - m)) (live now_ts (entries c))\<rparr>"
proof -
  have d: "distinct (map fst (entries c))" and s: "sorted (map snd (entries c))"
    and m: "max_entries c = m"
    using assms by (auto simp: cache_inv_def)
  have "distinct (map fst (live now_ts (entries c)))" "sorted (map snd (live now_ts (entries c)))"
    using distinct_map_fst_filter [OF d] sorted_map_snd_filter [OF s] by (simp_all add: live_def)
  then show ?thesis
    by (simp add: cleanup_def Let_def m pop_expired [OF d] pop_oldest)
qed

lemma cache_inv_sublist:
  assumes "cache_inv ttl m t c" "t \<le> t'"
  shows "cache_inv ttl m t' (c\<lparr>entries := drop n (live now_ts (entries c))\<rparr>)"
proof -
  have "distinct (map fst (live now_ts (entries c)))" "sorted (map snd (live now_ts (entries c)))"
    using assms distinct_map_fst_filter sorted_map_snd_filter
    by (auto simp: cache_inv_def live_def)
  then have "distinct (map fst (drop n (live now_ts (entries c))))"
    "sorted (map snd (drop n (live now_ts (entries c))))"
    by (simp_all add: drop_map [symmetric] sorted_wrt_drop)
  moreover have "set (drop n (live now_ts (entries c))) \<subseteq> set (entries c)"
    using set_drop_subset by (fastforce simp: live_def)
  ultimately show ?thesis
    using assms by (fastforce simp: cache_inv_def)
qed

lemma cache_inv_cleanup:
  "cache_inv ttl m t c \<Longrightarrow> t \<le> t' \<Longrightarrow> cache_inv ttl m t' (cleanup now_ts c)"
  by (simp add: entries_cleanup cache_inv_sublist)

lemma cache_inv_check:
  assumes "cache_inv ttl m t c" "t \<le> t'"
  shows "cache_inv ttl m t' (snd (check_and_mark t' key c))"
proof -
  let ?c = "cleanup t' c"
  have inv: "cache_inv ttl m t' ?c" using assms by (rule cache_inv_cleanup)
  show ?thesis
  proof (cases "key \<in> fst ` set (entries ?c)")
    case True
    with inv show ?thesis by (simp add: check_and_mark_def Let_def)
  next
    case False
    with inv show ?thesis
      by (auto simp: check_and_mark_def Let_def cache_inv_def dict_put_new sorted_append)
  qed
qed

lemma entries_check:
  "entries (snd (check_and_mark t key c)) =
     entries (cleanup t c) @ (if fst (check_and_mark t key c)
                              then [(key, t + of_int (ttl_sec (cleanup t c)))] else [])"
  by (simp add: check_and_mark_def Let_def dict_put_new)

lemma fst_check: "fst (check_and_mark t key c) \<longleftrightarrow> key \<notin> fst ` set (entries (cleanup t c))"
  by (simp add: check_and_mark_def Let_def)

text \<open>A marked key stays in the list until it expires; only newer marks can push it out.\<close>

definition cache_remembers :: "int \<Rightarrow> nonce_replay_cache \<Rightarrow> pystr \<Rightarrow> real \<Rightarrow> nat \<Rightarrow> bool" where
  "cache_remembers m c k e n \<longleftrightarrow>
     (\<exists>pre suf. entries c = pre @ (k, e) # suf \<and> int (length suf + n) < m)"

lemma remembers_cleanup:
  assumes inv: "cache_inv ttl m t c" and e: "t' < e" and r: "cache_remembers m c k e n"
  shows "\<exists>pre suf. entries (cleanup t' c) = pre @ (k, e) # suf \<and> int (length suf + n) < m"
proof -
  obtain pre suf where es: "entries c = pre @ (k, e) # suf" and n: "int (length suf + n) < m"
    using r by (auto simp: cache_remembers_def)
  let ?pre = "live t' pre" and ?suf = "live t' suf"
  let ?d = "nat (int (length (live t' (entries c))) - m)"
  have lv: "live t' (entries c) = ?pre @ (k, e) # ?suf" using es e by (simp add: live_def)
  have len: "length ?suf \<le> length suf" by (simp add: live_def)
  have "?d \<le> length ?pre" using lv len n by simp
  then have "drop ?d (live t' (entries c)) = drop ?d ?pre @ (k, e) # ?suf"
    using lv by simp
  then have "entries (cleanup t' c) = drop ?d ?pre @ (k, e) # ?suf"
    using entries_cleanup [OF inv, of t'] by simp
  moreover have "int (length ?suf + n) < m" using len n by linarith
  ultimately show ?thesis by blast
qed

text \<open>The cache is a replay guard for its TTL and for one key less than its size limit.\<close>

interpretation nonce_cache: replay_guard check_and_mark "\<lambda>t c. 1 \<le> m \<and> cache_inv ttl m t c"
  "cache_remembers m" "of_int ttl" "nat (m - 1)" for ttl m :: int
proof
  fix t t' :: real and s k
  assume "1 \<le> m \<and> cache_inv ttl m t s" "t \<le> t'"
  then show "1 \<le> m \<and> cache_inv ttl m t' (snd (check_and_mark t' k s))"
    using cache_inv_check by blast
next
  fix t t' :: real and s k
  assume inv: "1 \<le> m \<and> cache_inv ttl m t s" and ok: "fst (check_and_mark t' k s)"
  have "ttl_sec (cleanup t' s) = ttl"
    using inv entries_cleanup [of ttl m t s t'] by (simp add: cache_inv_def)
  with ok have "entries (snd (check_and_mark t' k s)) = entries (cleanup t' s) @ [(k, t' + of_int ttl)]"
    by (simp add: entries_check)
  then show "cache_remembers m (snd (check_and_mark t' k s)) k (t' + of_int ttl) (nat (m - 1))"
    unfolding cache_remembers_def
    using inv by (intro exI [of _ "entries (cleanup t' s)"] exI [of _ "[]"]) simp
next
  fix t t' e :: real and s k j n
  assume inv: "1 \<le> m \<and> cache_inv ttl m t s" and e: "t' < e"
    and r: "cache_remembers m s k e (Suc n)"
  from remembers_cleanup [OF conjunct2 [OF inv] e r] obtain pre suf where
    es: "entries (cleanup t' s) = pre @ (k, e) # suf" and n: "int (length suf + Suc n) < m" by blast
  let ?new = "if fst (check_and_mark t' j s) then [(j, t' + of_int (ttl_sec (cleanup t' s)))] else []"
  have "entries (snd (check_and_mark t' j s)) = pre @ (k, e) # suf @ ?new"
    by (simp add: entries_check es)
  moreover have "int (length (suf @ ?new) + n) < m" using n by simp
  ultimately show "cache_remembers m (snd (check_and_mark t' j s)) k e n"
    unfolding cache_remembers_def by blast
next
  fix t t' e :: real and s k n
  assume inv: "1 \<le> m \<and> cache_inv ttl m t s" and e: "t' < e"
    and r: "cache_remembers m s k e n"
  from remembers_cleanup [OF conjunct2 [OF inv] e r] show "\<not> fst (check_and_mark t' k s)"
    by (auto simp: fst_check)
qed

section \<open>The cache as a set of live nonces\<close>

text \<open>
  Abstractly a cache is the map from live nonces to their expiry, and a check either finds
  the nonce live or adds it.  The list refines this as long as the live nonces fit.
\<close>

definition abs_cache :: "real \<Rightarrow> nonce_replay_cache \<Rightarrow> (pystr \<rightharpoonup> real)" where
  "abs_cache now_ts c = map_of (live now_ts (entries c))"

definition abs_check :: "real \<Rightarrow> real \<Rightarrow> pystr \<Rightarrow> (pystr \<rightharpoonup> real) \<Rightarrow> bool \<times> (pystr \<rightharpoonup> real)" where
  "abs_check now_ts ttl k m =
     (case m k of Some _ \<Rightarrow> (False, m) | None \<Rightarrow> (True, m(k \<mapsto> now_ts + ttl)))"

lemma live_live [simp]: "live t (live t es) = live t es"
  by (simp add: live_def)

lemma live_append: "live t (xs @ ys) = live t xs @ live t ys"
  by (simp add: live_def)

lemma fst_live_map_of: "k \<in> fst ` set es \<longleftrightarrow> map_of es k \<noteq> None"
  by (simp add: map_of_eq_None_iff)

lemma check_refines:
  assumes inv: "cache_inv ttl m t c"
    and room: "int (length (live now_ts (entries c))) \<le> m"
    and ttl: "0 < ttl"
  shows "(case check_and_mark now_ts key c of (ok, c') \<Rightarrow> (ok, abs_cache now_ts c')) =
    abs_check now_ts (of_int ttl) key (abs_cache now_ts c)"
proof -
  have cl: "cleanup now_ts c = c\<lparr>entries := live now_ts (entries c)\<rparr>"
    using entries_cleanup [OF inv, of now_ts] room by simp
  have t: "ttl_sec c = ttl" using inv by (simp add: cache_inv_def)
  let ?l = "live now_ts (entries c)"
  show ?thesis
  proof (cases "key \<in> fst ` set ?l")
    case True
    then show ?thesis
      by (auto simp: check_and_mark_def Let_def cl abs_check_def abs_cache_def fst_live_map_of)
  next
    case False
    then have none: "map_of ?l key = None" by (simp add: map_of_eq_None_iff)
    have "live now_ts [(key, now_ts + of_int ttl)] = [(key, now_ts + of_int ttl)]"
      using ttl by (simp add: live_def)
    then have "map_of (live now_ts (?l @ [(key, now_ts + of_int ttl)])) =
        (map_of ?l)(key \<mapsto> now_ts + of_int ttl)"
      using none by (simp add: live_append map_of_append fun_eq_iff map_add_def split: option.split)
    with False none show ?thesis
      by (simp add: check_and_mark_def Let_def cl t dict_put_new abs_check_def abs_cache_def)
  qed
qed

text \<open>The list never holds more than one entry above the limit.\<close>

lemma length_check_bound:
  assumes inv: "cache_inv ttl m t c" and "0 \<le> m"
  shows "int (length (entries (snd (check_and_mark now_ts key c)))) \<le> m + 1"
proof -
  have "int (length (entries (cleanup now_ts c))) \<le> m"
    using assms(2) by (simp add: entries_cleanup [OF inv])
  then show ?thesis by (simp add: entries_check)
qed

text \<open>Facts about runs of checks.\<close>

lemma cache_inv_checks:
  "cache_inv ttl m t c \<Longrightarrow> sorted (t # map fst xs) \<Longrightarrow>
     cache_inv ttl m (last (t # map fst xs)) (run_checks check_and_mark xs c)"
proof (induction xs arbitrary: t c)
  case (Cons x xs)
  then show ?case using cache_inv_check by (cases x) force
qed simp

lemma length_checks:
  "cache_inv ttl m t c \<Longrightarrow> sorted (t # map fst xs) \<Longrightarrow> 0 \<le> m \<Longrightarrow>
     int (length (entries c)) \<le> m + 1 \<Longrightarrow> int (length (entries (run_checks check_and_mark xs c))) \<le> m + 1"
proof (induction xs arbitrary: t c)
  case (Cons x xs)
  obtain t' k where x: "x = (t', k)" by (cases x)
  have "cache_inv ttl m t' (snd (check_and_mark t' k c))"
    using Cons.prems x by (auto intro: cache_inv_check)
  moreover have "int (length (entries (snd (check_and_mark t' k c)))) \<le> m + 1"
    using Cons.prems by (auto intro: length_check_bound)
  ultimately show ?case using Cons.IH [of t'] Cons.prems x by simp
qed simp

text \<open>Clean-up keeps only entries of the list that are live, whatever the state.\<close>

lemma cleanup_live:
  "(k, e) \<in> set (entries (cleanup t c)) \<Longrightarrow> (k, e) \<in> set (entries c) \<and> t < e"
  by (force simp: cleanup_def pop_keys_def Let_def not_le image_iff split: if_splits)

lemma ttl_sec_check [simp]: "ttl_sec (snd (check_and_mark t k c)) = ttl_sec c"
  "ttl_sec (cleanup t c) = ttl_sec c"
  by (simp_all add: check_and_mark_def cleanup_def Let_def)

lemma marks_run:
  "(k, e) \<in> set (entries (run_checks check_and_mark xs c)) \<Longrightarrow>
     (k, e) \<in> set (entries c) \<or> (\<exists>s. (s, k) \<in> set xs \<and> e = s + of_int (ttl_sec c))"
proof (induction xs arbitrary: c)
  case (Cons x xs)
  obtain t j where x: "x = (t, j)" by (cases x)
  show ?case
    using Cons.IH [of "snd (check_and_mark t j c)"] Cons.prems
    by (auto simp: x entries_check dest: cleanup_live split: if_splits)
qed simp

lemma marks_checks:
  "(k, e) \<in> set (entries (run_checks check_and_mark xs (new_cache ttl m))) \<Longrightarrow>
     \<exists>s. (s, k) \<in> set xs \<and> e = s + of_int ttl"
  using marks_run [of k e xs "new_cache ttl m"] by (simp add: new_cache_def)

section \<open>Properties\<close>

text \<open>The canonical string that is signed determines its seven fields (up to surrounding white
  space, the method also up to case), as long as no field contains a newline: two requests that
  differ in the method, path, body hash, tenant, request id, timestamp or nonce never share a
  canonical string.\<close>

theorem canonical_string_injective:
  assumes "build_canonical_string m p h t r ts n = build_canonical_string m' p' h' t' r' ts' n'"
    and "\<forall>s\<in>{upper m, p, h, t, r, ts, n, upper m', p', h', t', r', ts', n'}. 10 \<notin> set (strip s)"
  shows "strip (upper m) = strip (upper m') \<and> strip p = strip p' \<and> strip h = strip h' \<and>
    strip t = strip t' \<and> strip r = strip r' \<and> strip ts = strip ts' \<and> strip n = strip n'"
  using canonical_fields assms by blast

theorem canonical_string_injective_witness:
  "strip (upper (u ''post'')) = strip (upper (u ''POST '')) \<and> strip (u ''/v1'') = strip (u '' /v1'') \<and>
   strip (u ''ab'') = strip (u ''ab'') \<and> strip (u ''t'') = strip (u ''t'') \<and>
   strip (u ''r'') = strip (u ''r'') \<and> strip (u ''17'') = strip (u ''17'') \<and>
   strip (u ''n'') = strip (u ''n'')"
  by (rule canonical_string_injective [where m = "u ''post''" and m' = "u ''POST ''"]) code_simp+

text \<open>A signature of \<open>sign_canonical\<close> is always 43 characters of the URL-safe Base64 alphabet
  without padding, is ASCII and unchanged by stripping, so it survives the header handling of the
  receiver and is comparable by \<open>hmac.compare_digest\<close>; and it exists whenever canonical string and
  secret are encodable.\<close>

theorem signature_shape:
  "(\<exists>s. sign_canonical canonical secret = Inr s) = ((\<forall>c\<in>set canonical. scalar c) \<and> (\<forall>c\<in>set secret. scalar c))
   \<and> (case sign_canonical canonical secret of
        Inl e \<Rightarrow> e = UnicodeEncodeError
      | Inr s \<Rightarrow> length s = 43 \<and> set s \<subseteq> b64_alphabet True \<and> is_ascii s \<and> strip s = s)"
proof (cases "sign_canonical canonical secret")
  case (Inl e)
  then have "e = UnicodeEncodeError" by (auto simp: sign_canonical_def exn_simps dest: encodeE_Inl)
  then show ?thesis using Inl sign_canonical_ok [of canonical secret] by auto
next
  case (Inr s)
  then have "(\<forall>c\<in>set canonical. scalar c) \<and> (\<forall>c\<in>set secret. scalar c)"
    using encodeE_scalar [of canonical] encodeE_scalar [of secret]
    by (auto simp: sign_canonical_def exn_simps)
  then show ?thesis using Inr sign_canonical_shape [OF Inr] by auto
qed

theorem signature_shape_witness:
  "\<exists>s. sign_canonical (u ''a'') (u ''k'') = Inr s \<and> length s = 43"
proof -
  have "\<forall>c\<in>set (u ''a''). scalar c" "\<forall>c\<in>set (u ''k''). scalar c" by code_simp+
  then show ?thesis
    using signature_shape [of "u ''a''" "u ''k''"] by (auto split: sum.splits)
qed

text \<open>The nonce cache, started empty and used at times that do not go back, always has distinct
  keys in the order of their expiry, no expiry later than a mark made now would get, and never
  more than one entry above \<open>max_entries\<close>.\<close>

theorem cache_runs_invariant:
  assumes "sorted (t # map fst xs)" and "0 \<le> m"
  shows "cache_inv ttl m (last (t # map fst xs)) (run_checks check_and_mark xs (new_cache ttl m)) \<and>
    int (length (entries (run_checks check_and_mark xs (new_cache ttl m)))) \<le> m + 1"
proof -
  have "int (length (entries (new_cache ttl m))) \<le> m + 1" using assms(2) by (simp add: new_cache_def)
  then show ?thesis using cache_inv_checks [OF cache_inv_new assms(1)]
      length_checks [OF cache_inv_new assms(1,2)] by blast
qed

theorem cache_runs_invariant_witness:
  "cache_inv 10 1 3 (run_checks check_and_mark [(1, u ''a''), (2, u ''b''), (3, u ''a'')] (new_cache 10 1)) \<and>
   int (length (entries (run_checks check_and_mark [(1, u ''a''), (2, u ''b''), (3, u ''a'')] (new_cache 10 1)))) \<le> 1 + 1"
  using cache_runs_invariant [of 0 "[(1, u ''a''), (2, u ''b''), (3, u ''a'')]" 1 10] by simp

text \<open>C17: On a cache whose live nonces fit, \<open>check_and_mark\<close> is exactly the operation on the abstract map
  from live nonces to expiry times: it refuses a live nonce and leaves the map, and accepts any
  other nonce and adds it with expiry \<open>now + ttl\<close>; eviction of expired entries is invisible.\<close>

theorem cache_refines_live_map:
  assumes "cache_inv ttl m t c" and "int (length (live now_ts (entries c))) \<le> m" and "0 < ttl"
  shows "(case check_and_mark now_ts key c of (ok, c') \<Rightarrow> (ok, abs_cache now_ts c')) =
    abs_check now_ts (of_int ttl) key (abs_cache now_ts c)"
  using assms by (rule check_refines)

theorem cache_refines_live_map_witness:
  "(case check_and_mark 5 (u ''b'') \<lparr>ttl_sec = 10, max_entries = 3, entries = [(u ''a'', 4), (u ''b'', 12)]\<rparr> of
      (ok, c') \<Rightarrow> (ok, abs_cache 5 c')) =
    abs_check 5 (of_int 10) (u ''b'') (abs_cache 5 \<lparr>ttl_sec = 10, max_entries = 3, entries = [(u ''a'', 4), (u ''b'', 12)]\<rparr>)"
  by (rule cache_refines_live_map [of 10 3 5]) (auto simp: cache_inv_def live_def u_def)

text \<open>A nonce is never refused by mistake: whatever was checked before and in whatever order the
  clock readings came, a refused key was checked before, less than the TTL ago.\<close>

theorem refused_nonce_was_seen:
  assumes "\<not> fst (check_and_mark t key (run_checks check_and_mark xs (new_cache ttl m)))"
  shows "\<exists>s. (s, key) \<in> set xs \<and> t < s + of_int ttl"
proof -
  have "key \<in> fst ` set (entries (cleanup t (run_checks check_and_mark xs (new_cache ttl m))))"
    using assms by (simp add: fst_check)
  then obtain e where "(key, e) \<in> set (entries (run_checks check_and_mark xs (new_cache ttl m)))" "t < e"
    using cleanup_live by force
  then show ?thesis using marks_checks by force
qed

theorem refused_nonce_was_seen_witness:
  "\<exists>s. (s, u ''a'') \<in> set [(1, u ''a''), (2, u ''b'')] \<and> (9 :: real) < s + of_int 10"
  by (rule refused_nonce_was_seen [where m = 5])
    (simp add: check_and_mark_def cleanup_def pop_keys_def new_cache_def Let_def u_def)

end
