(* ===== verification/Models.thy ===== *)
theory Models
  imports Security
begin

text \<open>
  \<open>connector/models.py\<close> and \<open>connector/errors.py\<close>: the request and response records, the
  request's own validator, and the error envelope.  Pydantic, FastAPI and httpx are
  parameters, collected in the record \<open>libs\<close>; the locale \<open>libs_contract\<close> names what
  the code relies on (the declared fields are enforced), and \<open>declared_libs\<close> is a
  concrete instance.
\<close>

section \<open>Records\<close>

record scan_request =
  rq_tenant_id :: pystr
  rq_request_id :: "pystr option"
  rq_filename :: "pystr option"
  rq_mime :: "pystr option"
  rq_file_base64 :: "pystr option"
  rq_extracted_text :: "pystr option"
  rq_metadata :: jobj

record scan_response =
  rs_request_id :: pystr
  rs_tenant_id :: pystr
  rs_risk_score :: int
  rs_verdict :: pystr
  rs_reasons :: "pystr list"
  rs_evidence_id :: pystr
  rs_policy_trace :: jobj
  rs_attestation :: "jobj option"

text \<open>Python truth value of an optional string, and \<open>s or ""\<close>.\<close>

definition opt_truthy :: "pystr option \<Rightarrow> bool" where
  "opt_truthy s = (case s of None \<Rightarrow> False | Some t \<Rightarrow> t \<noteq> [])"

definition opt_or :: "pystr option \<Rightarrow> pystr \<Rightarrow> pystr" where
  "opt_or s d = (case s of None \<Rightarrow> d | Some t \<Rightarrow> if t = [] then d else t)"

lemma opt_or_simps [simp]: "opt_or None d = d" "opt_or (Some []) d = d"
  "t \<noteq> [] \<Longrightarrow> opt_or (Some t) d = t"
  by (simp_all add: opt_or_def)

definition validate_input_payload :: "scan_request \<Rightarrow> exn + scan_request" where
  "validate_input_payload r =
     (if \<not> (opt_truthy (rq_file_base64 r) \<or> opt_truthy (rq_extracted_text r))
      then Inl ValueError else Inr r)"

section \<open>Library parameters\<close>

text \<open>
  \<open>lib_fields\<close>: pydantic's field validation of \<open>ScanAttachmentRequest.model_validate\<close>
  (the error list, or the fields).  \<open>lib_validator_errors\<close>: the error list pydantic makes
  of an exception of the model's own validator.  \<open>lib_response_ok\<close>: whether the constructor
  of \<open>ScanAttachmentResponse\<close> accepts its arguments.  \<open>lib_content\<close>: the bytes httpx sends
  for \<open>payload.model_dump(mode="json", exclude_none=True)\<close>.
\<close>

record libs =
  lib_fields :: "json \<Rightarrow> json list + scan_request"
  lib_validator_errors :: "exn \<Rightarrow> json list"
  lib_response_ok :: "scan_response \<Rightarrow> bool"
  lib_content :: "scan_request \<Rightarrow> exn + bytes"

definition model_validate :: "libs \<Rightarrow> json \<Rightarrow> exn + scan_request" where
  "model_validate L j =
     (case lib_fields L j of
        Inl errs \<Rightarrow> Inl (ValidationError errs)
      | Inr r \<Rightarrow>
          (case validate_input_payload r of
             Inl e \<Rightarrow> Inl (ValidationError (lib_validator_errors L e))
           | Inr r' \<Rightarrow> Inr r'))"

definition make_response :: "libs \<Rightarrow> scan_response \<Rightarrow> exn + scan_response" where
  "make_response L r = (if lib_response_ok L r then Inr r else Inl (ValidationError []))"

section \<open>The declared fields\<close>

definition request_keys :: "pystr list" where
  "request_keys = [u ''tenant_id'', u ''request_id'', u ''filename'', u ''mime'',
     u ''file_base64'', u ''extracted_text'', u ''metadata'']"

definition text_ok :: "pystr \<Rightarrow> bool" where
  "text_ok s \<longleftrightarrow> (\<forall>c\<in>set s. scalar c)"

definition opt_str_field :: "pystr \<Rightarrow> jobj \<Rightarrow> pystr option option" where
  "opt_str_field k kvs =
     (case map_of kvs k of
        None \<Rightarrow> Some None
      | Some JNull \<Rightarrow> Some None
      | Some (JStr s) \<Rightarrow> if text_ok s then Some (Some s) else None
      | Some _ \<Rightarrow> None)"

definition tenant_field :: "jobj \<Rightarrow> pystr option" where
  "tenant_field kvs =
     (case map_of kvs (u ''tenant_id'') of
        Some (JStr s) \<Rightarrow> if s \<noteq> [] \<and> text_ok s then Some s else None
      | _ \<Rightarrow> None)"

definition metadata_field :: "jobj \<Rightarrow> jobj option" where
  "metadata_field kvs =
     (case map_of kvs (u ''metadata'') of
        None \<Rightarrow> Some []
      | Some (JObj m) \<Rightarrow> if list_all text_ok (map fst m) then Some m else None
      | Some _ \<Rightarrow> None)"

text \<open>\<open>declared_request\<close> reads a JSON body by the field declarations of the class: extra keys
  forbidden, a non-empty \<open>tenant_id\<close>, five optional strings, an object \<open>metadata\<close>.\<close>

definition declared_request :: "json \<Rightarrow> scan_request option" where
  "declared_request j =
     (case j of
        JObj kvs \<Rightarrow>
          if list_all (\<lambda>k. k \<in> set request_keys) (map fst kvs) then
            (case (tenant_field kvs, opt_str_field (u ''request_id'') kvs,
                   opt_str_field (u ''filename'') kvs, opt_str_field (u ''mime'') kvs,
                   opt_str_field (u ''file_base64'') kvs, opt_str_field (u ''extracted_text'') kvs,
                   metadata_field kvs) of
               (Some t, Some r, Some f, Some m, Some b, Some x, Some d) \<Rightarrow>
                 Some \<lparr>rq_tenant_id = t, rq_request_id = r, rq_filename = f, rq_mime = m,
                       rq_file_base64 = b, rq_extracted_text = x, rq_metadata = d\<rparr>
             | _ \<Rightarrow> None)
          else None
      | _ \<Rightarrow> None)"

definition declared_response :: "scan_response \<Rightarrow> bool" where
  "declared_response r \<longleftrightarrow>
     0 \<le> rs_risk_score r \<and> rs_risk_score r \<le> 100 \<and>
     text_ok (rs_request_id r) \<and> text_ok (rs_tenant_id r) \<and> text_ok (rs_verdict r) \<and>
     list_all text_ok (rs_reasons r) \<and> text_ok (rs_evidence_id r) \<and>
     list_all text_ok (map fst (rs_policy_trace r)) \<and>
     (case rs_attestation r of None \<Rightarrow> True | Some a \<Rightarrow> list_all text_ok (map fst a))"

locale libs_contract =
  fixes L :: libs
  assumes fields_accept: "declared_request j = Some r \<Longrightarrow> lib_fields L j = Inr r"
    and fields_refuse: "declared_request j = None \<Longrightarrow> \<exists>errs. lib_fields L j = Inl errs"
    and response_declared: "lib_response_ok L a \<longleftrightarrow> declared_response a"
begin

lemma fields_iff: "lib_fields L j = Inr r \<longleftrightarrow> declared_request j = Some r"
proof (cases "declared_request j")
  case None
  then show ?thesis using fields_refuse [OF None] by auto
next
  case (Some r')
  then show ?thesis using fields_accept [OF Some] by auto
qed

lemma model_validate_Inr:
  "model_validate L j = Inr r \<longleftrightarrow>
     declared_request j = Some r \<and>
     (opt_truthy (rq_file_base64 r) \<or> opt_truthy (rq_extracted_text r))"
proof -
  have "model_validate L j = Inr r \<longleftrightarrow>
      (\<exists>r'. lib_fields L j = Inr r' \<and> validate_input_payload r' = Inr r)"
    by (auto simp: model_validate_def split: sum.splits)
  then show ?thesis by (auto simp: fields_iff validate_input_payload_def)
qed

lemma model_validate_Inl: "model_validate L j = Inl e \<Longrightarrow> \<exists>errs. e = ValidationError errs"
  by (auto simp: model_validate_def split: sum.splits)

lemma make_response_Inr: "make_response L r = Inr r' \<longleftrightarrow> r' = r \<and> declared_response r"
  by (auto simp: make_response_def response_declared)

end

lemma declared_request_tenant:
  "declared_request j = Some r \<Longrightarrow> rq_tenant_id r \<noteq> [] \<and> text_ok (rq_tenant_id r)"
  by (auto simp: declared_request_def tenant_field_def split: json.splits if_splits option.splits)

lemma opt_str_field_text: "opt_str_field k kvs = Some (Some s) \<Longrightarrow> text_ok s"
  by (auto simp: opt_str_field_def split: option.splits json.splits if_splits)

lemma declared_request_id:
  "declared_request j = Some r \<Longrightarrow> rq_request_id r = Some s \<Longrightarrow> text_ok s"
  by (auto simp: declared_request_def split: json.splits if_splits option.splits
      dest: opt_str_field_text)

text \<open>The instance that enforces exactly the declarations and prints compact JSON.\<close>

definition opt_item :: "string \<Rightarrow> pystr option \<Rightarrow> jobj" where
  "opt_item k v = (case v of None \<Rightarrow> [] | Some s \<Rightarrow> [(u k, JStr s)])"

definition request_json :: "scan_request \<Rightarrow> json" where
  "request_json r =
     JObj ([(u ''tenant_id'', JStr (rq_tenant_id r))] @ opt_item ''request_id'' (rq_request_id r)
       @ opt_item ''filename'' (rq_filename r) @ opt_item ''mime'' (rq_mime r)
       @ opt_item ''file_base64'' (rq_file_base64 r)
       @ opt_item ''extracted_text'' (rq_extracted_text r)
       @ [(u ''metadata'', JObj (rq_metadata r))])"

definition declared_libs :: libs where
  "declared_libs =
     \<lparr>lib_fields = (\<lambda>j. case declared_request j of None \<Rightarrow> Inl [] | Some r \<Rightarrow> Inr r),
      lib_validator_errors = (\<lambda>_. []),
      lib_response_ok = declared_response,
      lib_content = (\<lambda>r. encodeE (json_dumps (request_json r)))\<rparr>"

interpretation declared: libs_contract declared_libs
  by unfold_locales (auto simp: declared_libs_def)

section \<open>Error envelope\<close>

definition opt_json :: "pystr option \<Rightarrow> json" where
  "opt_json s = (case s of None \<Rightarrow> JNull | Some t \<Rightarrow> JStr t)"

definition error_payload :: "pystr option \<Rightarrow> string \<Rightarrow> json \<Rightarrow> jobj \<Rightarrow> json" where
  "error_payload request_id code message details =
     JObj [(u ''request_id'', opt_json request_id),
           (u ''error'',
            JObj [(u ''code'', JStr (u code)), (u ''message'', message),
                  (u ''details'', JObj details)])]"

definition http_error ::
  "int \<Rightarrow> string \<Rightarrow> string \<Rightarrow> pystr option \<Rightarrow> jobj \<Rightarrow> exn" where
  "http_error status_code code message request_id details =
     HTTPException status_code (error_payload request_id code (JStr (u message)) details)"

text \<open>The body FastAPI sends for a response (\<open>response_model=ScanAttachmentResponse\<close>).\<close>

definition response_json :: "scan_response \<Rightarrow> json" where
  "response_json r =
     JObj [(u ''request_id'', JStr (rs_request_id r)), (u ''tenant_id'', JStr (rs_tenant_id r)),
           (u ''risk_score'', JInt (rs_risk_score r)), (u ''verdict'', JStr (rs_verdict r)),
           (u ''reasons'', JArr (map JStr (rs_reasons r))),
           (u ''evidence_id'', JStr (rs_evidence_id r)),
           (u ''policy_trace'', JObj (rs_policy_trace r)),
           (u ''attestation'', case rs_attestation r of None \<Rightarrow> JNull | Some a \<Rightarrow> JObj a)]"

lemma http_error_inject [simp]:
  "http_error s c m r d = http_error s' c' m' r' d' \<longleftrightarrow>
     s = s' \<and> c = c' \<and> m = m' \<and> r = r' \<and> d = d'"
  by (auto simp: http_error_def error_payload_def opt_json_def split: option.splits)

lemma http_error_not_builtin [simp]:
  "http_error s c m r d \<noteq> TypeError" "TypeError \<noteq> http_error s c m r d"
  "http_error s c m r d \<noteq> UnicodeEncodeError" "UnicodeEncodeError \<noteq> http_error s c m r d"
  by (simp_all add: http_error_def)

text \<open>A concrete payload.\<close>

definition demo_payload :: scan_request where
  "demo_payload =
     \<lparr>rq_tenant_id = u ''t1'', rq_request_id = Some (u ''r1''), rq_filename = None, rq_mime = None,
      rq_file_base64 = None, rq_extracted_text = Some (u ''hi''), rq_metadata = []\<rparr>"

end
