(* ===== verification/Auth.thy ===== *)
theory Auth
  imports Models
begin

text \<open>
  \<open>connector/auth.py\<close>: the API-key check and the HMAC check of a request.  A clock reading
  (\<open>time.time()\<close>) is an argument; \<open>validate_hmac\<close> takes two, its own and the one inside
  the nonce cache, and returns the cache as its second component.
\<close>

record auth_config =
  api_keys :: "pystr list"
  require_hmac :: bool
  hmac_secret :: pystr
  auth_skew_sec :: int

record http_request =
  hr_method :: pystr
  hr_path :: pystr
  hr_headers :: "string \<Rightarrow> pystr option"
  hr_body :: bytes

section \<open>API key\<close>

definition sha256_prefix :: pystr where
  "sha256_prefix = u ''sha256:''"

fun match_api_key :: "pystr \<Rightarrow> pystr list \<Rightarrow> exn + bool" where
  "match_api_key key [] = Inr False"
| "match_api_key key (configured # rest) =
     (let item = strip configured in
      if item = [] then match_api_key key rest
      else if startswith item sha256_prefix then
        bindE (encodeE key) (\<lambda>kb.
          if sha256_hex kb = lower (strip (after_first 58 item)) then Inr True
          else match_api_key key rest)
      else
        bindE (compare_digest item key) (\<lambda>eq.
          if eq then Inr True else match_api_key key rest))"

definition validate_api_key :: "auth_config \<Rightarrow> pystr option \<Rightarrow> pystr option \<Rightarrow> exn + pystr" where
  "validate_api_key cfg provided request_id =
     (let key = strip (opt_or provided []) in
      if key = [] then Inl (http_error 401 ''unauthorized'' ''missing API key'' request_id [])
      else bindE (match_api_key key (api_keys cfg)) (\<lambda>ok.
        if ok then Inr key
        else Inl (http_error 401 ''unauthorized'' ''invalid API key'' request_id [])))"

section \<open>HMAC\<close>

definition header :: "http_request \<Rightarrow> string \<Rightarrow> pystr" where
  "header req name = strip (case hr_headers req name of None \<Rightarrow> [] | Some v \<Rightarrow> v)"

definition make_replay_key :: "pystr \<Rightarrow> pystr \<Rightarrow> pystr \<Rightarrow> exn + pystr" where
  "make_replay_key tenant_id api_key nonce =
     bindE (encodeE api_key) (\<lambda>kb.
     bindE (encodeE (tenant_id @ 124 # sha256_hex kb @ 124 # nonce)) (\<lambda>b.
     Inr (sha256_hex b)))"

definition request_canonical :: "http_request \<Rightarrow> scan_request \<Rightarrow> pystr" where
  "request_canonical req payload =
     build_canonical_string (hr_method req) (hr_path req) (sha256_hex (hr_body req))
       (rq_tenant_id payload) (opt_or (rq_request_id payload) [])
       (header req ''X-Timestamp'') (header req ''X-Nonce'')"

text \<open>Everything up to the nonce cache: the replay key, or the exception raised.\<close>

definition hmac_gate ::
  "auth_config \<Rightarrow> http_request \<Rightarrow> scan_request \<Rightarrow> pystr \<Rightarrow> real \<Rightarrow> exn + pystr" where
  "hmac_gate cfg req payload provided_api_key now =
     (let sig = header req ''X-Signature'';
          ts_raw = header req ''X-Timestamp'';
          nonce = header req ''X-Nonce'';
          fail = (\<lambda>code message. Inl (http_error 401 code message (rq_request_id payload) []))
      in if sig = [] \<or> ts_raw = [] \<or> nonce = [] then
           fail ''invalid_signature'' ''missing signature headers''
         else
           (case py_int_str ts_raw of
              None \<Rightarrow> fail ''invalid_signature'' ''invalid timestamp''
            | Some ts_i \<Rightarrow>
                if auth_skew_sec cfg < \<bar>trunc now - ts_i\<bar> then
                  fail ''stale_timestamp'' ''timestamp outside accepted skew''
                else if hmac_secret cfg = [] then
                  fail ''invalid_signature'' ''server hmac secret not configured''
                else
                  bindE (sign_canonical (request_canonical req payload) (hmac_secret cfg)) (\<lambda>expected.
                  bindE (compare_digest expected sig) (\<lambda>same.
                    if \<not> same then fail ''invalid_signature'' ''signature verification failed''
                    else make_replay_key (rq_tenant_id payload) provided_api_key nonce))))"

definition validate_hmac ::
  "auth_config \<Rightarrow> http_request \<Rightarrow> scan_request \<Rightarrow> pystr \<Rightarrow> real \<Rightarrow> real \<Rightarrow> nonce_replay_cache
     \<Rightarrow> (exn + unit) \<times> nonce_replay_cache" where
  "validate_hmac cfg req payload provided_api_key now_auth now_cache c =
     (if \<not> require_hmac cfg then (Inr (), c)
      else
        (case hmac_gate cfg req payload provided_api_key now_auth of
           Inl e \<Rightarrow> (Inl e, c)
         | Inr replay_key \<Rightarrow>
             (case check_and_mark now_cache replay_key c of
                (True, c') \<Rightarrow> (Inr (), c')
              | (False, c') \<Rightarrow>
                  (Inl (http_error 409 ''replay_detected'' ''nonce already used''
                          (rq_request_id payload) []), c'))))"

section \<open>Facts about the API key check\<close>

lemma lower_sha256_hex [simp]: "lower (sha256_hex d) = sha256_hex d"
proof -
  have "lower_cp c = [c]" if "c \<in> set (sha256_hex d)" for c
    using hex_range that by (fastforce simp: sha256_hex_def lower_cp_def)
  then have "map lower_cp (sha256_hex d) = map (\<lambda>c. [c]) (sha256_hex d)" by (intro map_cong) auto
  then show ?thesis by (simp only: lower_def concat_map_singleton map_ident)
qed

definition key_matches :: "pystr \<Rightarrow> pystr \<Rightarrow> bool" where
  "key_matches key configured \<longleftrightarrow>
     (let item = strip configured in
      item \<noteq> [] \<and>
      (if startswith item sha256_prefix then
         (case encodeE key of
            Inl _ \<Rightarrow> False
          | Inr kb \<Rightarrow> sha256_hex kb = lower (strip (after_first 58 item)))
       else item = key))"

lemma match_api_key_True:
  "match_api_key key ks = Inr True \<Longrightarrow> \<exists>k\<in>set ks. key_matches key k"
proof (induction ks)
  case (Cons k ks)
  then show ?case
    by (auto simp: Let_def exn_simps key_matches_def compare_digest_def split: if_splits)
qed simp

lemma match_api_key_ascii:
  assumes "is_ascii key" and "\<forall>k\<in>set ks. is_ascii (strip k)"
  shows "match_api_key key ks = Inr (\<exists>k\<in>set ks. key_matches key k)"
  using assms(2)
proof (induction ks)
  case (Cons k ks)
  obtain kb where kb: "encodeE key = Inr kb"
    using encodeE_scalar is_ascii_scalar [OF assms(1)] by blast
  with Cons assms(1) show ?case
    by (auto simp: Let_def key_matches_def compare_digest_def)
qed simp

lemma validate_api_key_Inr:
  assumes "validate_api_key cfg provided rid = Inr key"
  shows "key = strip (opt_or provided [])" "key \<noteq> []" "\<exists>k\<in>set (api_keys cfg). key_matches key k"
  using assms match_api_key_True
  by (auto simp: validate_api_key_def Let_def exn_simps split: if_splits)

lemma match_api_key_no_keys: "\<forall>k\<in>set ks. strip k = [] \<Longrightarrow> match_api_key key ks = Inr False"
  by (induction ks) auto

section \<open>Facts about the HMAC check\<close>

lemma header_stripped [simp]: "strip (header req name) = header req name"
  by (simp add: header_def)

text \<open>What a request must satisfy to reach the nonce cache.\<close>

lemma hmac_gate_Inr:
  "hmac_gate cfg req payload key now = Inr rk \<longleftrightarrow>
     header req ''X-Signature'' \<noteq> [] \<and> header req ''X-Timestamp'' \<noteq> [] \<and> header req ''X-Nonce'' \<noteq> [] \<and>
     (\<exists>ts. py_int_str (header req ''X-Timestamp'') = Some ts \<and> \<bar>trunc now - ts\<bar> \<le> auth_skew_sec cfg) \<and>
     hmac_secret cfg \<noteq> [] \<and>
     sign_canonical (request_canonical req payload) (hmac_secret cfg) = Inr (header req ''X-Signature'') \<and>
     make_replay_key (rq_tenant_id payload) key (header req ''X-Nonce'') = Inr rk"
proof -
  have sig: "bindE (sign_canonical c s) (\<lambda>expected. bindE (compare_digest expected sg) (\<lambda>same.
      if \<not> same then Inl e else m)) = Inr rk \<longleftrightarrow> sign_canonical c s = Inr sg \<and> m = Inr rk"
    for c s sg e and m :: "exn + pystr"
    using sign_canonical_shape(3)
    by (auto simp: exn_simps compare_digest_def)
  show ?thesis
    unfolding hmac_gate_def Let_def
    by (auto simp: sig not_le [symmetric] split: option.splits if_splits)
qed

lemma validate_hmac_ok_iff:
  "fst (validate_hmac cfg req payload key n1 n2 c) = Inr () \<longleftrightarrow>
     \<not> require_hmac cfg \<or>
     (\<exists>rk. hmac_gate cfg req payload key n1 = Inr rk \<and> fst (check_and_mark n2 rk c))"
  by (auto simp: validate_hmac_def split: sum.splits prod.splits bool.splits)

lemma validate_hmac_state:
  "snd (validate_hmac cfg req payload key n1 n2 c) =
     (case hmac_gate cfg req payload key n1 of
        Inl e \<Rightarrow> c
      | Inr rk \<Rightarrow> if require_hmac cfg then snd (check_and_mark n2 rk c) else c)"
  by (auto simp: validate_hmac_def split: sum.splits prod.splits bool.splits)

text \<open>A sequence of validations acts on the cache as the checks of those that reach it.\<close>

record auth_call =
  ac_request :: http_request
  ac_payload :: scan_request
  ac_key :: pystr
  ac_now :: real
  ac_cache_now :: real

fun run_validations :: "auth_config \<Rightarrow> auth_call list \<Rightarrow> nonce_replay_cache \<Rightarrow> nonce_replay_cache" where
  "run_validations cfg [] c = c"
| "run_validations cfg (x # xs) c =
     run_validations cfg xs
       (snd (validate_hmac cfg (ac_request x) (ac_payload x) (ac_key x) (ac_now x) (ac_cache_now x) c))"

fun reaching :: "auth_config \<Rightarrow> auth_call list \<Rightarrow> (real \<times> pystr) list" where
  "reaching cfg [] = []"
| "reaching cfg (x # xs) =
     (case hmac_gate cfg (ac_request x) (ac_payload x) (ac_key x) (ac_now x) of
        Inl _ \<Rightarrow> reaching cfg xs
      | Inr rk \<Rightarrow> (ac_cache_now x, rk) # reaching cfg xs)"

lemma run_validations_checks:
  "require_hmac cfg \<Longrightarrow>
     run_validations cfg xs c = run_checks check_and_mark (reaching cfg xs) c"
  by (induction xs arbitrary: c) (auto simp: validate_hmac_state split: sum.splits)

lemma length_reaching: "length (reaching cfg xs) \<le> length xs"
  by (induction xs) (auto split: sum.splits)

lemma set_reaching: "set (map fst (reaching cfg xs)) \<subseteq> set (map ac_cache_now xs)"
  by (induction xs) (auto split: sum.splits)

lemma sorted_reaching: "sorted (map ac_cache_now xs) \<Longrightarrow> sorted (map fst (reaching cfg xs))"
proof (induction xs)
  case (Cons x xs)
  then show ?case using set_reaching [of cfg xs] by (auto split: sum.splits)
qed simp

text \<open>A timestamp accepted at both ends of an interval bounds the interval.\<close>

lemma skew_window:
  assumes "0 \<le> n" "0 \<le> n'" "\<bar>trunc n - ts\<bar> \<le> skew" "\<bar>trunc n' - ts\<bar> \<le> skew"
  shows "n' < n + of_int (2 * skew + 1)"
proof -
  have "\<lfloor>n'\<rfloor> \<le> \<lfloor>n\<rfloor> + 2 * skew"
    using assms by (simp add: trunc_nonneg abs_le_iff)
  then have "of_int \<lfloor>n'\<rfloor> \<le> (of_int \<lfloor>n\<rfloor> + of_int (2 * skew) :: real)"
    by (simp only: of_int_add [symmetric] of_int_le_iff)
  moreover have "n' < of_int \<lfloor>n'\<rfloor> + 1" by linarith
  moreover have "of_int \<lfloor>n\<rfloor> \<le> n" by (rule of_int_floor_le)
  ultimately show ?thesis unfolding of_int_add of_int_1 by linarith
qed

text \<open>A request carrying the signature of its own canonical string under a secret.\<close>

definition add_header :: "http_request \<Rightarrow> string \<Rightarrow> pystr \<Rightarrow> http_request" where
  "add_header req name v = req\<lparr>hr_headers := (hr_headers req)(name \<mapsto> v)\<rparr>"

definition signed :: "pystr \<Rightarrow> http_request \<Rightarrow> scan_request \<Rightarrow> http_request" where
  "signed secret req payload =
     (case sign_canonical (request_canonical req payload) secret of
        Inl _ \<Rightarrow> req
      | Inr s \<Rightarrow> add_header req ''X-Signature'' s)"

lemma header_add_header [simp]:
  "header (add_header req n v) n = strip v"
  "n \<noteq> n' \<Longrightarrow> header (add_header req n v) n' = header req n'"
  "hr_method (add_header req n v) = hr_method req" "hr_path (add_header req n v) = hr_path req"
  "hr_body (add_header req n v) = hr_body req"
  by (simp_all add: header_def add_header_def)

lemma request_canonical_add_signature [simp]:
  "request_canonical (add_header req ''X-Signature'' s) payload = request_canonical req payload"
  by (simp add: request_canonical_def)

lemma header_signed [simp]:
  "n \<noteq> ''X-Signature'' \<Longrightarrow> header (signed secret req payload) n = header req n"
  by (simp add: signed_def split: sum.split)

lemma make_replay_key_Inr:
  "(\<exists>rk. make_replay_key tenant key nonce = Inr rk) \<longleftrightarrow>
     text_ok tenant \<and> text_ok key \<and> text_ok nonce"
proof -
  have "scalar c" if "c \<in> set (sha256_hex d)" for c d
    using is_ascii_scalar sha256_hex_facts(2) that by blast
  then have enc: "(\<exists>bs. encodeE (tenant @ 124 # sha256_hex kb @ 124 # nonce) = Inr bs) \<longleftrightarrow>
      text_ok tenant \<and> text_ok nonce" for kb
    unfolding encodeE_scalar by (auto simp: text_ok_def scalar_def)
  have "(\<exists>rk. make_replay_key tenant key nonce = Inr rk) \<longleftrightarrow>
      (\<exists>kb. encodeE key = Inr kb \<and>
        (\<exists>bs. encodeE (tenant @ 124 # sha256_hex kb @ 124 # nonce) = Inr bs))"
    by (auto simp: make_replay_key_def exn_simps)
  then show ?thesis unfolding enc using encodeE_scalar [of key] by (auto simp: text_ok_def)
qed

lemma hmac_gate_signed:
  assumes "header req ''X-Timestamp'' \<noteq> []" "header req ''X-Nonce'' \<noteq> []" "hmac_secret cfg \<noteq> []"
    and "py_int_str (header req ''X-Timestamp'') = Some ts" "\<bar>trunc now - ts\<bar> \<le> auth_skew_sec cfg"
    and "text_ok (request_canonical req payload)" "text_ok (hmac_secret cfg)"
  shows "hmac_gate cfg (signed (hmac_secret cfg) req payload) payload key now =
    make_replay_key (rq_tenant_id payload) key (header req ''X-Nonce'')"
proof -
  obtain s where s: "sign_canonical (request_canonical req payload) (hmac_secret cfg) = Inr s"
    using sign_canonical_ok assms(6,7) unfolding text_ok_def by blast
  note sh = sign_canonical_shape [OF s]
  show ?thesis
    using assms(1-5) s sh
    by (simp add: hmac_gate_def Let_def signed_def compare_digest_def)
qed

text \<open>What the gate can raise.\<close>

lemma hmac_gate_Inl:
  assumes "hmac_gate cfg req payload key now = Inl e"
  shows "(\<exists>code message. e = http_error 401 code message (rq_request_id payload) []) \<or>
    e = TypeError \<and> \<not> is_ascii (header req ''X-Signature'') \<or>
    e = UnicodeEncodeError \<and>
      \<not> (text_ok (request_canonical req payload) \<and> text_ok (hmac_secret cfg) \<and>
         text_ok (rq_tenant_id payload) \<and> text_ok key \<and> text_ok (header req ''X-Nonce''))"
proof -
  have s1: "e' = UnicodeEncodeError \<and> \<not> (text_ok c \<and> text_ok k)" if "sign_canonical c k = Inl e'" for c k e'
  proof
    show "e' = UnicodeEncodeError"
      using that by (auto simp: sign_canonical_def exn_simps dest: encodeE_Inl)
    show "\<not> (text_ok c \<and> text_ok k)"
      using that sign_canonical_ok [of c k] unfolding text_ok_def by force
  qed
  have s2: "e' = UnicodeEncodeError \<and> \<not> (text_ok t \<and> text_ok k \<and> text_ok n)"
    if "make_replay_key t k n = Inl e'" for t k n e'
    using that make_replay_key_Inr [of t k n]
    by (auto simp: make_replay_key_def exn_simps dest: encodeE_Inl)
  have s3: "is_ascii s" if "sign_canonical c k = Inr s" for c k s
    using sign_canonical_shape(3) [OF that] .
  show ?thesis
    using assms unfolding hmac_gate_def Let_def
    by (auto simp: exn_simps compare_digest_def s3 split: option.splits if_splits dest!: s1 s2)
qed

text \<open>A concrete configuration and request for \<open>demo_payload\<close>.\<close>

definition demo_cfg :: auth_config where
  "demo_cfg = \<lparr>api_keys = [u ''k1''], require_hmac = True, hmac_secret = u ''s3cret'', auth_skew_sec = 300\<rparr>"

definition demo_body :: bytes where
  "demo_body = map byte_of (u ''{\"tenant_id\":\"t1\",\"request_id\":\"r1\",\"extracted_text\":\"hi\"}'')"

definition demo_request :: "string \<Rightarrow> http_request" where
  "demo_request ts =
     \<lparr>hr_method = u ''POST'', hr_path = u ''/v1/scan/attachment'',
      hr_headers = [''X-API-Key'' \<mapsto> u ''k1'', ''X-Timestamp'' \<mapsto> u ts, ''X-Nonce'' \<mapsto> u ''n1''],
      hr_body = demo_body\<rparr>"

definition demo_signed :: "string \<Rightarrow> http_request" where
  "demo_signed ts = signed (hmac_secret demo_cfg) (demo_request ts) demo_payload"

lemma text_ok_strip: "text_ok s \<Longrightarrow> text_ok (strip s)"
  using set_strip by (fastforce simp: text_ok_def)

lemma text_ok_canonical:
  assumes "text_ok (upper m)" "text_ok p" "text_ok h" "text_ok t" "text_ok r" "text_ok ts" "text_ok n"
  shows "text_ok (build_canonical_string m p h t r ts n)"
  using assms [THEN text_ok_strip]
  by (auto simp: build_canonical_string_def text_ok_def scalar_def)

lemma text_ok_hex [simp]: "text_ok (sha256_hex d)"
  using is_ascii_scalar sha256_hex_facts(2) unfolding text_ok_def by blast

lemma demo_header [simp]:
  "header (demo_request ts) ''X-Timestamp'' = strip (u ts)" "header (demo_request ts) ''X-Nonce'' = u ''n1''"
  by (simp_all add: header_def demo_request_def) code_simp

lemma demo_gate:
  assumes "strip (u ts) = u ts" "u ts \<noteq> []" "text_ok (u ts)" "py_int_str (u ts) = Some n"
    "\<bar>trunc now - n\<bar> \<le> 300"
  shows "\<exists>rk. hmac_gate demo_cfg (demo_signed ts) demo_payload (u ''k1'') now = Inr rk"
proof -
  have "text_ok (request_canonical (demo_request ts) demo_payload)"
    unfolding request_canonical_def
  proof (rule text_ok_canonical)
    show "text_ok (upper (hr_method (demo_request ts)))" "text_ok (hr_path (demo_request ts))"
      "text_ok (rq_tenant_id demo_payload)" "text_ok (opt_or (rq_request_id demo_payload) [])"
      by (simp_all add: demo_request_def demo_payload_def) code_simp+
  qed (use assms(1,3) in \<open>simp_all, code_simp\<close>)
  moreover have "text_ok (hmac_secret demo_cfg)" "hmac_secret demo_cfg \<noteq> []" "auth_skew_sec demo_cfg = 300"
    by (simp_all add: demo_cfg_def) code_simp+
  ultimately have "hmac_gate demo_cfg (demo_signed ts) demo_payload (u ''k1'') now =
      make_replay_key (rq_tenant_id demo_payload) (u ''k1'') (u ''n1'')"
    unfolding demo_signed_def using assms
    by (subst hmac_gate_signed [of _ _ n]) auto
  moreover have "text_ok (rq_tenant_id demo_payload)" "text_ok (u ''k1'')" "text_ok (u ''n1'')"
    by code_simp+
  ultimately show ?thesis using make_replay_key_Inr by metis
qed

lemma demo_1000:
  "strip (u ''1000'') = u ''1000''" "u ''1000'' \<noteq> []" "text_ok (u ''1000'')"
  "py_int_str (u ''1000'') = Some 1000"
  by code_simp+

lemma demo_first:
  assumes "strip (u ts) = u ts" "u ts \<noteq> []" "text_ok (u ts)" "py_int_str (u ts) = Some n"
    "\<bar>trunc now - n\<bar> \<le> 300"
  shows "fst (validate_hmac demo_cfg (demo_signed ts) demo_payload (u ''k1'') now now (new_cache ttl 5)) = Inr ()"
proof -
  obtain rk where "hmac_gate demo_cfg (demo_signed ts) demo_payload (u ''k1'') now = Inr rk"
    using demo_gate [OF assms] by blast
  then show ?thesis
    by (simp add: validate_hmac_ok_iff fst_check)
qed

text \<open>A signature header outside ASCII makes \<open>compare_digest\<close> raise.\<close>

lemma demo_non_ascii_signature:
  "fst (validate_hmac demo_cfg (add_header (demo_signed ''1000'') ''X-Signature'' [233]) demo_payload (u ''k1'')
     1000 1000 (new_cache 600 5)) = Inl TypeError"
proof -
  let ?req = "add_header (demo_signed ''1000'') ''X-Signature'' [233]"
  have "hmac_secret demo_cfg \<noteq> []" "require_hmac demo_cfg" "auth_skew_sec demo_cfg = 300"
    by (simp_all add: demo_cfg_def)
  moreover have "strip [233] = [233]" by code_simp
  moreover obtain rk where gate: "hmac_gate demo_cfg (demo_signed ''1000'') demo_payload (u ''k1'') 1000 = Inr rk"
    using demo_gate [OF demo_1000, of 1000] by (auto simp: trunc_nonneg)
  then obtain s where "sign_canonical (request_canonical (demo_signed ''1000'') demo_payload)
      (hmac_secret demo_cfg) = Inr s"
    by (auto simp: hmac_gate_Inr)
  moreover have "header (demo_signed ''1000'') ''X-Timestamp'' = u ''1000''"
    "header (demo_signed ''1000'') ''X-Nonce'' = u ''n1''"
    by (simp_all add: demo_signed_def demo_1000)
  ultimately show ?thesis
    by (simp add: validate_hmac_def hmac_gate_def Let_def demo_1000 compare_digest_def trunc_nonneg)
qed

lemma hmac_failures:
  assumes "fst (validate_hmac cfg req payload key now c_now c) = Inl e"
  shows "(\<exists>code message. e = http_error 401 code message (rq_request_id payload) []) \<or>
    e = http_error 409 ''replay_detected'' ''nonce already used'' (rq_request_id payload) [] \<or>
    e = TypeError \<and> \<not> is_ascii (header req ''X-Signature'') \<or>
    e = UnicodeEncodeError \<and>
      \<not> (text_ok (request_canonical req payload) \<and> text_ok (hmac_secret cfg) \<and>
         text_ok (rq_tenant_id payload) \<and> text_ok key \<and> text_ok (header req ''X-Nonce''))"
proof (cases "hmac_gate cfg req payload key now")
  case (Inl e')
  with assms have "e' = e" by (auto simp: validate_hmac_def split: if_splits)
  with hmac_gate_Inl [OF Inl] show ?thesis by blast
next
  case (Inr rk)
  with assms show ?thesis by (auto simp: validate_hmac_def split: if_splits prod.splits bool.splits)
qed

section \<open>Properties\<close>

text \<open>C9: No replay. Once the validator has accepted a request, it accepts no request with the same
  tenant, API key, nonce and timestamp again, at any later time, whatever fewer than
  \<open>max_entries\<close> validations happen in between, provided the nonce TTL exceeds twice the accepted
  skew by more than a second plus the delay \<open>d\<close> between the two clock readings of a validation.\<close>

theorem signed_request_not_replayed:
  assumes hmac: "require_hmac cfg" and inv: "1 \<le> m" "cache_inv ttl m start c" "start \<le> c1"
    and first: "fst (validate_hmac cfg req payload key n1 c1 c) = Inr ()"
    and same: "header req' ''X-Timestamp'' = header req ''X-Timestamp''"
      "header req' ''X-Nonce'' = header req ''X-Nonce''" "rq_tenant_id payload' = rq_tenant_id payload"
    and clocks: "0 \<le> n1" "n1 \<le> c1" "0 \<le> n2" "c2 \<le> n2 + d" "sorted (c1 # map ac_cache_now xs @ [c2])"
    and ttl: "of_int (2 * auth_skew_sec cfg + 1) + d \<le> of_int ttl" and few: "int (length xs) < m"
  shows "fst (validate_hmac cfg req' payload' key n2 c2
    (run_validations cfg xs (snd (validate_hmac cfg req payload key n1 c1 c)))) \<noteq> Inr ()"
proof
  let ?c = "snd (validate_hmac cfg req payload key n1 c1 c)"
  assume second: "fst (validate_hmac cfg req' payload' key n2 c2 (run_validations cfg xs ?c)) = Inr ()"
  obtain rk where g1: "hmac_gate cfg req payload key n1 = Inr rk" and ok: "fst (check_and_mark c1 rk c)"
    using first hmac by (auto simp: validate_hmac_ok_iff)
  obtain rk' where g2: "hmac_gate cfg req' payload' key n2 = Inr rk'"
    and ok2: "fst (check_and_mark c2 rk' (run_validations cfg xs ?c))"
    using second hmac by (auto simp: validate_hmac_ok_iff)
  have rk: "rk' = rk" using g1 g2 same by (simp add: hmac_gate_Inr)
  have "n2 < n1 + of_int (2 * auth_skew_sec cfg + 1)"
    using g1 g2 same(1) skew_window [OF clocks(1,3)] by (auto simp only: hmac_gate_Inr option.inject)
  then have "c2 < c1 + of_int ttl" using clocks(2,4) ttl by linarith
  moreover have "sorted (c1 # map fst (reaching cfg xs) @ [c2])"
    using clocks(5) sorted_reaching [of xs cfg] set_reaching [of cfg xs] by (auto simp: sorted_append)
  moreover have "length (reaching cfg xs) \<le> nat (m - 1)"
    using few length_reaching [of cfg xs] by linarith
  moreover have "?c = snd (check_and_mark c1 rk c)" using g1 hmac by (simp add: validate_hmac_state)
  ultimately have "\<not> fst (check_and_mark c2 rk (run_validations cfg xs ?c))"
    using nonce_cache.no_replay [of m ttl start c c1 rk "reaching cfg xs" c2] inv ok hmac
    by (simp add: run_validations_checks)
  with ok2 rk show False by simp
qed

theorem signed_request_not_replayed_witness:
  "fst (validate_hmac demo_cfg (demo_signed ''1000'') demo_payload (u ''k1'') 1200 1200
     (run_validations demo_cfg [] (snd (validate_hmac demo_cfg (demo_signed ''1000'') demo_payload (u ''k1'')
        1000 1000 (new_cache 700 5))))) \<noteq> Inr ()"
proof (rule signed_request_not_replayed [where m = 5 and ttl = 700 and start = 0 and d = 0])
  show "fst (validate_hmac demo_cfg (demo_signed ''1000'') demo_payload (u ''k1'') 1000 1000
      (new_cache 700 5)) = Inr ()"
    using demo_first [of "''1000''" 1000 1000] by (simp add: demo_1000 trunc_nonneg)
qed (simp_all add: cache_inv_new, simp_all add: demo_cfg_def)

text \<open>C24: With the shipped defaults the replay protection has a gap: when the nonce TTL is only twice
  the skew (600 and 300 seconds), a request signed with a timestamp at the future edge of the
  skew is accepted again \<open>2 * skew\<close> seconds after it was first accepted.\<close>

theorem replay_accepted_at_window_edge:
  assumes "require_hmac cfg" "1 \<le> m" "0 \<le> now" "0 \<le> auth_skew_sec cfg"
    and gate: "hmac_gate cfg req payload key now = Inr rk"
    and ts: "py_int_str (header req ''X-Timestamp'') = Some (\<lfloor>now\<rfloor> + auth_skew_sec cfg)"
    and later: "now' = now + of_int (2 * auth_skew_sec cfg)"
  shows "fst (validate_hmac cfg req payload key now now (new_cache (2 * auth_skew_sec cfg) m)) = Inr () \<and>
    fst (validate_hmac cfg req payload key now' now'
      (snd (validate_hmac cfg req payload key now now (new_cache (2 * auth_skew_sec cfg) m)))) = Inr ()"
proof -
  let ?skew = "auth_skew_sec cfg"
  have now': "trunc now' = \<lfloor>now\<rfloor> + 2 * ?skew"
    unfolding later using assms(3,4) by (subst trunc_nonneg) (simp_all only: floor_add_int [symmetric] of_int_0_le_iff add_nonneg_nonneg mult_nonneg_nonneg zero_le_numeral)
  have gate': "hmac_gate cfg req payload key now' = Inr rk"
    using gate ts assms(4) by (auto simp: hmac_gate_Inr now')
  have "entries (snd (check_and_mark now rk (new_cache (2 * ?skew) m))) = [(rk, now')]"
    and "fst (check_and_mark now rk (new_cache (2 * ?skew) m))"
    by (simp_all add: entries_check fst_check later)
  then show ?thesis
    using assms(1,2) gate gate'
    by (auto simp: validate_hmac_ok_iff validate_hmac_state fst_check dest!: cleanup_live)
qed

theorem replay_accepted_at_window_edge_witness:
  "\<exists>cfg req payload key. auth_skew_sec cfg = 300 \<and>
     fst (validate_hmac cfg req payload key 700 700 (new_cache (2 * auth_skew_sec cfg) 5)) = Inr () \<and>
     fst (validate_hmac cfg req payload key 1300 1300
       (snd (validate_hmac cfg req payload key 700 700 (new_cache (2 * auth_skew_sec cfg) 5)))) = Inr ()"
proof -
  obtain rk where "hmac_gate demo_cfg (demo_signed ''1000'') demo_payload (u ''k1'') 700 = Inr rk"
    using demo_gate [OF demo_1000(1-4), of 700] by (auto simp: trunc_nonneg)
  then have "fst (validate_hmac demo_cfg (demo_signed ''1000'') demo_payload (u ''k1'') 700 700
      (new_cache (2 * auth_skew_sec demo_cfg) 5)) = Inr () \<and>
    fst (validate_hmac demo_cfg (demo_signed ''1000'') demo_payload (u ''k1'') 1300 1300
      (snd (validate_hmac demo_cfg (demo_signed ''1000'') demo_payload (u ''k1'') 700 700
        (new_cache (2 * auth_skew_sec demo_cfg) 5)))) = Inr ()"
    by (intro replay_accepted_at_window_edge)
      (auto simp: demo_cfg_def demo_signed_def demo_1000)
  moreover have "auth_skew_sec demo_cfg = 300" by (simp add: demo_cfg_def)
  ultimately show ?thesis by blast
qed

text \<open>C11: Acceptance, exactly: with HMAC required a request is accepted iff its three headers are
  present, the timestamp parses and lies within the skew, a secret is configured, the
  signature header is the signature of the request's canonical string under that secret, and
  its nonce is not among the live ones; the key of the nonce is then in the cache until its TTL.\<close>

theorem hmac_accepted_iff:
  assumes "require_hmac cfg"
  shows "fst (validate_hmac cfg req payload key now c_now c) = Inr () \<longleftrightarrow>
    header req ''X-Signature'' \<noteq> [] \<and> header req ''X-Timestamp'' \<noteq> [] \<and> header req ''X-Nonce'' \<noteq> [] \<and>
    (\<exists>ts. py_int_str (header req ''X-Timestamp'') = Some ts \<and> \<bar>trunc now - ts\<bar> \<le> auth_skew_sec cfg) \<and>
    hmac_secret cfg \<noteq> [] \<and>
    sign_canonical (request_canonical req payload) (hmac_secret cfg) = Inr (header req ''X-Signature'') \<and>
    (\<exists>rk. make_replay_key (rq_tenant_id payload) key (header req ''X-Nonce'') = Inr rk \<and>
       rk \<notin> fst ` set (entries (cleanup c_now c)) \<and>
       entries (snd (validate_hmac cfg req payload key now c_now c)) =
         entries (cleanup c_now c) @ [(rk, c_now + of_int (ttl_sec c))])"
proof
  assume "fst (validate_hmac cfg req payload key now c_now c) = Inr ()"
  then obtain rk where g: "hmac_gate cfg req payload key now = Inr rk"
    and f: "fst (check_and_mark c_now rk c)"
    using assms by (auto simp: validate_hmac_ok_iff)
  then have "entries (snd (validate_hmac cfg req payload key now c_now c)) =
      entries (cleanup c_now c) @ [(rk, c_now + of_int (ttl_sec c))]"
    using assms by (simp add: validate_hmac_state entries_check)
  moreover have "rk \<notin> fst ` set (entries (cleanup c_now c))" using f by (simp add: fst_check)
  ultimately show "header req ''X-Signature'' \<noteq> [] \<and> header req ''X-Timestamp'' \<noteq> [] \<and>
    header req ''X-Nonce'' \<noteq> [] \<and>
    (\<exists>ts. py_int_str (header req ''X-Timestamp'') = Some ts \<and> \<bar>trunc now - ts\<bar> \<le> auth_skew_sec cfg) \<and>
    hmac_secret cfg \<noteq> [] \<and>
    sign_canonical (request_canonical req payload) (hmac_secret cfg) = Inr (header req ''X-Signature'') \<and>
    (\<exists>rk. make_replay_key (rq_tenant_id payload) key (header req ''X-Nonce'') = Inr rk \<and>
       rk \<notin> fst ` set (entries (cleanup c_now c)) \<and>
       entries (snd (validate_hmac cfg req payload key now c_now c)) =
         entries (cleanup c_now c) @ [(rk, c_now + of_int (ttl_sec c))])"
    using g unfolding hmac_gate_Inr by blast
qed (auto simp: validate_hmac_ok_iff fst_check hmac_gate_Inr)

theorem hmac_accepted_iff_witness:
  "fst (validate_hmac demo_cfg (demo_request ''1000'') demo_payload (u ''k1'') 1000 1000 (new_cache 600 5)) \<noteq> Inr ()"
  using hmac_accepted_iff [of demo_cfg "demo_request ''1000''" demo_payload "u ''k1''" 1000 1000 "new_cache 600 5"]
  by (simp add: demo_cfg_def) (simp add: demo_request_def header_def)

text \<open>A request rejected for any reason other than a replay leaves the nonce cache exactly as it
  was, so unsigned, badly signed or stale requests can neither burn a client's nonces nor evict
  entries.\<close>

theorem rejected_request_keeps_cache:
  assumes "fst (validate_hmac cfg req payload key now c_now c) = Inl e"
    and "e \<noteq> http_error 409 ''replay_detected'' ''nonce already used'' (rq_request_id payload) []"
  shows "snd (validate_hmac cfg req payload key now c_now c) = c"
  using assms by (auto simp: validate_hmac_def split: sum.splits prod.splits bool.splits if_splits)

theorem rejected_request_keeps_cache_witness:
  "snd (validate_hmac demo_cfg (demo_request ''1000'') demo_payload (u ''k1'') 1000 1000 (new_cache 600 5)) =
     new_cache 600 5"
  by (rule rejected_request_keeps_cache
      [where e = "http_error 401 ''invalid_signature'' ''missing signature headers'' (rq_request_id demo_payload) []"])
    (simp_all add: validate_hmac_def hmac_gate_def demo_cfg_def demo_request_def header_def)

text \<open>Every way the HMAC check can fail: a 401 envelope carrying the request id, the 409 replay
  envelope, a \<open>TypeError\<close> (only for a signature header with non-ASCII characters), or a
  \<open>UnicodeEncodeError\<close> (only if some input has a character that UTF-8 cannot encode).\<close>

theorem hmac_failure_classes:
  assumes "fst (validate_hmac cfg req payload key now c_now c) = Inl e"
  shows "(\<exists>code message. e = http_error 401 code message (rq_request_id payload) []) \<or>
    e = http_error 409 ''replay_detected'' ''nonce already used'' (rq_request_id payload) [] \<or>
    e = TypeError \<and> \<not> is_ascii (header req ''X-Signature'') \<or>
    e = UnicodeEncodeError \<and>
      \<not> (text_ok (request_canonical req payload) \<and> text_ok (hmac_secret cfg) \<and>
         text_ok (rq_tenant_id payload) \<and> text_ok key \<and> text_ok (header req ''X-Nonce''))"
  using assms by (rule hmac_failures)

theorem hmac_failure_classes_witness:
  "(\<exists>code message. TypeError = http_error 401 code message (rq_request_id demo_payload) []) \<or>
   TypeError = http_error 409 ''replay_detected'' ''nonce already used'' (rq_request_id demo_payload) [] \<or>
   TypeError = TypeError \<and>
     \<not> is_ascii (header (add_header (demo_signed ''1000'') ''X-Signature'' [233]) ''X-Signature'') \<or>
   TypeError = UnicodeEncodeError \<and>
     \<not> (text_ok (request_canonical (add_header (demo_signed ''1000'') ''X-Signature'' [233]) demo_payload) \<and>
        text_ok (hmac_secret demo_cfg) \<and> text_ok (rq_tenant_id demo_payload) \<and> text_ok (u ''k1'') \<and>
        text_ok (header (add_header (demo_signed ''1000'') ''X-Signature'' [233]) ''X-Nonce''))"
  by (rule hmac_failure_classes [where now = 1000 and c_now = 1000 and c = "new_cache 600 5"])
    (rule demo_non_ascii_signature)

text \<open>Completeness: a request that carries a nonce and a timestamp within the skew and is signed
  over its own canonical string with the configured secret is accepted, unless its nonce is
  still live, in which case the answer is 409.\<close>

theorem signed_request_accepted:
  assumes "header req ''X-Timestamp'' \<noteq> []" "header req ''X-Nonce'' \<noteq> []" "hmac_secret cfg \<noteq> []"
    and "py_int_str (header req ''X-Timestamp'') = Some ts" "\<bar>trunc now - ts\<bar> \<le> auth_skew_sec cfg"
    and "text_ok (request_canonical req payload)" "text_ok (hmac_secret cfg)"
    and rk: "make_replay_key (rq_tenant_id payload) key (header req ''X-Nonce'') = Inr rk"
    and "require_hmac cfg"
  shows "fst (validate_hmac cfg (signed (hmac_secret cfg) req payload) payload key now c_now c) =
    (if rk \<in> fst ` set (entries (cleanup c_now c))
     then Inl (http_error 409 ''replay_detected'' ''nonce already used'' (rq_request_id payload) [])
     else Inr ())"
  using hmac_gate_signed [OF assms(1-7), of key] rk assms(9) fst_check [of c_now rk c]
  by (auto simp: validate_hmac_def split: prod.splits bool.splits)

theorem signed_request_accepted_witness:
  "\<exists>rk. fst (validate_hmac demo_cfg (signed (hmac_secret demo_cfg) (demo_request ''1000'') demo_payload)
       demo_payload (u ''k1'') 900 901 (new_cache 600 5)) =
     (if rk \<in> fst ` set (entries (cleanup 901 (new_cache 600 5)))
      then Inl (http_error 409 ''replay_detected'' ''nonce already used'' (rq_request_id demo_payload) [])
      else Inr ())"
proof -
  obtain rk where rk: "hmac_gate demo_cfg (demo_signed ''1000'') demo_payload (u ''k1'') 900 = Inr rk"
    using demo_gate [OF demo_1000, of 900] by (auto simp: trunc_nonneg)
  then have m: "make_replay_key (rq_tenant_id demo_payload) (u ''k1'') (header (demo_request ''1000'') ''X-Nonce'') = Inr rk"
    by (simp add: hmac_gate_Inr demo_signed_def)
  obtain s where "sign_canonical (request_canonical (demo_request ''1000'') demo_payload) (hmac_secret demo_cfg) = Inr s"
    using rk by (auto simp: hmac_gate_Inr demo_signed_def signed_def split: sum.splits)
  then have "text_ok (request_canonical (demo_request ''1000'') demo_payload) \<and> text_ok (hmac_secret demo_cfg)"
    using encodeE_scalar by (fastforce simp: sign_canonical_def exn_simps text_ok_def)
  then show ?thesis
    using signed_request_accepted [of "demo_request ''1000''" demo_cfg 1000 900 demo_payload "u ''k1''" rk 901 "new_cache 600 5"] m
    by (auto simp: demo_1000 trunc_nonneg) (auto simp: demo_cfg_def)
qed

text \<open>The API-key check on ASCII keys, on every branch: a blank key is "missing", a key that
  equals a configured entry or whose SHA-256 digest is configured behind \<open>sha256:\<close> is accepted
  and returned stripped, every other key is "invalid"; blank entries never match.\<close>

theorem api_key_decision:
  assumes "is_ascii (strip (opt_or provided []))" "\<forall>k\<in>set (api_keys cfg). is_ascii (strip k)"
  shows "validate_api_key cfg provided rid =
    (let key = strip (opt_or provided []) in
     if key = [] then Inl (http_error 401 ''unauthorized'' ''missing API key'' rid [])
     else if \<exists>k\<in>set (api_keys cfg). key_matches key k then Inr key
     else Inl (http_error 401 ''unauthorized'' ''invalid API key'' rid []))"
  using match_api_key_ascii [OF assms]
  by (simp add: validate_api_key_def Let_def)

theorem api_key_decision_witness:
  "validate_api_key demo_cfg (Some (u '' k1'')) None = Inr (u ''k1'') \<and>
   validate_api_key demo_cfg (Some (u ''k2'')) None =
     Inl (http_error 401 ''unauthorized'' ''invalid API key'' None [])"
proof -
  have k: "strip (opt_or (Some (u '' k1'')) []) = u ''k1''" "strip (opt_or (Some (u ''k2'')) []) = u ''k2''"
    "strip (u '' k1'') = u ''k1''" "strip (u ''k2'') = u ''k2''" "u ''k1'' \<noteq> []" "u ''k2'' \<noteq> []"
    by code_simp+
  have cfg: "api_keys demo_cfg = [u ''k1'']" by (simp add: demo_cfg_def)
  have m: "key_matches (u ''k1'') (u ''k1'')" "\<not> key_matches (u ''k2'') (u ''k1'')"
    unfolding key_matches_def by code_simp+
  have a: "is_ascii (u ''k1'')" "is_ascii (u ''k2'')" "is_ascii (strip (u ''k1''))" by code_simp+
  show ?thesis
    using api_key_decision [of "Some (u '' k1'')" demo_cfg None]
      api_key_decision [of "Some (u ''k2'')" demo_cfg None] a
    by (simp add: k cfg m Let_def)
qed

text \<open>An operator may configure only the digest of a key: with the single entry
  \<open>sha256:\<close> followed by the digest of a key, that key is accepted, and any accepted key has
  that digest.\<close>

lemma hashed_api_key:
  assumes "api_keys cfg = [sha256_prefix @ sha256_hex kb]" "encodeE key = Inr kb"
    and "strip key = key" "key \<noteq> []"
  shows "validate_api_key cfg (Some key) rid = Inr key \<and>
    (\<forall>other k' kb'. validate_api_key cfg other rid = Inr k' \<and> encodeE k' = Inr kb' \<longrightarrow> sha256 kb' = sha256 kb)"
proof -
  have sp: "\<forall>c\<in>set sha256_prefix. \<not> is_space c" by code_simp
  have item: "strip (sha256_prefix @ sha256_hex kb) = sha256_prefix @ sha256_hex kb"
    using sp sha256_hex_facts(4) by (intro strip_no_space) auto
  have pre: "startswith (sha256_prefix @ sha256_hex kb) sha256_prefix"
    and rest: "after_first 58 (sha256_prefix @ sha256_hex kb) = sha256_hex kb"
    and ne: "sha256_prefix @ sha256_hex kb \<noteq> []"
    by (simp_all add: sha256_prefix_def u_def)
  have match: "match_api_key k [sha256_prefix @ sha256_hex kb] =
      bindE (encodeE k) (\<lambda>kb'. Inr (sha256_hex kb' = sha256_hex kb))" for k
    unfolding match_api_key.simps Let_def item if_P [OF pre] if_not_P [OF ne] rest
    by (rule bindE_cong) (simp_all add: sha256_hex_facts)
  show ?thesis
    unfolding validate_api_key_def Let_def assms(1) match
    using assms(2-4)
    by (auto simp: exn_simps sha256_hex_def split: if_splits)
qed

lemma hashed_api_key_instance:
  "validate_api_key (demo_cfg\<lparr>api_keys := [sha256_prefix @ sha256_hex (map byte_of (u ''k1''))]\<rparr>) (Some (u ''k1'')) None = Inr (u ''k1'')"
  by (rule conjunct1 [OF hashed_api_key [where kb = "map byte_of (u ''k1'')"]])
    (simp, code_simp+)

end
