(* ===== verification/Config.thy ===== *)
theory Config
  imports Py_Exn
begin

text \<open>
  \<open>connector/config.py\<close>: the settings record and its construction from the process
  environment.  The environment is an argument (\<open>os.getenv\<close> as a function).
\<close>

definition as_bool :: "pystr option \<Rightarrow> bool \<Rightarrow> bool" where
  "as_bool val dflt =
     (case val of
        None \<Rightarrow> dflt
      | Some v \<Rightarrow> lower (strip v) \<in> set [u ''1'', u ''true'', u ''yes'', u ''on''])"

definition as_int :: "pystr option \<Rightarrow> int \<Rightarrow> exn + int" where
  "as_int val dflt =
     (case val of
        None \<Rightarrow> Inr dflt
      | Some v \<Rightarrow>
          if strip v = [] then Inr dflt
          else (case py_int_str v of None \<Rightarrow> Inl ValueError | Some n \<Rightarrow> Inr n))"

record settings =
  connector_host :: pystr
  connector_port :: int
  connector_api_keys :: "pystr list"
  connector_require_hmac :: bool
  connector_hmac_secret :: pystr
  connector_fail_mode :: pystr
  connector_debug_document_scan :: bool
  log_level :: pystr
  audit_redaction :: bool
  nonce_ttl_sec :: int
  max_clock_skew_sec :: int
  omega_base_url :: pystr
  omega_api_key :: pystr
  omega_require_hmac :: bool
  omega_hmac_secret :: pystr
  omega_tls_verify :: bool
  omega_ca_cert_path :: pystr
  omega_timeout_ms :: int
  omega_retry_count :: int
  omega_circuit_breaker_fails :: int
  omega_circuit_breaker_reset_sec :: int

type_synonym environ = "string \<Rightarrow> pystr option"

definition getenv_or :: "environ \<Rightarrow> string \<Rightarrow> pystr \<Rightarrow> pystr" where
  "getenv_or env name dflt = (case env name of None \<Rightarrow> dflt | Some v \<Rightarrow> v)"

definition verdicts :: "pystr list" where
  "verdicts = [u ''allow'', u ''quarantine'', u ''block'']"

definition parse_api_keys :: "pystr \<Rightarrow> pystr list" where
  "parse_api_keys keys_raw = map strip (filter (\<lambda>item. strip item \<noteq> []) (split_on 44 keys_raw))"

definition parse_fail_mode :: "pystr \<Rightarrow> pystr" where
  "parse_fail_mode raw =
     (let fail_mode = lower (strip raw)
      in if fail_mode \<notin> set verdicts then u ''quarantine'' else fail_mode)"

definition load_settings :: "environ \<Rightarrow> exn + settings" where
  "load_settings env =
     bindE (as_int (env ''CONNECTOR_PORT'') 18080) (\<lambda>port.
     bindE (as_int (env ''NONCE_TTL_SEC'') 600) (\<lambda>ttl.
     bindE (as_int (env ''MAX_CLOCK_SKEW_SEC'') 300) (\<lambda>skew.
     bindE (as_int (env ''OMEGA_TIMEOUT_MS'') 15000) (\<lambda>timeout.
     bindE (as_int (env ''OMEGA_RETRY_COUNT'') 2) (\<lambda>retry.
     bindE (as_int (env ''OMEGA_CIRCUIT_BREAKER_FAILS'') 5) (\<lambda>fails.
     bindE (as_int (env ''OMEGA_CIRCUIT_BREAKER_RESET_SEC'') 30) (\<lambda>reset.
     Inr
       \<lparr>connector_host = getenv_or env ''CONNECTOR_HOST'' (u ''0.0.0.0''),
        connector_port = port,
        connector_api_keys = parse_api_keys (getenv_or env ''CONNECTOR_API_KEYS'' []),
        connector_require_hmac = as_bool (env ''CONNECTOR_REQUIRE_HMAC'') True,
        connector_hmac_secret = getenv_or env ''CONNECTOR_HMAC_SECRET'' [],
        connector_fail_mode =
          parse_fail_mode (getenv_or env ''CONNECTOR_FAIL_MODE'' (u ''quarantine'')),
        connector_debug_document_scan = as_bool (env ''CONNECTOR_DEBUG_DOCUMENT_SCAN'') False,
        log_level = getenv_or env ''LOG_LEVEL'' (u ''INFO''),
        audit_redaction = as_bool (env ''AUDIT_REDACTION'') True,
        nonce_ttl_sec = ttl,
        max_clock_skew_sec = skew,
        omega_base_url = getenv_or env ''OMEGA_BASE_URL'' (u ''http://omega-api:8080''),
        omega_api_key = getenv_or env ''OMEGA_API_KEY'' [],
        omega_require_hmac = as_bool (env ''OMEGA_REQUIRE_HMAC'') True,
        omega_hmac_secret = getenv_or env ''OMEGA_HMAC_SECRET'' [],
        omega_tls_verify = as_bool (env ''OMEGA_TLS_VERIFY'') True,
        omega_ca_cert_path = strip (getenv_or env ''OMEGA_CA_CERT_PATH'' []),
        omega_timeout_ms = timeout,
        omega_retry_count = retry,
        omega_circuit_breaker_fails = fails,
        omega_circuit_breaker_reset_sec = reset\<rparr>)))))))"

section \<open>Facts\<close>

lemma parse_fail_mode_verdict: "parse_fail_mode raw \<in> set verdicts"
  by (auto simp: parse_fail_mode_def Let_def verdicts_def)

lemma parse_fail_mode_allow: "parse_fail_mode raw = u ''allow'' \<Longrightarrow> lower (strip raw) = u ''allow''"
  by (auto simp: parse_fail_mode_def Let_def split: if_splits)

lemma parse_api_keys_facts:
  assumes "k \<in> set (parse_api_keys raw)"
  shows "k \<noteq> []" "strip k = k" "44 \<notin> set k"
proof -
  obtain item where item: "item \<in> set (split_on 44 raw)" "strip item \<noteq> []" "k = strip item"
    using assms by (auto simp: parse_api_keys_def)
  then show "k \<noteq> []" "strip k = k" by simp_all
  show "44 \<notin> set k" using split_on_no_sep [OF item(1)] set_strip item(3) by blast
qed

lemma load_settings_fields:
  assumes "load_settings env = Inr s"
  shows "connector_fail_mode s = parse_fail_mode (getenv_or env ''CONNECTOR_FAIL_MODE'' (u ''quarantine''))"
    "connector_api_keys s = parse_api_keys (getenv_or env ''CONNECTOR_API_KEYS'' [])"
    "connector_require_hmac s = as_bool (env ''CONNECTOR_REQUIRE_HMAC'') True"
    "connector_hmac_secret s = getenv_or env ''CONNECTOR_HMAC_SECRET'' []"
    "as_int (env ''NONCE_TTL_SEC'') 600 = Inr (nonce_ttl_sec s)"
    "as_int (env ''MAX_CLOCK_SKEW_SEC'') 300 = Inr (max_clock_skew_sec s)"
    "audit_redaction s = as_bool (env ''AUDIT_REDACTION'') True"
    "connector_debug_document_scan s = as_bool (env ''CONNECTOR_DEBUG_DOCUMENT_SCAN'') False"
  using assms by (auto simp: load_settings_def exn_simps)

lemma as_int_Inl: "as_int v d = Inl e \<Longrightarrow> e = ValueError"
  by (auto simp: as_int_def split: option.splits if_splits)

definition int_vars :: "(string \<times> int) list" where
  "int_vars = [(''CONNECTOR_PORT'', 18080), (''NONCE_TTL_SEC'', 600), (''MAX_CLOCK_SKEW_SEC'', 300),
     (''OMEGA_TIMEOUT_MS'', 15000), (''OMEGA_RETRY_COUNT'', 2), (''OMEGA_CIRCUIT_BREAKER_FAILS'', 5),
     (''OMEGA_CIRCUIT_BREAKER_RESET_SEC'', 30)]"

text \<open>Loading fails exactly when one of the seven integer variables does not parse.\<close>

lemma load_settings_Inl:
  assumes "load_settings env = Inl e"
  shows "e = ValueError" "\<exists>(v, d)\<in>set int_vars. as_int (env v) d = Inl ValueError"
proof -
  have *: "\<exists>(v, d)\<in>set int_vars. as_int (env v) d = Inl e"
    using assms unfolding load_settings_def bindE_eq_Inl by (auto simp: int_vars_def)
  then show "e = ValueError" using as_int_Inl by auto
  with * show "\<exists>(v, d)\<in>set int_vars. as_int (env v) d = Inl ValueError" by simp
qed

lemma load_settings_Inr_ints:
  assumes "load_settings env = Inr s" and "(v, d) \<in> set int_vars"
  shows "\<exists>n. as_int (env v) d = Inr n"
  using assms unfolding load_settings_def bindE_eq_Inr by (auto simp: int_vars_def)

lemma load_settings_error:
  "load_settings env = Inl e \<longleftrightarrow>
     e = ValueError \<and> (\<exists>(v, d)\<in>set int_vars. as_int (env v) d = Inl ValueError)"
proof (cases "load_settings env")
  case (Inl e')
  then show ?thesis using load_settings_Inl [OF Inl] by auto
next
  case (Inr s)
  then show ?thesis using load_settings_Inr_ints [OF Inr] by fastforce
qed

text \<open>A concrete environment and its settings.\<close>

definition demo_vars :: environ where
  "demo_vars =
     [''CONNECTOR_API_KEYS'' \<mapsto> u '' k1 , ,'', ''CONNECTOR_HMAC_SECRET'' \<mapsto> u ''s3cret'',
      ''CONNECTOR_FAIL_MODE'' \<mapsto> u '' Block'', ''NONCE_TTL_SEC'' \<mapsto> u ''700'',
      ''OMEGA_REQUIRE_HMAC'' \<mapsto> u ''off'', ''OMEGA_RETRY_COUNT'' \<mapsto> u '' 1 '']"

definition demo_settings :: settings where
  "demo_settings =
     \<lparr>connector_host = u ''0.0.0.0'', connector_port = 18080, connector_api_keys = [u ''k1''],
      connector_require_hmac = True, connector_hmac_secret = u ''s3cret'',
      connector_fail_mode = u ''block'', connector_debug_document_scan = False,
      log_level = u ''INFO'', audit_redaction = True, nonce_ttl_sec = 700,
      max_clock_skew_sec = 300, omega_base_url = u ''http://omega-api:8080'', omega_api_key = [],
      omega_require_hmac = False, omega_hmac_secret = [], omega_tls_verify = True,
      omega_ca_cert_path = [], omega_timeout_ms = 15000, omega_retry_count = 1,
      omega_circuit_breaker_fails = 5, omega_circuit_breaker_reset_sec = 30\<rparr>"

lemma demo_load: "load_settings demo_vars = Inr demo_settings"
  by code_simp

section \<open>Properties\<close>

text \<open>Settings that load are well formed whatever the environment holds: the fail mode is one of
  the three verdicts (anything unknown is \<open>quarantine\<close>; \<open>allow\<close> only if the variable says so, up to
  case and surrounding space), and every API key is non-blank, stripped and comma-free.\<close>

theorem settings_well_formed:
  assumes "load_settings env = Inr s"
  shows "connector_fail_mode s \<in> set verdicts \<and>
    (connector_fail_mode s = u ''allow'' \<longrightarrow>
       (\<exists>raw. env ''CONNECTOR_FAIL_MODE'' = Some raw \<and> lower (strip raw) = u ''allow'')) \<and>
    (\<forall>k\<in>set (connector_api_keys s). k \<noteq> [] \<and> strip k = k \<and> 44 \<notin> set k)"
proof -
  have q: "parse_fail_mode (u ''quarantine'') \<noteq> u ''allow''" by code_simp
  show ?thesis
    using parse_fail_mode_verdict parse_api_keys_facts parse_fail_mode_allow q
    by (auto simp: load_settings_fields [OF assms] getenv_or_def split: option.splits)
qed

theorem settings_well_formed_witness:
  "load_settings demo_vars = Inr demo_settings \<and> connector_fail_mode demo_settings \<in> set verdicts \<and>
   connector_api_keys demo_settings = [u ''k1''] \<and> strip (u ''k1'') = u ''k1''"
  using settings_well_formed [OF demo_load] demo_load by (simp add: demo_settings_def)

text \<open>Loading the settings fails exactly when one of the seven integer variables is set, not
  blank, and not an integer; the exception is then \<open>ValueError\<close>.  The
  other variables cannot make it fail.\<close>

theorem load_settings_fails_iff:
  "load_settings env = Inl e \<longleftrightarrow>
     e = ValueError \<and>
     (\<exists>(v, d)\<in>set int_vars. \<exists>raw. env v = Some raw \<and> strip raw \<noteq> [] \<and> py_int_str raw = None)"
proof -
  have "as_int val d = Inl ValueError \<longleftrightarrow> (\<exists>raw. val = Some raw \<and> strip raw \<noteq> [] \<and> py_int_str raw = None)"
    for val d by (auto simp: as_int_def split: option.splits)
  then show ?thesis unfolding load_settings_error by simp
qed

end
