(* ===== verification/Signer.thy ===== *)
theory Signer
  imports Auth
begin

text \<open>
  The contract between a component that signs a request (the Omega client, the SGraph client,
  the signature helper script) and the connector's validator, as the locale \<open>header_signer\<close>:
  which headers a signer makes, and that the validator of \<open>connector/auth.py\<close> with the same
  secret lets the signed request reach its nonce cache.
\<close>

type_synonym headers = "(string \<times> pystr) list"

text \<open>The request a server sees for a POST with these headers and body.\<close>

definition posted :: "pystr \<Rightarrow> bytes \<Rightarrow> headers \<Rightarrow> http_request" where
  "posted path body hs =
     \<lparr>hr_method = u ''POST'', hr_path = path, hr_headers = map_of hs, hr_body = body\<rparr>"

text \<open>\<open>sign path body tenant request_id now nonce\<close> makes the headers; \<open>ok\<close> are the field values
  the signer handles.\<close>

locale header_signer =
  fixes sign :: "pystr \<Rightarrow> bytes \<Rightarrow> pystr \<Rightarrow> pystr \<Rightarrow> real \<Rightarrow> pystr \<Rightarrow> exn + headers"
    and secret :: pystr
    and api_key :: pystr
    and ok :: "pystr \<Rightarrow> bool"
  assumes key_header: "sign path body tenant rid now nonce = Inr hs \<Longrightarrow> map_of hs ''X-API-Key'' = Some api_key"
    and time_header: "sign path body tenant rid now nonce = Inr hs \<Longrightarrow>
      map_of hs ''X-Timestamp'' = Some (py_str_int (trunc now))"
    and nonce_header: "sign path body tenant rid now nonce = Inr hs \<Longrightarrow> map_of hs ''X-Nonce'' = Some nonce"
    and signature_header: "ok path \<Longrightarrow> ok tenant \<Longrightarrow> ok rid \<Longrightarrow> ok nonce \<Longrightarrow>
      sign path body tenant rid now nonce = Inr hs \<Longrightarrow>
      \<exists>s. map_of hs ''X-Signature'' = Some s \<and>
          sign_canonical (build_canonical_string (u ''POST'') path (sha256_hex body) tenant rid
            (py_str_int (trunc now)) nonce) secret = Inr s"
begin

lemma posted_headers:
  assumes "sign path body tenant rid now nonce = Inr hs"
  shows "header (posted path body hs) ''X-Timestamp'' = py_str_int (trunc now)"
    "header (posted path body hs) ''X-Nonce'' = strip nonce"
    "hr_headers (posted path body hs) ''X-API-Key'' = Some api_key"
  using time_header [OF assms] nonce_header [OF assms] key_header [OF assms]
  by (simp_all add: header_def posted_def strip_py_str_int)

text \<open>The validator with the signer's secret lets the request through to the nonce cache.\<close>

lemma gate_accepts:
  assumes sign: "sign path body tenant rid now nonce = Inr hs" and ok: "ok path" "ok tenant" "ok rid" "ok nonce"
    and payload: "rq_tenant_id payload = tenant" "opt_or (rq_request_id payload) [] = rid"
    and secret: "hmac_secret cfg = secret" "secret \<noteq> []" and nonce: "strip nonce \<noteq> []"
    and clock: "\<bar>trunc now_srv - trunc now\<bar> \<le> auth_skew_sec cfg" "\<bar>trunc now\<bar> < 10 ^ 20"
  shows "hmac_gate cfg (posted path body hs) payload key now_srv =
    make_replay_key tenant key (strip nonce)"
proof -
  obtain s where s: "map_of hs ''X-Signature'' = Some s"
    "sign_canonical (build_canonical_string (u ''POST'') path (sha256_hex body) tenant rid
       (py_str_int (trunc now)) nonce) secret = Inr s"
    using signature_header [OF ok sign] by blast
  note shape = sign_canonical_shape [OF s(2)]
  have sig: "header (posted path body hs) ''X-Signature'' = s"
    using s(1) shape(4) by (simp add: header_def posted_def)
  have canon: "request_canonical (posted path body hs) payload =
      build_canonical_string (u ''POST'') path (sha256_hex body) tenant rid (py_str_int (trunc now)) nonce"
    by (simp add: request_canonical_def posted_headers [OF sign] payload build_canonical_string_def)
      (simp add: posted_def)
  have "py_int_str (py_str_int (trunc now)) = Some (trunc now)"
    using clock(2) by (intro py_int_str_of_int [of _ 20]) auto
  moreover have "py_str_int (trunc now) \<noteq> []" by (rule py_str_int_nonempty)
  ultimately show ?thesis
    using s(2) shape clock(1) secret nonce payload(1)
    by (simp add: hmac_gate_def Let_def posted_headers [OF sign] sig canon compare_digest_def)
qed

end

end
