(* ===== verification/Omega_Client.thy ===== *)
theory Omega_Client
  imports Signer
begin

text \<open>
  \<open>connector/omega_client.py\<close>: the upstream client with its circuit breaker, request
  signing, error classification and retry loop.  The network is a function from the number
  of the attempt to what the attempt gives; clock readings and the nonce are inputs.
\<close>

section \<open>Circuit breaker\<close>

record circuit_state =
  failure_count :: int
  opened_until_ts :: real

definition new_circuit :: circuit_state where
  "new_circuit = \<lparr>failure_count = 0, opened_until_ts = 0\<rparr>"

record omega_client =
  oc_base_url :: pystr
  oc_api_key :: pystr
  oc_require_hmac :: bool
  oc_hmac_secret :: pystr
  oc_tls_verify :: bool
  oc_ca_cert_path :: pystr
  oc_timeout_ms :: int
  oc_retry_count :: int
  oc_breaker_fails :: int
  oc_breaker_reset_sec :: int
  oc_state :: circuit_state

definition new_omega_client ::
  "pystr \<Rightarrow> pystr \<Rightarrow> bool \<Rightarrow> pystr \<Rightarrow> bool \<Rightarrow> pystr \<Rightarrow> int \<Rightarrow> int \<Rightarrow> int \<Rightarrow> int \<Rightarrow> omega_client" where
  "new_omega_client base_url api_key req_hmac secret tls_verify ca_cert_path timeout_ms
     retry_count breaker_fails breaker_reset_sec =
     \<lparr>oc_base_url = rstrip_char 47 base_url, oc_api_key = api_key, oc_require_hmac = req_hmac,
      oc_hmac_secret = secret, oc_tls_verify = tls_verify, oc_ca_cert_path = strip ca_cert_path,
      oc_timeout_ms = timeout_ms, oc_retry_count = max 0 retry_count,
      oc_breaker_fails = max 1 breaker_fails, oc_breaker_reset_sec = max 1 breaker_reset_sec,
      oc_state = new_circuit\<rparr>"

definition can_attempt :: "real \<Rightarrow> omega_client \<Rightarrow> bool" where
  "can_attempt now c \<longleftrightarrow> opened_until_ts (oc_state c) \<le> now"

definition record_failure :: "real \<Rightarrow> omega_client \<Rightarrow> omega_client" where
  "record_failure now c =
     (let st = (oc_state c)\<lparr>failure_count := failure_count (oc_state c) + 1\<rparr>
      in c\<lparr>oc_state :=
             if oc_breaker_fails c \<le> failure_count st
             then st\<lparr>opened_until_ts := now + of_int (oc_breaker_reset_sec c)\<rparr> else st\<rparr>)"

definition record_success :: "omega_client \<Rightarrow> omega_client" where
  "record_success c = c\<lparr>oc_state := \<lparr>failure_count = 0, opened_until_ts = 0\<rparr>\<rparr>"

section \<open>Request\<close>



definition omega_headers ::
  "omega_client \<Rightarrow> pystr \<Rightarrow> bytes \<Rightarrow> pystr \<Rightarrow> pystr \<Rightarrow> real \<Rightarrow> pystr \<Rightarrow> exn + headers" where
  "omega_headers c path body tenant_id request_id now nonce =
     (let hs = [(''X-API-Key'', oc_api_key c), (''Content-Type'', u ''application/json'')] in
      if \<not> oc_require_hmac c then Inr hs
      else
        (let ts = py_str_int (trunc now);
             canonical = build_canonical_string (u ''POST'') path (sha256_hex body) tenant_id
                           request_id ts nonce
         in bindE (sign_canonical canonical (oc_hmac_secret c)) (\<lambda>sig.
              Inr (hs @ [(''X-Timestamp'', ts), (''X-Nonce'', nonce), (''X-Signature'', sig)]))))"

datatype verify = VerifyOff | VerifyCa pystr | VerifyOn

definition resolve_verify :: "omega_client \<Rightarrow> verify" where
  "resolve_verify c =
     (if \<not> oc_tls_verify c then VerifyOff
      else if oc_ca_cert_path c \<noteq> [] then VerifyCa (oc_ca_cert_path c)
      else VerifyOn)"

text \<open>An upstream response: \<open>up_json\<close> is the result of \<open>response.json()\<close>, \<open>None\<close> if it raises.\<close>

record upstream_response =
  up_status :: int
  up_json :: "json option"
  up_text :: pystr

definition detail_of :: "json option \<Rightarrow> pystr option" where
  "detail_of data =
     (case data of
        Some (JObj kvs) \<Rightarrow>
          (case map_of kvs (u ''detail'') of
             Some (JStr v) \<Rightarrow> if strip v \<noteq> [] then Some (strip v) else None
           | _ \<Rightarrow> None)
      | _ \<Rightarrow> None)"

definition http_code_str :: "int \<Rightarrow> pystr" where
  "http_code_str n = u ''http_'' @ py_str_int n"

definition detail_code :: "upstream_response \<Rightarrow> pystr" where
  "detail_code r =
     (case detail_of (up_json r) of
        Some d \<Rightarrow> d
      | None \<Rightarrow>
          (let text = strip (up_text r) in
           if text = [] then http_code_str (up_status r)
           else (case detail_of (json_loads text) of
                   Some d \<Rightarrow> d
                 | None \<Rightarrow> http_code_str (up_status r))))"

section \<open>The retry loop\<close>

datatype attempt =
    Answered upstream_response
  | TimedOut
  | ConnFailed pystr
  | OtherFailed pystr

datatype step = Done json | Rejected exn | Failed exn

definition attempt_step :: "attempt \<Rightarrow> step" where
  "attempt_step a =
     (case a of
        Answered r \<Rightarrow>
          if 500 \<le> up_status r then
            Failed (OmegaUnavailableError (u ''omega upstream server error: '' @ py_str_int (up_status r)))
          else if 400 \<le> up_status r then
            Rejected (OmegaRejectedError (up_status r) (detail_code r) (up_text r))
          else (case up_json r of
                  None \<Rightarrow> Failed (OmegaClientError (u ''omega invalid json response''))
                | Some d \<Rightarrow> Done d)
      | TimedOut \<Rightarrow> Failed (OmegaTimeoutError (u ''omega timeout''))
      | ConnFailed m \<Rightarrow> Failed (OmegaUnavailableError (u ''omega upstream connection error: '' @ m))
      | OtherFailed m \<Rightarrow> Failed (LibraryError m))"

text \<open>\<open>post_loop n i net last\<close>: \<open>n\<close> attempts are left, \<open>i\<close> have been made.\<close>

datatype loop_end = Returned json | Raised exn | Exhausted "exn option"

fun post_loop :: "nat \<Rightarrow> nat \<Rightarrow> (nat \<Rightarrow> attempt) \<Rightarrow> exn option \<Rightarrow> loop_end \<times> nat" where
  "post_loop 0 i net last_error = (Exhausted last_error, i)"
| "post_loop (Suc n) i net last_error =
     (case attempt_step (net i) of
        Done d \<Rightarrow> (Returned d, Suc i)
      | Rejected e \<Rightarrow> (Raised e, Suc i)
      | Failed e \<Rightarrow> post_loop n (Suc i) net (Some e))"

definition final_error :: "exn option \<Rightarrow> exn" where
  "final_error last_error =
     (case last_error of
        None \<Rightarrow> OmegaClientError (u ''omega upstream request failed'')
      | Some e \<Rightarrow>
          if is_omega_client_error e then e
          else OmegaClientError (case e of LibraryError m \<Rightarrow> m | _ \<Rightarrow> []))"

record omega_env =
  oe_now_check :: real
  oe_now_sign :: real
  oe_now_fail :: real
  oe_nonce :: pystr
  oe_net :: "nat \<Rightarrow> attempt"

definition scan_path :: "bool \<Rightarrow> pystr" where
  "scan_path debug =
     (if debug then u ''/v1/scan/attachment/document_scan_report'' else u ''/v1/scan/attachment'')"

text \<open>Body and headers of the posts of one scan (the same for every attempt).\<close>

definition prepare_request ::
  "libs \<Rightarrow> omega_client \<Rightarrow> scan_request \<Rightarrow> bool \<Rightarrow> omega_env \<Rightarrow> exn + (bytes \<times> headers)" where
  "prepare_request L c payload debug env =
     bindE (lib_content L payload) (\<lambda>body.
     bindE (omega_headers c (scan_path debug) body (rq_tenant_id payload)
              (opt_or (rq_request_id payload) []) (oe_now_sign env) (oe_nonce env)) (\<lambda>hs.
     Inr (body, hs)))"

text \<open>Result, client after the call, number of posts made.\<close>

definition omega_scan ::
  "libs \<Rightarrow> omega_client \<Rightarrow> scan_request \<Rightarrow> bool \<Rightarrow> omega_env
     \<Rightarrow> (exn + json) \<times> omega_client \<times> nat" where
  "omega_scan L c payload debug env =
     (if \<not> can_attempt (oe_now_check env) c then
        (Inl (OmegaCircuitOpen (u ''omega circuit breaker is open'')), c, 0)
      else
        (case prepare_request L c payload debug env of
           Inl e \<Rightarrow> (Inl e, c, 0)
         | Inr _ \<Rightarrow>
             (case post_loop (nat (oc_retry_count c + 1)) 0 (oe_net env) None of
                (Returned d, n) \<Rightarrow> (Inr d, record_success c, n)
              | (Raised e, n) \<Rightarrow> (Inl e, c, n)
              | (Exhausted last_error, n) \<Rightarrow>
                  (Inl (final_error last_error), record_failure (oe_now_fail env) c, n))))"

section \<open>Facts\<close>

definition decisive :: "attempt \<Rightarrow> bool" where
  "decisive a \<longleftrightarrow> (case attempt_step a of Failed _ \<Rightarrow> False | _ \<Rightarrow> True)"

lemma attempt_step_Failed_error:
  "attempt_step a = Failed e \<Longrightarrow> is_omega_client_error e \<or> (\<exists>m. e = LibraryError m)"
  by (auto simp: attempt_step_def split: attempt.splits if_splits option.splits)

text \<open>How the loop ends when the last attempt it makes gives this step.\<close>

definition end_of :: "step \<Rightarrow> loop_end" where
  "end_of s = (case s of Done d \<Rightarrow> Returned d | Rejected e \<Rightarrow> Raised e | Failed e \<Rightarrow> Exhausted (Some e))"

lemma post_loop_decisive:
  "k < n \<Longrightarrow> decisive (net (i + k)) \<Longrightarrow> \<forall>j<k. \<not> decisive (net (i + j)) \<Longrightarrow>
     post_loop n i net l = (end_of (attempt_step (net (i + k))), Suc (i + k))"
proof (induction k arbitrary: n i l)
  case 0
  then obtain m where "n = Suc m" by (cases n) auto
  with 0 show ?case by (auto simp: decisive_def end_of_def split: step.splits)
next
  case (Suc k)
  then obtain m where n: "n = Suc m" by (cases n) auto
  have "\<not> decisive (net i)" using Suc.prems(3) by force
  then obtain e where e: "attempt_step (net i) = Failed e"
    by (auto simp: decisive_def split: step.splits)
  have "\<forall>j<k. \<not> decisive (net (Suc i + j))"
    using Suc.prems(3) by (auto dest: spec [of _ "Suc _"])
  with Suc.IH [of m "Suc i" "Some e"] Suc.prems n e show ?case by simp
qed

lemma post_loop_exhausted:
  "0 < n \<Longrightarrow> \<forall>j<n. \<not> decisive (net (i + j)) \<Longrightarrow>
     \<exists>e. attempt_step (net (i + n - 1)) = Failed e \<and> post_loop n i net l = (Exhausted (Some e), i + n)"
proof (induction n arbitrary: i l)
  case (Suc n)
  have "\<not> decisive (net i)" using Suc.prems(2) by force
  then obtain e where e: "attempt_step (net i) = Failed e"
    by (auto simp: decisive_def split: step.splits)
  show ?case
  proof (cases "n = 0")
    case True
    with e show ?thesis by simp
  next
    case False
    have "\<forall>j<n. \<not> decisive (net (Suc i + j))"
      using Suc.prems(2) by (auto dest: spec [of _ "Suc _"])
    with Suc.IH [of "Suc i" "Some e"] False e show ?thesis by simp
  qed
qed simp

lemma decisive_cases:
  fixes n :: nat
  obtains (first) k where "k < n" "decisive (net k)" "\<forall>j<k. \<not> decisive (net j)"
  | (never) "\<forall>j<n. \<not> decisive (net j)"
proof (cases "\<exists>k<n. decisive (net k)")
  case True
  then obtain k where k: "k < n \<and> decisive (net k)" by blast
  define k0 where "k0 = (LEAST k. k < n \<and> decisive (net k))"
  have "k0 < n \<and> decisive (net k0)" using k unfolding k0_def by (rule LeastI)
  moreover have "\<not> decisive (net j)" if "j < k0" for j
    using not_less_Least [OF that [unfolded k0_def]] that calculation by auto
  ultimately show ?thesis using first by blast
next
  case False
  then show ?thesis using never by blast
qed

text \<open>The Omega client signs as the validator of \<open>connector/auth.py\<close> checks.\<close>

interpretation omega_signer: header_signer "omega_headers (c\<lparr>oc_require_hmac := True\<rparr>)"
  "oc_hmac_secret c" "oc_api_key c" "\<lambda>_. True" for c
  by unfold_locales (auto simp: omega_headers_def Let_def exn_simps)

text \<open>The client's fields, its breaker state apart, never change.\<close>

definition same_config :: "omega_client \<Rightarrow> omega_client \<Rightarrow> bool" where
  "same_config c d \<longleftrightarrow> d = c\<lparr>oc_state := oc_state d\<rparr>"

lemma same_config_scan: "same_config c (fst (snd (omega_scan L c payload debug env)))"
  by (auto simp: omega_scan_def same_config_def record_success_def record_failure_def Let_def
      split: sum.splits loop_end.splits prod.splits)

text \<open>Errors of the upstream call other than those raised while preparing the request are
  of class \<open>OmegaClientError\<close>.\<close>

lemma is_omega_final_error: "is_omega_client_error (final_error e)"
  by (auto simp: final_error_def split: option.splits)

lemma post_loop_raised:
  "post_loop n i net l = (Raised e, m) \<Longrightarrow> \<exists>s d t. e = OmegaRejectedError s d t \<and> 400 \<le> s \<and> s < 500"
  by (induction n i net l rule: post_loop.induct)
    (auto simp: attempt_step_def split: step.splits attempt.splits if_splits option.splits)

lemma omega_scan_error_class:
  assumes "prepare_request L c payload debug env = Inr x"
    and "fst (omega_scan L c payload debug env) = Inl e"
  shows "is_omega_client_error e"
  using assms is_omega_final_error
  by (auto simp: omega_scan_def split: if_splits loop_end.splits prod.splits dest!: post_loop_raised)

section \<open>Facts about whole scans\<close>

lemma detail_of_nonempty: "detail_of d = Some s \<Longrightarrow> s \<noteq> []"
  by (auto simp: detail_of_def split: option.splits json.splits if_splits)

lemma detail_code_nonempty: "detail_code r \<noteq> []"
  by (auto simp: detail_code_def Let_def http_code_str_def u_def dest: detail_of_nonempty split: option.splits)

lemma attempt_step_Done:
  "attempt_step a = Done d \<longleftrightarrow> (\<exists>r. a = Answered r \<and> up_status r < 400 \<and> up_json r = Some d)"
  by (auto simp: attempt_step_def split: attempt.splits option.splits)

lemma attempt_step_Rejected:
  "attempt_step a = Rejected e \<longleftrightarrow>
     (\<exists>r. a = Answered r \<and> 400 \<le> up_status r \<and> up_status r < 500 \<and>
        e = OmegaRejectedError (up_status r) (detail_code r) (up_text r))"
  by (auto simp: attempt_step_def split: attempt.splits option.splits)

text \<open>The three ways a prepared scan of an admitting client ends.\<close>

lemma scan_cases:
  assumes adm: "can_attempt (oe_now_check env) c" and prep: "prepare_request L c payload debug env = Inr x"
    and retry: "0 \<le> oc_retry_count c"
  obtains
    (done_) k d where "int k \<le> oc_retry_count c" "attempt_step (oe_net env k) = Done d"
      "omega_scan L c payload debug env = (Inr d, record_success c, Suc k)"
  | (rejected) k e where "int k \<le> oc_retry_count c" "attempt_step (oe_net env k) = Rejected e"
      "omega_scan L c payload debug env = (Inl e, c, Suc k)"
  | (exhausted) e where "\<forall>j. int j \<le> oc_retry_count c \<longrightarrow> \<not> decisive (oe_net env j)"
      "attempt_step (oe_net env (nat (oc_retry_count c))) = Failed e"
      "omega_scan L c payload debug env =
         (Inl (final_error (Some e)), record_failure (oe_now_fail env) c, nat (oc_retry_count c) + 1)"
proof -
  let ?n = "nat (oc_retry_count c + 1)"
  show ?thesis
  proof (cases rule: decisive_cases [of ?n "oe_net env"])
    case (first k)
    then have "post_loop ?n 0 (oe_net env) None = (end_of (attempt_step (oe_net env k)), Suc k)"
      using post_loop_decisive [of k ?n "oe_net env" 0 None] by simp
    moreover have k: "int k \<le> oc_retry_count c" using first(1) by linarith
    ultimately show ?thesis
      using first(2) adm prep done_ [OF k] rejected [OF k]
      by (cases "attempt_step (oe_net env k)") (auto simp: omega_scan_def end_of_def decisive_def)
  next
    case never
    have n: "?n = Suc (nat (oc_retry_count c))" using retry by simp
    obtain e where "attempt_step (oe_net env (nat (oc_retry_count c))) = Failed e"
      "post_loop ?n 0 (oe_net env) None = (Exhausted (Some e), ?n)"
      using post_loop_exhausted [of ?n "oe_net env" 0 None] never n by auto
    then show ?thesis using adm prep never n exhausted by (auto simp: omega_scan_def)
  qed
qed

lemma scan_Inr:
  assumes "omega_scan L c payload debug env = (Inr d, c', posts)" and "0 \<le> oc_retry_count c"
  shows "can_attempt (oe_now_check env) c \<and> c' = record_success c \<and>
    (\<exists>k r. posts = Suc k \<and> int k \<le> oc_retry_count c \<and> oe_net env k = Answered r \<and>
       up_status r < 400 \<and> up_json r = Some d)"
proof -
  have adm: "can_attempt (oe_now_check env) c" using assms(1) by (auto simp: omega_scan_def split: if_splits)
  obtain x where prep: "prepare_request L c payload debug env = Inr x"
    using assms(1) by (auto simp: omega_scan_def split: if_splits sum.splits)
  show ?thesis
    using adm prep assms(2)
  proof (cases rule: scan_cases)
    case (done_ k d')
    then show ?thesis using adm assms(1) by (auto simp: attempt_step_Done)
  qed (use assms(1) in auto)
qed

lemma scan_decisive:
  assumes "can_attempt (oe_now_check env) c" "prepare_request L c payload debug env = Inr x"
    and "int k \<le> oc_retry_count c" "decisive (oe_net env k)" "\<forall>j<k. \<not> decisive (oe_net env j)"
  shows "\<exists>r. oe_net env k = Answered r \<and>
    omega_scan L c payload debug env =
      (if up_status r < 400 then (Inr (the (up_json r)), record_success c, Suc k)
       else (Inl (OmegaRejectedError (up_status r) (detail_code r) (up_text r)), c, Suc k))"
proof -
  have "post_loop (nat (oc_retry_count c + 1)) 0 (oe_net env) None =
      (end_of (attempt_step (oe_net env k)), Suc k)"
    using post_loop_decisive [of k "nat (oc_retry_count c + 1)" "oe_net env" 0 None] assms(3-5) by simp
  then have scan: "omega_scan L c payload debug env =
      (case end_of (attempt_step (oe_net env k)) of
         Returned d \<Rightarrow> (Inr d, record_success c, Suc k)
       | Raised e \<Rightarrow> (Inl e, c, Suc k)
       | Exhausted l \<Rightarrow> (Inl (final_error l), record_failure (oe_now_fail env) c, Suc k))"
    using assms(1,2) by (simp add: omega_scan_def split: loop_end.split)
  show ?thesis
  proof (cases "attempt_step (oe_net env k)")
    case (Done d)
    with scan show ?thesis by (auto simp: end_of_def attempt_step_Done)
  next
    case (Rejected e)
    then obtain r where "oe_net env k = Answered r" "400 \<le> up_status r"
      "e = OmegaRejectedError (up_status r) (detail_code r) (up_text r)"
      by (auto simp: attempt_step_Rejected)
    with scan Rejected show ?thesis by (intro exI [of _ r]) (simp add: end_of_def)
  qed (use assms(4) in \<open>simp add: decisive_def\<close>)
qed

lemma scan_never:
  assumes "can_attempt (oe_now_check env) c" "prepare_request L c payload debug env = Inr x"
    and "0 \<le> oc_retry_count c" "\<forall>j. int j \<le> oc_retry_count c \<longrightarrow> \<not> decisive (oe_net env j)"
  shows "\<exists>e. attempt_step (oe_net env (nat (oc_retry_count c))) = Failed e \<and>
    is_omega_client_error (final_error (Some e)) \<and>
    omega_scan L c payload debug env =
      (Inl (final_error (Some e)), record_failure (oe_now_fail env) c, nat (oc_retry_count c) + 1)"
  using assms(1-3)
proof (cases rule: scan_cases)
  case (exhausted e)
  then show ?thesis by (auto simp: is_omega_final_error)
qed (use assms(4) in \<open>auto simp: decisive_def\<close>)

section \<open>A concrete client and network\<close>

definition demo_client :: omega_client where
  "demo_client = new_omega_client (u ''http://omega:8080/'') (u ''k'') False [] True [] 15000 1 2 30"

text \<open>\<open>n\<close> timeouts, then an answer.\<close>

definition demo_env :: "nat \<Rightarrow> upstream_response \<Rightarrow> nat \<Rightarrow> attempt" where
  "demo_env n r i = (if i < n then TimedOut else Answered r)"

definition k200 :: upstream_response where
  "k200 = \<lparr>up_status = 200, up_json = Some (JObj []), up_text = u ''{}''\<rparr>"

definition k404 :: upstream_response where
  "k404 = \<lparr>up_status = 404, up_json = None, up_text = []\<rparr>"

definition demo_scan_env :: "nat \<Rightarrow> upstream_response \<Rightarrow> omega_env" where
  "demo_scan_env n r =
     \<lparr>oe_now_check = 1, oe_now_sign = 2, oe_now_fail = 3, oe_nonce = u ''n'', oe_net = demo_env n r\<rparr>"

lemma demo_facts [simp]:
  "oc_state demo_client = new_circuit" "oc_breaker_fails demo_client = 2"
  "oc_breaker_reset_sec demo_client = 30" "oc_retry_count demo_client = 1"
  "oc_require_hmac demo_client = False" "can_attempt (oe_now_check (demo_scan_env n r)) demo_client"
  "oe_net (demo_scan_env n r) i = (if i < n then TimedOut else Answered r)"
  "oe_now_fail (demo_scan_env n r) = 3"
  by (simp_all add: demo_client_def new_omega_client_def demo_scan_env_def can_attempt_def new_circuit_def demo_env_def)

lemma demo_content: "\<exists>body. lib_content declared_libs demo_payload = Inr body"
proof -
  have "text_ok (json_dumps (request_json demo_payload))" by code_simp
  then show ?thesis using encodeE_scalar by (simp add: declared_libs_def text_ok_def)
qed

lemma demo_prepare:
  "\<exists>x. prepare_request declared_libs demo_client demo_payload debug env = Inr x"
  using demo_content by (auto simp: prepare_request_def omega_headers_def)

section \<open>Properties\<close>

text \<open>C12: The retry loop, when some attempt is decisive (a parsed answer below 400, or a 4xx): the
  first such attempt ends the scan, exactly the attempts up to it are posted, an answer closes
  the breaker, and a 4xx is neither retried nor counted by the breaker.\<close>

theorem scan_first_decisive:
  assumes "can_attempt (oe_now_check env) c" "prepare_request L c payload debug env = Inr x"
    and "int k \<le> oc_retry_count c" "decisive (oe_net env k)" "\<forall>j<k. \<not> decisive (oe_net env j)"
  shows "\<exists>r. oe_net env k = Answered r \<and>
    omega_scan L c payload debug env =
      (if up_status r < 400 then (Inr (the (up_json r)), record_success c, Suc k)
       else (Inl (OmegaRejectedError (up_status r) (detail_code r) (up_text r)), c, Suc k))"
  using assms by (rule scan_decisive)

theorem scan_first_decisive_witness:
  "\<exists>r. demo_env 1 k404 1 = Answered r \<and>
    omega_scan declared_libs demo_client demo_payload False (demo_scan_env 1 k404) =
      (if up_status r < 400 then (Inr (the (up_json r)), record_success demo_client, Suc 1)
       else (Inl (OmegaRejectedError (up_status r) (detail_code r) (up_text r)), demo_client, Suc 1))"
proof -
  obtain x where x: "prepare_request declared_libs demo_client demo_payload False (demo_scan_env 1 k404) = Inr x"
    using demo_prepare by blast
  have "demo_env 1 k404 1 = oe_net (demo_scan_env 1 k404) 1" by (simp add: demo_env_def)
  moreover have "decisive (Answered k404)" "\<not> decisive TimedOut"
    by (simp_all add: decisive_def attempt_step_def k404_def)
  ultimately show ?thesis
    using scan_first_decisive [OF _ x, of 1] by simp
qed

text \<open>The retry loop, when no attempt is decisive: all \<open>retry_count + 1\<close> attempts are posted, the
  error is that of the last one (as an \<open>OmegaClientError\<close>), and the breaker counts one failure
  for the whole scan.\<close>

theorem scan_exhausted:
  assumes "can_attempt (oe_now_check env) c" "prepare_request L c payload debug env = Inr x"
    and "0 \<le> oc_retry_count c" "\<forall>j. int j \<le> oc_retry_count c \<longrightarrow> \<not> decisive (oe_net env j)"
  shows "\<exists>e. attempt_step (oe_net env (nat (oc_retry_count c))) = Failed e \<and>
    is_omega_client_error (final_error (Some e)) \<and>
    omega_scan L c payload debug env =
      (Inl (final_error (Some e)), record_failure (oe_now_fail env) c, nat (oc_retry_count c) + 1)"
  using assms by (rule scan_never)

theorem scan_exhausted_witness:
  "omega_scan declared_libs demo_client demo_payload False (demo_scan_env 5 k404) =
     (Inl (OmegaTimeoutError (u ''omega timeout'')), record_failure 3 demo_client, 2)"
proof -
  obtain x where x: "prepare_request declared_libs demo_client demo_payload False (demo_scan_env 5 k404) = Inr x"
    using demo_prepare by blast
  have "\<forall>j. int j \<le> oc_retry_count demo_client \<longrightarrow> \<not> decisive (oe_net (demo_scan_env 5 k404) j)"
    by (auto simp: demo_facts decisive_def attempt_step_def)
  from scan_exhausted [OF _ x _ this] show ?thesis
    by (auto simp: demo_facts attempt_step_def final_error_def)
qed

text \<open>A scan returns only what the upstream answered: a result is the parsed body of the last
  posted attempt, whose status was below 400, within \<open>retry_count + 1\<close> posts.\<close>

theorem scan_result_from_upstream:
  assumes "omega_scan L c payload debug env = (Inr d, c', posts)" and "0 \<le> oc_retry_count c"
  shows "can_attempt (oe_now_check env) c \<and> c' = record_success c \<and>
    (\<exists>k r. posts = Suc k \<and> int k \<le> oc_retry_count c \<and> oe_net env k = Answered r \<and>
       up_status r < 400 \<and> up_json r = Some d)"
  using assms by (rule scan_Inr)

theorem scan_result_from_upstream_witness:
  "\<exists>c' posts. omega_scan declared_libs demo_client demo_payload False (demo_scan_env 0 k200) = (Inr (JObj []), c', posts) \<and>
     (\<exists>k r. posts = Suc k \<and> oe_net (demo_scan_env 0 k200) k = Answered r \<and> up_json r = Some (JObj []))"
proof -
  obtain x where x: "prepare_request declared_libs demo_client demo_payload False (demo_scan_env 0 k200) = Inr x"
    using demo_prepare by blast
  have k200_step: "attempt_step (Answered k200) = Done (JObj [])" by (simp add: attempt_step_def k200_def)
  have "omega_scan declared_libs demo_client demo_payload False (demo_scan_env 0 k200) =
      (Inr (JObj []), record_success demo_client, 1)"
    using post_loop_decisive [of 0 2 "oe_net (demo_scan_env 0 k200)" 0 None] k200_step
    by (simp add: omega_scan_def x decisive_def end_of_def)
  from scan_result_from_upstream [OF this] this show ?thesis by auto
qed

end
