(* ===== verification/Breaker.thy ===== *)
theory Breaker
  imports Omega_Client
begin

text \<open>
  The circuit breaker of \<open>connector/omega_client.py\<close> under concurrent scans.  A scan awaits
  the network between its breaker check and the recording of its result, so other scans run
  in between: the step relation has one step per atomic section.  The abstract specification
  is the history of events; the breaker state is a function of it.
\<close>

section \<open>Steps\<close>

datatype breaker_event = Started | Blocked | Succeeded | Refused | FailedAt real | Ticked

record breaker_sys =
  bs_client :: omega_client
  bs_now :: real
  bs_inflight :: nat

inductive breaker_step :: "breaker_sys \<Rightarrow> breaker_event \<Rightarrow> breaker_sys \<Rightarrow> bool" where
  start: "can_attempt (bs_now s) (bs_client s) \<Longrightarrow>
    breaker_step s Started (s\<lparr>bs_inflight := Suc (bs_inflight s)\<rparr>)"
| block: "\<not> can_attempt (bs_now s) (bs_client s) \<Longrightarrow> breaker_step s Blocked s"
| succeed: "bs_inflight s = Suc n \<Longrightarrow>
    breaker_step s Succeeded (s\<lparr>bs_client := record_success (bs_client s), bs_inflight := n\<rparr>)"
| refuse: "bs_inflight s = Suc n \<Longrightarrow> breaker_step s Refused (s\<lparr>bs_inflight := n\<rparr>)"
| fail: "bs_inflight s = Suc n \<Longrightarrow>
    breaker_step s (FailedAt (bs_now s))
      (s\<lparr>bs_client := record_failure (bs_now s) (bs_client s), bs_inflight := n\<rparr>)"
| tick: "bs_now s \<le> t \<Longrightarrow> breaker_step s Ticked (s\<lparr>bs_now := t\<rparr>)"

inductive_cases breaker_stepE: "breaker_step s e s'"

inductive_simps breaker_step_simps:
  "breaker_step s Started s'" "breaker_step s Blocked s'" "breaker_step s Succeeded s'"
  "breaker_step s Refused s'" "breaker_step s (FailedAt t) s'" "breaker_step s Ticked s'"

text \<open>\<open>breaker_run c es s\<close>: from client \<open>c\<close> with a closed breaker, the events \<open>es\<close> (newest
  first) lead to \<open>s\<close>.\<close>

inductive breaker_run :: "omega_client \<Rightarrow> breaker_event list \<Rightarrow> breaker_sys \<Rightarrow> bool" where
  init: "oc_state c = new_circuit \<Longrightarrow> 0 \<le> t \<Longrightarrow>
    breaker_run c [] \<lparr>bs_client = c, bs_now = t, bs_inflight = 0\<rparr>"
| event: "breaker_run c es s \<Longrightarrow> breaker_step s e s' \<Longrightarrow> breaker_run c (e # es) s'"

section \<open>History\<close>

text \<open>Times of the failures since the last success, newest first.\<close>

fun recent_failures :: "breaker_event list \<Rightarrow> real list" where
  "recent_failures [] = []"
| "recent_failures (Succeeded # es) = []"
| "recent_failures (FailedAt t # es) = t # recent_failures es"
| "recent_failures (_ # es) = recent_failures es"

text \<open>The breaker state that a history stands for.\<close>

definition circuit_of :: "int \<Rightarrow> int \<Rightarrow> breaker_event list \<Rightarrow> circuit_state" where
  "circuit_of fails reset es =
     \<lparr>failure_count = int (length (recent_failures es)),
      opened_until_ts =
        (if recent_failures es \<noteq> [] \<and> fails \<le> int (length (recent_failures es))
         then hd (recent_failures es) + of_int reset else 0)\<rparr>"

lemma record_config [simp]:
  "oc_breaker_fails (record_failure t c) = oc_breaker_fails c"
  "oc_breaker_reset_sec (record_failure t c) = oc_breaker_reset_sec c"
  "oc_breaker_fails (record_success c) = oc_breaker_fails c"
  "oc_breaker_reset_sec (record_success c) = oc_breaker_reset_sec c"
  by (simp_all add: record_failure_def record_success_def Let_def)

lemma same_config_update:
  assumes "same_config c d"
  shows "same_config c (d\<lparr>oc_state := st\<rparr>)"
proof -
  have "d\<lparr>oc_state := st\<rparr> = (c\<lparr>oc_state := oc_state d\<rparr>)\<lparr>oc_state := st\<rparr>"
    using assms unfolding same_config_def by (rule arg_cong)
  then show ?thesis by (simp add: same_config_def)
qed

lemma same_config_record:
  assumes "same_config c d"
  shows "same_config c (record_failure t d)" "same_config c (record_success d)"
  unfolding record_failure_def record_success_def Let_def
  by (rule same_config_update [OF assms])+

text \<open>The run invariant: the configuration is the initial one, the breaker state is that of the
  history, and every recorded failure lies in the past.\<close>

definition run_inv :: "omega_client \<Rightarrow> breaker_event list \<Rightarrow> breaker_sys \<Rightarrow> bool" where
  "run_inv c es s \<longleftrightarrow>
     same_config c (bs_client s) \<and>
     oc_state (bs_client s) = circuit_of (oc_breaker_fails c) (oc_breaker_reset_sec c) es \<and>
     0 \<le> bs_now s \<and> (\<forall>t\<in>set (recent_failures es). 0 \<le> t \<and> t \<le> bs_now s)"

lemma same_config_breaker:
  assumes "same_config c d"
  shows "oc_breaker_fails d = oc_breaker_fails c" "oc_breaker_reset_sec d = oc_breaker_reset_sec c"
    "oc_retry_count d = oc_retry_count c"
  using assms [unfolded same_config_def, THEN arg_cong, of oc_breaker_fails]
    assms [unfolded same_config_def, THEN arg_cong, of oc_breaker_reset_sec]
    assms [unfolded same_config_def, THEN arg_cong, of oc_retry_count]
  by simp_all

lemma run_inv_step:
  assumes "run_inv c es s" "breaker_step s e s'"
  shows "run_inv c (e # es) s'"
  using assms(2,1)
proof (cases rule: breaker_step.cases)
  case (fail n)
  have "oc_state (record_failure (bs_now s) (bs_client s)) =
      circuit_of (oc_breaker_fails c) (oc_breaker_reset_sec c) (e # es)"
    using assms(1) same_config_breaker [of c "bs_client s"]
    by (auto simp: run_inv_def fail record_failure_def circuit_of_def Let_def)
  with assms(1) fail show ?thesis
    by (auto simp: run_inv_def same_config_record)
qed (auto simp: run_inv_def circuit_of_def same_config_update record_success_def)

lemma run_inv_run: "breaker_run c es s \<Longrightarrow> run_inv c es s"
proof (induction rule: breaker_run.induct)
  case (init c t)
  then show ?case by (simp add: run_inv_def same_config_def new_circuit_def circuit_of_def)
next
  case (event c es s e s')
  then show ?case by (auto intro: run_inv_step)
qed

section \<open>A scan as steps\<close>

text \<open>The events of one scan, newest first.\<close>

definition scan_events :: "libs \<Rightarrow> omega_client \<Rightarrow> scan_request \<Rightarrow> bool \<Rightarrow> omega_env \<Rightarrow> breaker_event list" where
  "scan_events L c payload debug env =
     (if \<not> can_attempt (oe_now_check env) c then [Blocked]
      else
        (case prepare_request L c payload debug env of
           Inl _ \<Rightarrow> [Refused, Started]
         | Inr _ \<Rightarrow>
             (case fst (post_loop (nat (oc_retry_count c + 1)) 0 (oe_net env) None) of
                Returned _ \<Rightarrow> [Succeeded, Started]
              | Raised _ \<Rightarrow> [Refused, Started]
              | Exhausted _ \<Rightarrow> [FailedAt (oe_now_fail env), Ticked, Started])))"

lemma run_started:
  assumes "breaker_run c es s" "can_attempt (bs_now s) (bs_client s)"
  shows "breaker_run c (Started # es) (s\<lparr>bs_inflight := Suc (bs_inflight s)\<rparr>)"
  using assms by (intro breaker_run.event [OF _ breaker_step.start])

lemma run_finished:
  assumes "breaker_run c es s" "bs_inflight s = Suc n"
  shows "breaker_run c (Refused # es) (s\<lparr>bs_inflight := n\<rparr>)"
    "breaker_run c (Succeeded # es) (s\<lparr>bs_client := record_success (bs_client s), bs_inflight := n\<rparr>)"
    "breaker_run c (FailedAt (bs_now s) # es)
       (s\<lparr>bs_client := record_failure (bs_now s) (bs_client s), bs_inflight := n\<rparr>)"
  using assms by (auto intro: breaker_run.event breaker_step.intros)

lemma run_failed_later:
  assumes run: "breaker_run c es s" and n: "bs_inflight s = Suc n" and t: "bs_now s \<le> t"
  shows "breaker_run c (FailedAt t # Ticked # es)
    (s\<lparr>bs_now := t, bs_client := record_failure t (bs_client s), bs_inflight := n\<rparr>)"
proof -
  have "breaker_run c (Ticked # es) (s\<lparr>bs_now := t\<rparr>)"
    using run t by (intro breaker_run.event [OF _ breaker_step.tick])
  from run_finished(3) [OF this, of n] n show ?thesis by simp
qed

lemma scan_run:
  assumes run: "breaker_run c es s" and now: "bs_now s = oe_now_check env"
    and clock: "oe_now_check env \<le> oe_now_fail env"
  shows "\<exists>s'. breaker_run c (scan_events L (bs_client s) payload debug env @ es) s' \<and>
    bs_client s' = fst (snd (omega_scan L (bs_client s) payload debug env)) \<and>
    bs_inflight s' = bs_inflight s"
proof (cases "can_attempt (oe_now_check env) (bs_client s)")
  case False
  then have "breaker_run c (Blocked # es) s"
    using run now by (intro breaker_run.event [OF _ breaker_step.block]) auto
  with False show ?thesis by (auto simp: scan_events_def omega_scan_def)
next
  case True
  let ?s = "s\<lparr>bs_inflight := Suc (bs_inflight s)\<rparr>"
  have started: "breaker_run c (Started # es) ?s" using run True now by (intro run_started) auto
  note fin = run_finished [OF started, of "bs_inflight s"]
    run_failed_later [OF started, of "bs_inflight s" "oe_now_fail env"]
  show ?thesis
  proof (cases "prepare_request L (bs_client s) payload debug env")
    case (Inl e)
    with True fin(1) show ?thesis by (force simp: scan_events_def omega_scan_def)
  next
    case (Inr x)
    obtain r n where r: "post_loop (nat (oc_retry_count (bs_client s) + 1)) 0 (oe_net env) None = (r, n)"
      by (cases "post_loop (nat (oc_retry_count (bs_client s) + 1)) 0 (oe_net env) None")
    show ?thesis
    proof (cases r)
      case (Returned d)
      with True Inr r fin(2) show ?thesis by (force simp: scan_events_def omega_scan_def)
    next
      case (Raised e)
      with True Inr r fin(1) show ?thesis by (force simp: scan_events_def omega_scan_def)
    next
      case (Exhausted l)
      with True Inr r fin(4) now clock show ?thesis by (force simp: scan_events_def omega_scan_def)
    qed
  qed
qed

lemma admits_history:
  assumes run: "breaker_run c es s" and fails: "1 \<le> oc_breaker_fails c"
  shows "can_attempt t (bs_client s) \<longleftrightarrow>
    (if oc_breaker_fails c \<le> int (length (recent_failures es))
     then hd (recent_failures es) + of_int (oc_breaker_reset_sec c) \<le> t else 0 \<le> t)"
  using run_inv_run [OF run] fails
  by (cases "recent_failures es") (auto simp: run_inv_def can_attempt_def circuit_of_def)

section \<open>A concrete run\<close>

text \<open>Three scans start; two fail at second 10.\<close>

lemma demo_run:
  "\<exists>s. breaker_run demo_client [FailedAt 10, FailedAt 10, Started, Started, Started] s \<and>
     bs_now s = 10 \<and> bs_inflight s = 1"
proof -
  let ?s0 = "\<lparr>bs_client = demo_client, bs_now = 10, bs_inflight = 0\<rparr>"
  have s0: "breaker_run demo_client [] ?s0" by (rule breaker_run.init) auto
  have a: "can_attempt 10 demo_client" by (simp add: can_attempt_def new_circuit_def)
  from s0 a have s1: "breaker_run demo_client [Started] (?s0\<lparr>bs_inflight := 1\<rparr>)"
    using run_started [OF s0] by simp
  from a have s2: "breaker_run demo_client [Started, Started] (?s0\<lparr>bs_inflight := 2\<rparr>)"
    using run_started [OF s1] by (simp add: numeral_2_eq_2)
  from a have s3: "breaker_run demo_client [Started, Started, Started] (?s0\<lparr>bs_inflight := 3\<rparr>)"
    using run_started [OF s2] by (simp add: numeral_3_eq_3 numeral_2_eq_2)
  from run_finished(3) [OF s3, of 2]
  have s4: "breaker_run demo_client [FailedAt 10, Started, Started, Started]
      (?s0\<lparr>bs_client := record_failure 10 demo_client, bs_inflight := 2\<rparr>)" by simp
  from run_finished(3) [OF s4, of 1]
  have "breaker_run demo_client [FailedAt 10, FailedAt 10, Started, Started, Started]
      (?s0\<lparr>bs_client := record_failure 10 (record_failure 10 demo_client), bs_inflight := 1\<rparr>)" by simp
  then show ?thesis by (intro exI conjI, assumption) simp_all
qed

section \<open>Properties\<close>

text \<open>Under every interleaving of concurrent scans the breaker state is the function \<open>circuit_of\<close>
  of the history: the count is the number of failures since the last success, and once it has
  reached the limit the breaker is open until the last failure plus the reset time.\<close>

theorem breaker_refines_history:
  assumes "breaker_run c es s"
  shows "oc_state (bs_client s) = circuit_of (oc_breaker_fails c) (oc_breaker_reset_sec c) es \<and>
    same_config c (bs_client s) \<and> 0 \<le> failure_count (oc_state (bs_client s)) \<and>
    opened_until_ts (oc_state (bs_client s)) \<le> bs_now s + \<bar>of_int (oc_breaker_reset_sec c)\<bar>"
  using run_inv_run [OF assms] by (cases "recent_failures es") (auto simp: run_inv_def circuit_of_def)

theorem breaker_refines_history_witness:
  "\<exists>s :: breaker_sys. oc_state (bs_client s) = circuit_of 2 30 [FailedAt 10, FailedAt 10, Started, Started, Started] \<and>
     circuit_of 2 30 [FailedAt 10, FailedAt 10, Started, Started, Started] =
       \<lparr>failure_count = 2, opened_until_ts = 40\<rparr>"
proof -
  obtain s where "breaker_run demo_client [FailedAt 10, FailedAt 10, Started, Started, Started] s"
    using demo_run by blast
  from breaker_refines_history [OF this]
  have "oc_state (bs_client s) = circuit_of 2 30 [FailedAt 10, FailedAt 10, Started, Started, Started]"
    by simp
  then show ?thesis by (intro exI [of _ s] conjI) (simp_all add: circuit_of_def)
qed

text \<open>C10: The breaker admits a scan exactly when fewer than \<open>breaker_fails\<close> scans have failed since
  the last success, or the reset time has passed since the last failure: so it opens after
  that many failures and always lets a scan through again after the reset time.\<close>

theorem breaker_admits_iff:
  assumes "breaker_run c es s" "1 \<le> oc_breaker_fails c"
  shows "can_attempt (bs_now s) (bs_client s) \<longleftrightarrow>
    int (length (recent_failures es)) < oc_breaker_fails c \<or>
    hd (recent_failures es) + of_int (oc_breaker_reset_sec c) \<le> bs_now s"
  using admits_history [OF assms, of "bs_now s"] run_inv_run [OF assms(1)]
  by (auto simp: run_inv_def)

theorem breaker_admits_iff_witness:
  "\<exists>s. breaker_run demo_client [FailedAt 10, FailedAt 10, Started, Started, Started] s \<and>
     \<not> can_attempt (bs_now s) (bs_client s)"
proof -
  obtain s where s: "breaker_run demo_client [FailedAt 10, FailedAt 10, Started, Started, Started] s"
    "bs_now s = 10" using demo_run by blast
  from breaker_admits_iff [OF s(1)] s show ?thesis by auto
qed

text \<open>Half-open behaviour: the failure count is not reset when the reset time passes, so once the
  breaker has been open, a single further failing scan opens it again for the whole reset time.\<close>

theorem half_open_failure_reopens:
  assumes "breaker_run c es s" "1 \<le> oc_breaker_fails c"
    and "oc_breaker_fails c \<le> int (length (recent_failures es))"
    and "breaker_step s (FailedAt now) s'"
    and "t < now + of_int (oc_breaker_reset_sec c)"
  shows "\<not> can_attempt t (bs_client s')"
  using admits_history [OF breaker_run.event [OF assms(1,4)] assms(2), of t] assms(3,5) by simp

theorem half_open_failure_reopens_witness:
  "\<exists>s s'. breaker_step s (FailedAt 10) s' \<and> \<not> can_attempt 39 (bs_client s')"
proof -
  obtain s where s: "breaker_run demo_client [FailedAt 10, FailedAt 10, Started, Started, Started] s"
    "bs_now s = 10" "bs_inflight s = 1" using demo_run by blast
  then have step: "breaker_step s (FailedAt 10)
      (s\<lparr>bs_client := record_failure 10 (bs_client s), bs_inflight := 0\<rparr>)"
    by (simp add: breaker_step_simps)
  have "\<not> can_attempt 39 (bs_client (s\<lparr>bs_client := record_failure 10 (bs_client s), bs_inflight := 0\<rparr>))"
    by (rule half_open_failure_reopens [OF s(1) _ _ step]) simp_all
  with step show ?thesis by blast
qed

text \<open>A success of a scan that was admitted before the breaker opened closes it at once and
  forgets all failures, even if every later scan failed: the order in which concurrent scans
  finish decides, not the order in which they started.\<close>

theorem late_success_closes:
  assumes "breaker_run c es s" "0 < bs_inflight s"
  shows "\<exists>s'. breaker_step s Succeeded s' \<and> breaker_run c (Succeeded # es) s' \<and>
    (\<forall>t\<ge>0. can_attempt t (bs_client s')) \<and> failure_count (oc_state (bs_client s')) = 0"
proof -
  obtain n where n: "bs_inflight s = Suc n" using assms(2) by (cases "bs_inflight s") auto
  let ?s = "s\<lparr>bs_client := record_success (bs_client s), bs_inflight := n\<rparr>"
  have "breaker_step s Succeeded ?s" using n by (simp add: breaker_step_simps)
  then show ?thesis using run_finished(2) [OF assms(1) n]
    by (intro exI [of _ ?s]) (auto simp: record_success_def can_attempt_def)
qed

theorem late_success_closes_witness:
  "\<exists>s s'. \<not> can_attempt 10 (bs_client s) \<and> breaker_step s Succeeded s' \<and> can_attempt 10 (bs_client s')"
proof -
  obtain s where s: "breaker_run demo_client [FailedAt 10, FailedAt 10, Started, Started, Started] s"
    "bs_inflight s = 1" using demo_run by blast
  then have "\<not> can_attempt 10 (bs_client s)" using admits_history [OF s(1), of 10] by auto
  then show ?thesis using late_success_closes [OF s(1)] s(2) by force
qed

text \<open>The detailed scan refines the step relation: run from a reachable state, the client that
  \<open>omega_scan\<close> leaves behind is the one reached by the scan's events, with as many scans in
  flight as before.\<close>

theorem scan_refines_steps:
  assumes "breaker_run c es s" "bs_now s = oe_now_check env" "oe_now_check env \<le> oe_now_fail env"
  shows "\<exists>s'. breaker_run c (scan_events L (bs_client s) payload debug env @ es) s' \<and>
    bs_client s' = fst (snd (omega_scan L (bs_client s) payload debug env)) \<and>
    bs_inflight s' = bs_inflight s"
  using assms by (rule scan_run)

theorem scan_refines_steps_witness:
  "\<exists>s'. breaker_run demo_client
      (scan_events declared_libs demo_client demo_payload False
         \<lparr>oe_now_check = 10, oe_now_sign = 10, oe_now_fail = 12, oe_nonce = [], oe_net = (\<lambda>_. TimedOut)\<rparr> @ []) s' \<and>
    bs_client s' = fst (snd (omega_scan declared_libs demo_client demo_payload False
         \<lparr>oe_now_check = 10, oe_now_sign = 10, oe_now_fail = 12, oe_nonce = [], oe_net = (\<lambda>_. TimedOut)\<rparr>)) \<and>
    bs_inflight s' = 0"
proof -
  let ?s = "\<lparr>bs_client = demo_client, bs_now = 10, bs_inflight = 0\<rparr>"
  have "breaker_run demo_client [] ?s" by (rule breaker_run.init) auto
  from scan_refines_steps [OF this, of "\<lparr>oe_now_check = 10, oe_now_sign = 10, oe_now_fail = 12,
      oe_nonce = [], oe_net = (\<lambda>_. TimedOut)\<rparr>" declared_libs demo_payload False]
  show ?thesis by simp
qed

end
