(* ===== verification/Audit_Log.thy ===== *)
theory Audit_Log
  imports Py_Exn
begin

text \<open>
  \<open>connector/logging_utils.py\<close>: the audit record of a decision.  The model is the object
  handed to \<open>json.dumps(..., sort_keys=True)\<close>, keys in sorted order; writing the line to the
  logger is I/O and left out.
\<close>

definition hash_str :: "pystr \<Rightarrow> exn + pystr" where
  "hash_str s = bindE (encodeE s) (\<lambda>b. Inr (hex (sha256 b)))"

definition audit_log ::
  "pystr \<Rightarrow> pystr \<Rightarrow> pystr \<Rightarrow> int \<Rightarrow> pystr list \<Rightarrow> bool \<Rightarrow> jobj \<Rightarrow> exn + json" where
  "audit_log request_id tenant_id verdict risk_score reasons redact extra =
     bindE (if redact then hash_str tenant_id else Inr tenant_id) (\<lambda>tenant.
     Inr (JObj
       ([(u ''event'', JStr (u ''connector_scan_audit''))]
        @ (if extra \<noteq> [] then [(u ''extra'', JObj extra)] else [])
        @ [(u ''reasons'', JArr (map JStr reasons)), (u ''request_id'', JStr request_id),
           (u ''risk_score'', JInt risk_score), (u ''tenant_id'', JStr tenant),
           (u ''verdict'', JStr verdict)])))"

lemma audit_log_ok:
  assumes "redact \<Longrightarrow> \<forall>c\<in>set tenant_id. scalar c"
  shows "\<exists>j. audit_log request_id tenant_id verdict risk reasons redact extra = Inr j"
  using assms encodeE_scalar [of tenant_id] by (auto simp: audit_log_def hash_str_def)

lemma audit_log_fields:
  assumes "audit_log request_id tenant_id verdict risk reasons redact extra = Inr j"
  shows "\<exists>kvs t. j = JObj kvs \<and> (if redact then hash_str tenant_id else Inr tenant_id) = Inr t \<and>
    map_of kvs (u ''tenant_id'') = Some (JStr t) \<and> map_of kvs (u ''verdict'') = Some (JStr verdict) \<and>
    map_of kvs (u ''risk_score'') = Some (JInt risk) \<and> map_of kvs (u ''request_id'') = Some (JStr request_id) \<and>
    map_of kvs (u ''reasons'') = Some (JArr (map JStr reasons))"
  using assms by (auto simp: audit_log_def bindE_eq_Inr)

end
