(* ===== verification/Connector_App.thy ===== *)
theory Connector_App
  imports Auth Config Breaker Audit_Log
begin

text \<open>
  \<open>connector/app.py\<close>: the runtime, the normalisation of Omega's answer, the fallback
  decision, the exception handlers and the two scan endpoints.  What a request draws from
  outside (clock readings, fresh UUIDs, the upstream's behaviour) is the record
  \<open>request_env\<close>.
\<close>

section \<open>Runtime\<close>

record connector_runtime =
  rt_settings :: settings
  rt_auth :: auth_config
  rt_cache :: nonce_replay_cache
  rt_omega :: omega_client

definition new_runtime :: "settings \<Rightarrow> connector_runtime" where
  "new_runtime s =
     \<lparr>rt_settings = s,
      rt_auth = \<lparr>api_keys = connector_api_keys s, require_hmac = connector_require_hmac s,
                 hmac_secret = connector_hmac_secret s, auth_skew_sec = max_clock_skew_sec s\<rparr>,
      rt_cache = new_cache (nonce_ttl_sec s) 100000,
      rt_omega = new_omega_client (omega_base_url s) (omega_api_key s) (omega_require_hmac s)
                   (omega_hmac_secret s) (omega_tls_verify s) (omega_ca_cert_path s)
                   (omega_timeout_ms s) (omega_retry_count s) (omega_circuit_breaker_fails s)
                   (omega_circuit_breaker_reset_sec s)\<rparr>"

record request_env =
  re_uuid_request :: pystr
  re_uuid_reply :: pystr
  re_uuid_evidence :: pystr
  re_now_auth :: real
  re_now_cache :: real
  re_omega :: omega_env

section \<open>Normalisation\<close>

text \<open>\<open>raw.get(k)\<close> as a truthy value, if it is one.\<close>

definition get_truthy :: "jobj \<Rightarrow> string \<Rightarrow> json option" where
  "get_truthy kvs k =
     (case map_of kvs (u k) of None \<Rightarrow> None | Some v \<Rightarrow> if truthy v then Some v else None)"

definition normalize_verdict :: "json \<Rightarrow> pystr" where
  "normalize_verdict v =
     (let verdict = lower (strip (py_str v))
      in if verdict \<notin> set verdicts then u ''quarantine'' else verdict)"

definition get_dict :: "jobj \<Rightarrow> string \<Rightarrow> jobj option" where
  "get_dict kvs k = (case map_of kvs (u k) of Some (JObj d) \<Rightarrow> Some d | _ \<Rightarrow> None)"

definition normalize_response ::
  "libs \<Rightarrow> json \<Rightarrow> scan_request \<Rightarrow> pystr \<Rightarrow> pystr \<Rightarrow> exn + scan_response" where
  "normalize_response L raw payload uuid_reply uuid_evidence =
     (case raw of
        JObj kvs \<Rightarrow>
          (let request_id = (case get_truthy kvs ''request_id'' of
                               Some v \<Rightarrow> py_str v
                             | None \<Rightarrow> opt_or (rq_request_id payload) uuid_reply);
               tenant_id = (case get_truthy kvs ''tenant_id'' of
                              Some v \<Rightarrow> py_str v | None \<Rightarrow> rq_tenant_id payload)
           in bindE (py_int (case map_of kvs (u ''risk_score'') of None \<Rightarrow> JInt 0 | Some v \<Rightarrow> v)) (\<lambda>risk.
              let risk_score = max 0 (min 100 risk);
                  verdict = normalize_verdict
                    (case map_of kvs (u ''verdict'') of None \<Rightarrow> JStr (u ''quarantine'') | Some v \<Rightarrow> v)
              in bindE (case get_truthy kvs ''reasons'' of None \<Rightarrow> Inr [] | Some v \<Rightarrow> py_iter v) (\<lambda>items.
                 make_response L
                   \<lparr>rs_request_id = request_id, rs_tenant_id = tenant_id, rs_risk_score = risk_score,
                    rs_verdict = verdict, rs_reasons = map py_str items,
                    rs_evidence_id = (case get_truthy kvs ''evidence_id'' of
                                        Some v \<Rightarrow> py_str v | None \<Rightarrow> uuid_evidence),
                    rs_policy_trace = (case get_dict kvs ''policy_trace'' of None \<Rightarrow> [] | Some d \<Rightarrow> d),
                    rs_attestation = get_dict kvs ''attestation''\<rparr>)))
      | _ \<Rightarrow> Inl AttributeError)"

definition fallback_risk :: "pystr \<Rightarrow> int" where
  "fallback_risk verdict =
     (if verdict = u ''allow'' then 0
      else if verdict = u ''quarantine'' then 55
      else if verdict = u ''block'' then 95
      else 55)"

definition fallback_record ::
  "scan_request \<Rightarrow> string \<Rightarrow> pystr \<Rightarrow> pystr option \<Rightarrow> int option \<Rightarrow> pystr \<Rightarrow> pystr \<Rightarrow> scan_response" where
  "fallback_record payload reason fail_mode detail upstream_status uuid_reply uuid_evidence =
     (let verdict = (if fail_mode \<in> set verdicts then fail_mode else u ''quarantine'')
      in \<lparr>rs_request_id = opt_or (rq_request_id payload) uuid_reply,
          rs_tenant_id = rq_tenant_id payload,
          rs_risk_score = fallback_risk verdict,
          rs_verdict = verdict,
          rs_reasons = [u reason],
          rs_evidence_id = uuid_evidence,
          rs_policy_trace =
            [(u ''source'', JStr (u ''connector_fallback'')), (u ''reason'', JStr (u reason)),
             (u ''fail_mode'', JStr verdict)]
            @ (if opt_truthy detail
               then [(u ''upstream_detail_code'', JStr (opt_or detail []))] else [])
            @ (case upstream_status of None \<Rightarrow> [] | Some n \<Rightarrow> [(u ''upstream_status'', JInt n)]),
          rs_attestation = None\<rparr>)"

definition fallback_response ::
  "libs \<Rightarrow> scan_request \<Rightarrow> string \<Rightarrow> pystr \<Rightarrow> pystr option \<Rightarrow> int option \<Rightarrow> pystr \<Rightarrow> pystr
     \<Rightarrow> exn + scan_response" where
  "fallback_response L payload reason fail_mode detail upstream_status uuid_reply uuid_evidence =
     make_response L
       (fallback_record payload reason fail_mode detail upstream_status uuid_reply uuid_evidence)"

section \<open>Exception handlers\<close>

record http_reply =
  reply_status :: int
  reply_body :: json

definition error_response :: "string \<Rightarrow> json \<Rightarrow> jobj \<Rightarrow> json" where
  "error_response code message details = error_payload None code message details"

definition validation_exception_handler :: "json list \<Rightarrow> http_reply" where
  "validation_exception_handler errs =
     \<lparr>reply_status = 400,
      reply_body = error_response ''bad_request'' (JStr (u ''request validation failed''))
                     [(u ''errors'', JArr errs)]\<rparr>"

definition has_error_key :: "json \<Rightarrow> bool" where
  "has_error_key detail =
     (case detail of JObj kvs \<Rightarrow> u ''error'' \<in> fst ` set kvs | _ \<Rightarrow> False)"

definition http_exception_handler :: "int \<Rightarrow> json \<Rightarrow> http_reply" where
  "http_exception_handler status_code detail =
     (if has_error_key detail then \<lparr>reply_status = status_code, reply_body = detail\<rparr>
      else \<lparr>reply_status = status_code,
            reply_body = error_response ''http_error'' (JStr (py_str detail)) []\<rparr>)"

definition fallback_exception_handler :: "exn \<Rightarrow> http_reply" where
  "fallback_exception_handler e =
     \<lparr>reply_status = 500,
      reply_body = error_response ''internal_error'' (JStr (u ''internal server error'')) []\<rparr>"

definition handle_exception :: "exn \<Rightarrow> http_reply" where
  "handle_exception e =
     (case e of
        HTTPException status_code detail \<Rightarrow> http_exception_handler status_code detail
      | _ \<Rightarrow> fallback_exception_handler e)"

definition healthz :: http_reply where
  "healthz = \<lparr>reply_status = 200, reply_body = JObj [(u ''status'', JStr (u ''ok''))]\<rparr>"

section \<open>The scan endpoints\<close>

text \<open>Body to request, with a generated \<open>request_id\<close> where the body has none.\<close>

definition parse_payload :: "libs \<Rightarrow> http_request \<Rightarrow> pystr \<Rightarrow> exn + scan_request" where
  "parse_payload L req uuid =
     (case bindE (decodeE (hr_body req)) loadsE of
        Inl _ \<Rightarrow> Inl (http_error 400 ''bad_request'' ''invalid JSON payload'' None [])
      | Inr body_json \<Rightarrow>
          (case model_validate L body_json of
             Inl (ValidationError errs) \<Rightarrow>
               Inl (http_error 400 ''bad_request'' ''request validation failed'' None
                      [(u ''errors'', JArr errs)])
           | Inl e \<Rightarrow> Inl e
           | Inr payload \<Rightarrow>
               Inr (if \<not> opt_truthy (rq_request_id payload)
                    then payload\<lparr>rq_request_id := Some uuid\<rparr> else payload)))"

definition authenticate ::
  "connector_runtime \<Rightarrow> http_request \<Rightarrow> scan_request \<Rightarrow> request_env
     \<Rightarrow> (exn + unit) \<times> nonce_replay_cache" where
  "authenticate rt req payload env =
     (case validate_api_key (rt_auth rt) (hr_headers req ''X-API-Key'') (rq_request_id payload) of
        Inl e \<Rightarrow> (Inl e, rt_cache rt)
      | Inr api_key \<Rightarrow>
          validate_hmac (rt_auth rt) req payload api_key (re_now_auth env) (re_now_cache env)
            (rt_cache rt))"

text \<open>The \<open>except\<close> clauses around the upstream call, in their order.\<close>

definition fallback_for ::
  "libs \<Rightarrow> connector_runtime \<Rightarrow> scan_request \<Rightarrow> request_env \<Rightarrow> exn \<Rightarrow> exn + scan_response" where
  "fallback_for L rt payload env e =
     (let fb = (\<lambda>reason detail status.
            fallback_response L payload reason (connector_fail_mode (rt_settings rt)) detail status
              (re_uuid_reply env) (re_uuid_evidence env))
      in case e of
           OmegaCircuitOpen _ \<Rightarrow> fb ''omega_unavailable'' None None
         | OmegaTimeoutError _ \<Rightarrow> fb ''omega_timeout'' None None
         | OmegaRejectedError status_code detail _ \<Rightarrow>
             fb ''omega_rejected_4xx'' (Some detail) (Some status_code)
         | OmegaUnavailableError _ \<Rightarrow> fb ''omega_unavailable'' None None
         | OmegaClientError _ \<Rightarrow> fb ''invalid_response'' None None
         | _ \<Rightarrow> fb ''invalid_response'' None None)"

definition decide ::
  "libs \<Rightarrow> connector_runtime \<Rightarrow> scan_request \<Rightarrow> bool \<Rightarrow> request_env
     \<Rightarrow> (exn + scan_response) \<times> omega_client \<times> nat" where
  "decide L rt payload debug env =
     (case omega_scan L (rt_omega rt) payload debug (re_omega env) of
        (scanned, omega, posts) \<Rightarrow>
          (case bindE scanned (\<lambda>raw.
                  normalize_response L raw payload (re_uuid_reply env) (re_uuid_evidence env)) of
             Inr normalized \<Rightarrow> (Inr normalized, omega, posts)
           | Inl e \<Rightarrow> (fallback_for L rt payload env e, omega, posts)))"

record outcome =
  out_result :: "exn + scan_response"
  out_runtime :: connector_runtime
  out_audit :: "json list"
  out_posts :: nat

text \<open>The part of a handler after authentication: decision, audit record, response.\<close>

definition answer_scan ::
  "libs \<Rightarrow> connector_runtime \<Rightarrow> scan_request \<Rightarrow> request_env \<Rightarrow> bool \<Rightarrow> pystr \<Rightarrow> outcome" where
  "answer_scan L rt payload env debug endpoint =
     (case decide L rt payload debug env of
        (decision, omega, posts) \<Rightarrow>
          (let rt' = rt\<lparr>rt_omega := omega\<rparr>
           in case bindE decision (\<lambda>normalized.
                     bindE (audit_log (rs_request_id normalized) (rs_tenant_id normalized)
                              (rs_verdict normalized) (rs_risk_score normalized)
                              (rs_reasons normalized) (audit_redaction (rt_settings rt))
                              [(u ''endpoint'', JStr endpoint)]) (\<lambda>entry.
                     Inr (normalized, entry))) of
                Inl e \<Rightarrow> \<lparr>out_result = Inl e, out_runtime = rt', out_audit = [], out_posts = posts\<rparr>
              | Inr (normalized, entry) \<Rightarrow>
                  \<lparr>out_result = Inr normalized, out_runtime = rt', out_audit = [entry],
                   out_posts = posts\<rparr>))"

definition scan_body ::
  "libs \<Rightarrow> connector_runtime \<Rightarrow> http_request \<Rightarrow> request_env \<Rightarrow> bool \<Rightarrow> pystr \<Rightarrow> outcome" where
  "scan_body L rt req env debug endpoint =
     (case parse_payload L req (re_uuid_request env) of
        Inl e \<Rightarrow> \<lparr>out_result = Inl e, out_runtime = rt, out_audit = [], out_posts = 0\<rparr>
      | Inr payload \<Rightarrow>
          (case authenticate rt req payload env of
             (Inl e, cache) \<Rightarrow>
               \<lparr>out_result = Inl e, out_runtime = rt\<lparr>rt_cache := cache\<rparr>, out_audit = [],
                out_posts = 0\<rparr>
           | (Inr _, cache) \<Rightarrow>
               answer_scan L (rt\<lparr>rt_cache := cache\<rparr>) payload env debug endpoint))"

definition scan_attachment ::
  "libs \<Rightarrow> connector_runtime \<Rightarrow> http_request \<Rightarrow> request_env \<Rightarrow> outcome" where
  "scan_attachment L rt req env = scan_body L rt req env False (u ''/v1/scan/attachment'')"

definition scan_attachment_document_scan_report ::
  "libs \<Rightarrow> connector_runtime \<Rightarrow> http_request \<Rightarrow> request_env \<Rightarrow> outcome" where
  "scan_attachment_document_scan_report L rt req env =
     (if \<not> connector_debug_document_scan (rt_settings rt) then
        \<lparr>out_result = Inl (http_error 403 ''forbidden'' ''debug document scan is disabled'' None []),
         out_runtime = rt, out_audit = [], out_posts = 0\<rparr>
      else scan_body L rt req env True (u ''/v1/scan/attachment/document_scan_report''))"

text \<open>The HTTP reply for an outcome.\<close>

definition reply_of :: "outcome \<Rightarrow> http_reply" where
  "reply_of out =
     (case out_result out of
        Inr r \<Rightarrow> \<lparr>reply_status = 200, reply_body = response_json r\<rparr>
      | Inl e \<Rightarrow> handle_exception e)"

end
