(* ===== verification/Scan_Decisions.thy ===== *)
theory Scan_Decisions
  imports Connector_App
begin

text \<open>
  What the two scan endpoints of \<open>connector/app.py\<close> guarantee: every authenticated request is
  answered with a well-formed verdict, only Omega or the configured fail mode can allow, each
  upstream failure has its documented fallback, nothing reaches Omega or the audit log
  without authentication, and a replayed request is refused.  The lemmas on the library
  parameters are proved once in the context of \<open>libs_contract\<close>.
\<close>

section \<open>Fallback as a function of the exception\<close>

fun fallback_reason :: "exn \<Rightarrow> string" where
  "fallback_reason (OmegaCircuitOpen _) = ''omega_unavailable''"
| "fallback_reason (OmegaTimeoutError _) = ''omega_timeout''"
| "fallback_reason (OmegaRejectedError _ _ _) = ''omega_rejected_4xx''"
| "fallback_reason (OmegaUnavailableError _) = ''omega_unavailable''"
| "fallback_reason _ = ''invalid_response''"

fun fallback_detail :: "exn \<Rightarrow> pystr option" where
  "fallback_detail (OmegaRejectedError _ d _) = Some d"
| "fallback_detail _ = None"

fun fallback_status :: "exn \<Rightarrow> int option" where
  "fallback_status (OmegaRejectedError s _ _) = Some s"
| "fallback_status _ = None"

definition fallback_of :: "connector_runtime \<Rightarrow> scan_request \<Rightarrow> request_env \<Rightarrow> exn \<Rightarrow> scan_response" where
  "fallback_of rt payload env e =
     fallback_record payload (fallback_reason e) (connector_fail_mode (rt_settings rt))
       (fallback_detail e) (fallback_status e) (re_uuid_reply env) (re_uuid_evidence env)"

lemma fallback_for_response:
  "fallback_for L rt payload env e = make_response L (fallback_of rt payload env e)"
  by (cases e) (simp_all add: fallback_for_def fallback_of_def fallback_response_def)

lemma verdict_in: "fallback_of rt payload env e = r \<Longrightarrow> rs_verdict r \<in> set verdicts"
  by (auto simp: fallback_of_def fallback_record_def Let_def verdicts_def)

lemma text_ok_literals [simp]:
  "text_ok (u ''allow'')" "text_ok (u ''quarantine'')" "text_ok (u ''block'')"
  "text_ok (u ''source'')" "text_ok (u ''reason'')" "text_ok (u ''fail_mode'')"
  "text_ok (u ''upstream_detail_code'')" "text_ok (u ''upstream_status'')"
  by code_simp+

definition fallback_reasons :: "string list" where
  "fallback_reasons = [''omega_unavailable'', ''omega_timeout'', ''omega_rejected_4xx'', ''invalid_response'']"

lemma fallback_reason_in: "fallback_reason e \<in> set fallback_reasons"
  by (cases e) (simp_all add: fallback_reasons_def)

lemma text_ok_reason [simp]: "text_ok (u (fallback_reason e))"
proof -
  have "list_all (\<lambda>s. text_ok (u s)) fallback_reasons" by code_simp
  then show ?thesis using fallback_reason_in [of e] by (auto simp: list_all_iff)
qed

lemma text_ok_verdict: "v \<in> set verdicts \<Longrightarrow> text_ok v"
  by (auto simp: verdicts_def)

text \<open>What a request environment must give: encodable, non-empty UUIDs.\<close>

definition env_ok :: "request_env \<Rightarrow> bool" where
  "env_ok env \<longleftrightarrow>
     text_ok (re_uuid_request env) \<and> re_uuid_request env \<noteq> [] \<and>
     text_ok (re_uuid_reply env) \<and> text_ok (re_uuid_evidence env)"

definition payload_ok :: "scan_request \<Rightarrow> bool" where
  "payload_ok p \<longleftrightarrow>
     text_ok (rq_tenant_id p) \<and> rq_tenant_id p \<noteq> [] \<and>
     (\<exists>s. rq_request_id p = Some s \<and> s \<noteq> [] \<and> text_ok s)"

lemma fallback_declared:
  assumes "payload_ok p" "env_ok env"
  shows "declared_response (fallback_of rt p env e)"
proof -
  have v: "text_ok v" "0 \<le> fallback_risk v" "fallback_risk v \<le> 100" if "v \<in> set verdicts" for v
    using that by (auto simp: text_ok_verdict fallback_risk_def)
  have q: "u ''quarantine'' \<in> set verdicts" by (simp add: verdicts_def)
  show ?thesis
    using assms v q
    by (auto simp: declared_response_def fallback_of_def fallback_record_def Let_def payload_ok_def
        env_ok_def split: option.splits)
qed

text \<open>The fallback reason as a function of the last attempt.\<close>

definition attempt_reason :: "attempt \<Rightarrow> string" where
  "attempt_reason a =
     (case a of
        Answered r \<Rightarrow> if 500 \<le> up_status r then ''omega_unavailable'' else ''invalid_response''
      | TimedOut \<Rightarrow> ''omega_timeout''
      | ConnFailed _ \<Rightarrow> ''omega_unavailable''
      | OtherFailed _ \<Rightarrow> ''invalid_response'')"

lemma attempt_reason_correct:
  assumes "attempt_step a = Failed e"
  shows "fallback_reason (final_error (Some e)) = attempt_reason a"
    "fallback_detail (final_error (Some e)) = None" "fallback_status (final_error (Some e)) = None"
  using assms
  by (auto simp: attempt_step_def attempt_reason_def final_error_def split: attempt.splits option.splits if_splits)

lemma decide_parts:
  "decide L rt payload debug env =
     (let scan = omega_scan L (rt_omega rt) payload debug (re_omega env) in
      (case bindE (fst scan) (\<lambda>raw.
              normalize_response L raw payload (re_uuid_reply env) (re_uuid_evidence env)) of
         Inl e \<Rightarrow> fallback_for L rt payload env e
       | Inr r \<Rightarrow> Inr r,
       fst (snd scan), snd (snd scan)))"
  by (simp add: decide_def Let_def case_prod_beta split: sum.split)

section \<open>Facts that rest on the library contract\<close>

context libs_contract
begin

lemma parse_payload_ok:
  assumes "parse_payload L req uuid = Inr payload" "text_ok uuid" "uuid \<noteq> []"
  shows "payload_ok payload"
proof -
  obtain j r where r: "model_validate L j = Inr r"
    "payload = (if \<not> opt_truthy (rq_request_id r) then r\<lparr>rq_request_id := Some uuid\<rparr> else r)"
    using assms(1) by (auto simp: parse_payload_def split: sum.splits exn.splits)
  have d: "declared_request j = Some r" using r(1) model_validate_Inr by blast
  note tenant = declared_request_tenant [OF d] and rid = declared_request_id [OF d]
  show ?thesis
    using r(2) tenant rid assms(2,3)
    by (auto simp: payload_ok_def opt_truthy_def split: option.splits if_splits)
qed

lemma normalize_response_Inr:
  assumes "normalize_response L raw payload ur ue = Inr r"
  shows "declared_response r" "\<exists>kvs. raw = JObj kvs \<and>
    rs_verdict r = normalize_verdict
      (case map_of kvs (u ''verdict'') of None \<Rightarrow> JStr (u ''quarantine'') | Some v \<Rightarrow> v)"
  using assms
  by (auto simp: normalize_response_def Let_def exn_simps make_response_Inr split: json.splits)

lemma fallback_for_Inr:
  assumes "payload_ok payload" "env_ok env"
  shows "fallback_for L rt payload env e = Inr (fallback_of rt payload env e)"
  using fallback_declared [OF assms] by (simp add: fallback_for_response make_response_Inr)

text \<open>The decision: normalised answer or fallback, always declared.\<close>

lemma decide_total:
  assumes ok: "payload_ok payload" "env_ok env"
  obtains (answer) raw r where
      "fst (omega_scan L (rt_omega rt) payload debug (re_omega env)) = Inr raw"
      "normalize_response L raw payload (re_uuid_reply env) (re_uuid_evidence env) = Inr r"
      "fst (decide L rt payload debug env) = Inr r" "declared_response r"
  | (fallback) e where
      "bindE (fst (omega_scan L (rt_omega rt) payload debug (re_omega env))) (\<lambda>raw.
         normalize_response L raw payload (re_uuid_reply env) (re_uuid_evidence env)) = Inl e"
      "fst (decide L rt payload debug env) = Inr (fallback_of rt payload env e)"
      "declared_response (fallback_of rt payload env e)"
proof -
  let ?b = "bindE (fst (omega_scan L (rt_omega rt) payload debug (re_omega env))) (\<lambda>raw.
    normalize_response L raw payload (re_uuid_reply env) (re_uuid_evidence env))"
  show ?thesis
  proof (cases ?b)
    case (Inl e)
    then have "fst (decide L rt payload debug env) = Inr (fallback_of rt payload env e)"
      using fallback_for_Inr [OF ok] by (simp add: decide_parts Let_def)
    with Inl fallback show ?thesis using fallback_declared [OF ok] by blast
  next
    case (Inr r)
    then have "fst (decide L rt payload debug env) = Inr r"
      by (simp add: decide_parts Let_def)
    with Inr answer show ?thesis using normalize_response_Inr by (auto simp: exn_simps)
  qed
qed

end

lemma fallback_allow:
  "rs_verdict (fallback_of rt payload env e) = u ''allow'' \<Longrightarrow> connector_fail_mode (rt_settings rt) = u ''allow''"
  by (auto simp: fallback_of_def fallback_record_def Let_def split: if_splits)

lemma normalize_verdict_in: "normalize_verdict v \<in> set verdicts"
  by (auto simp: normalize_verdict_def Let_def verdicts_def)

section \<open>The shape of an outcome\<close>

lemma decide_cache [simp]: "decide L (rt\<lparr>rt_cache := c\<rparr>) payload debug env = decide L rt payload debug env"
proof -
  have "fallback_for L (rt\<lparr>rt_cache := c\<rparr>) payload env e = fallback_for L rt payload env e" for e
    by (simp add: fallback_for_response fallback_of_def)
  then show ?thesis by (simp add: decide_parts Let_def split: sum.split)
qed

lemma answer_scan_runtime:
  "out_runtime (answer_scan L rt payload env debug endpoint) =
     rt\<lparr>rt_omega := fst (snd (decide L rt payload debug env))\<rparr>"
  by (simp add: answer_scan_def Let_def case_prod_beta split: sum.split)

lemma answer_scan_Inr:
  assumes "fst (decide L rt payload debug env) = Inr r"
    and "audit_log (rs_request_id r) (rs_tenant_id r) (rs_verdict r) (rs_risk_score r) (rs_reasons r)
      (audit_redaction (rt_settings rt)) [(u ''endpoint'', JStr endpoint)] = Inr j"
  shows "answer_scan L rt payload env debug endpoint =
    \<lparr>out_result = Inr r, out_runtime = rt\<lparr>rt_omega := fst (snd (decide L rt payload debug env))\<rparr>,
     out_audit = [j], out_posts = snd (snd (decide L rt payload debug env))\<rparr>"
  using assms by (simp add: answer_scan_def Let_def case_prod_beta)

lemma scan_body_payload:
  "parse_payload L req (re_uuid_request env) = Inr payload \<Longrightarrow>
     scan_body L rt req env debug endpoint =
       (case authenticate rt req payload env of
          (Inl e, cache) \<Rightarrow>
            \<lparr>out_result = Inl e, out_runtime = rt\<lparr>rt_cache := cache\<rparr>, out_audit = [], out_posts = 0\<rparr>
        | (Inr _, cache) \<Rightarrow> answer_scan L (rt\<lparr>rt_cache := cache\<rparr>) payload env debug endpoint)"
  by (simp add: scan_body_def)

context libs_contract
begin

lemma normalize_allow:
  assumes "normalize_response L raw payload ur ue = Inr r" "rs_verdict r = u ''allow''"
  shows "\<exists>kvs v. raw = JObj kvs \<and> map_of kvs (u ''verdict'') = Some v \<and> lower (strip (py_str v)) = u ''allow''"
proof -
  obtain kvs where raw: "raw = JObj kvs" and v: "rs_verdict r = normalize_verdict
      (case map_of kvs (u ''verdict'') of None \<Rightarrow> JStr (u ''quarantine'') | Some v \<Rightarrow> v)"
    using normalize_response_Inr(2) [OF assms(1)] by blast
  have q: "normalize_verdict (JStr (u ''quarantine'')) \<noteq> u ''allow''" by code_simp
  then obtain w where w: "map_of kvs (u ''verdict'') = Some w"
    using v assms(2) by (cases "map_of kvs (u ''verdict'')") auto
  then have "lower (strip (py_str w)) = u ''allow''"
    using v assms(2) by (auto simp: normalize_verdict_def Let_def split: if_splits)
  with raw w show ?thesis by blast
qed

lemma decide_allow:
  assumes ok: "payload_ok payload" "env_ok env" and r: "fst (decide L rt payload debug env) = Inr r"
    and allow: "rs_verdict r = u ''allow''" and retry: "0 \<le> oc_retry_count (rt_omega rt)"
  shows "connector_fail_mode (rt_settings rt) = u ''allow'' \<or>
    (\<exists>k a kvs v. oe_net (re_omega env) k = Answered a \<and> up_status a < 400 \<and> up_json a = Some (JObj kvs) \<and>
       map_of kvs (u ''verdict'') = Some v \<and> lower (strip (py_str v)) = u ''allow'')"
  using ok
proof (cases rule: decide_total [of payload env rt debug])
  case (fallback e)
  then show ?thesis using r allow fallback_allow by auto
next
  case (answer raw r')
  then have r': "r' = r" using r by simp
  obtain omega posts where "omega_scan L (rt_omega rt) payload debug (re_omega env) = (Inr raw, omega, posts)"
    using answer(1) by (cases "omega_scan L (rt_omega rt) payload debug (re_omega env)") auto
  from scan_Inr [OF this retry] obtain k a where
    a: "oe_net (re_omega env) k = Answered a" "up_status a < 400" "up_json a = Some raw" by blast
  with normalize_allow [OF answer(2)] r' allow show ?thesis by blast
qed

lemma decide_verdict:
  assumes "payload_ok payload" "env_ok env" "fst (decide L rt payload debug env) = Inr r"
  shows "rs_verdict r \<in> set verdicts \<and> declared_response r"
  using assms(1,2)
proof (cases rule: decide_total [of payload env rt debug])
  case (answer raw r')
  then show ?thesis using assms(3) normalize_response_Inr normalize_verdict_in by fastforce
next
  case (fallback e)
  then show ?thesis using assms(3) verdict_in by auto
qed

lemma scan_body_cases:
  assumes env: "env_ok env"
  obtains
    (bad_payload) e where "parse_payload L req (re_uuid_request env) = Inl e"
      "scan_body L rt req env debug endpoint =
         \<lparr>out_result = Inl e, out_runtime = rt, out_audit = [], out_posts = 0\<rparr>"
  | (refused) payload e c where "parse_payload L req (re_uuid_request env) = Inr payload"
      "authenticate rt req payload env = (Inl e, c)"
      "scan_body L rt req env debug endpoint =
         \<lparr>out_result = Inl e, out_runtime = rt\<lparr>rt_cache := c\<rparr>, out_audit = [], out_posts = 0\<rparr>"
  | (answered) payload c r j where "parse_payload L req (re_uuid_request env) = Inr payload"
      "authenticate rt req payload env = (Inr (), c)" "payload_ok payload"
      "fst (decide L rt payload debug env) = Inr r" "rs_verdict r \<in> set verdicts" "declared_response r"
      "audit_log (rs_request_id r) (rs_tenant_id r) (rs_verdict r) (rs_risk_score r) (rs_reasons r)
         (audit_redaction (rt_settings rt)) [(u ''endpoint'', JStr endpoint)] = Inr j"
      "scan_body L rt req env debug endpoint =
         \<lparr>out_result = Inr r,
          out_runtime = rt\<lparr>rt_cache := c, rt_omega := fst (snd (decide L rt payload debug env))\<rparr>,
          out_audit = [j], out_posts = snd (snd (decide L rt payload debug env))\<rparr>"
proof (cases "parse_payload L req (re_uuid_request env)")
  case (Inl e)
  then show ?thesis by (intro bad_payload) (simp_all add: scan_body_def)
next
  case parsed: (Inr payload)
  obtain a c where auth: "authenticate rt req payload env = (a, c)" by (cases "authenticate rt req payload env")
  show ?thesis
  proof (cases a)
    case (Inl e)
    with parsed auth show ?thesis by (intro refused [of payload e c]) (simp_all add: scan_body_def)
  next
    case (Inr x)
    have p: "payload_ok payload"
      using parse_payload_ok [OF parsed] env
      by (auto simp: env_ok_def)
    obtain r where r: "fst (decide L rt payload debug env) = Inr r"
      using decide_total [OF p env, of rt debug] by metis
    note d = decide_verdict [OF p env r]
    obtain j where j: "audit_log (rs_request_id r) (rs_tenant_id r) (rs_verdict r) (rs_risk_score r)
        (rs_reasons r) (audit_redaction (rt_settings rt)) [(u ''endpoint'', JStr endpoint)] = Inr j"
      using audit_log_ok d by (metis declared_response_def text_ok_def)
    have a: "authenticate rt req payload env = (Inr (), c)" using auth Inr by simp
    have "scan_body L rt req env debug endpoint =
        answer_scan L (rt\<lparr>rt_cache := c\<rparr>) payload env debug endpoint"
      by (simp add: scan_body_payload [OF parsed] a)
    then have "scan_body L rt req env debug endpoint =
        \<lparr>out_result = Inr r,
         out_runtime = rt\<lparr>rt_cache := c, rt_omega := fst (snd (decide L rt payload debug env))\<rparr>,
         out_audit = [j], out_posts = snd (snd (decide L rt payload debug env))\<rparr>"
      using answer_scan_Inr [of L "rt\<lparr>rt_cache := c\<rparr>" payload debug env r endpoint j] r j by simp
    with answered [OF parsed a p r] d j show ?thesis by blast
  qed
qed

end

section \<open>Histories of requests\<close>

text \<open>Serving a request at one of the two endpoints (\<open>report\<close> for the second), and a list of them.\<close>

definition serve ::
  "libs \<Rightarrow> connector_runtime \<Rightarrow> http_request \<times> request_env \<times> bool \<Rightarrow> outcome" where
  "serve L rt x =
     (case x of (req, env, report) \<Rightarrow>
        if report then scan_attachment_document_scan_report L rt req env
        else scan_attachment L rt req env)"

lemma serve_cases:
  obtains (scanned) d ep where "serve L rt (req, env, report) = scan_body L rt req env d ep"
  | (disabled) "serve L rt (req, env, report) =
      \<lparr>out_result = Inl (http_error 403 ''forbidden'' ''debug document scan is disabled'' None []),
       out_runtime = rt, out_audit = [], out_posts = 0\<rparr>"
proof (cases "report \<and> \<not> connector_debug_document_scan (rt_settings rt)")
  case True
  then show ?thesis by (intro disabled) (simp add: serve_def scan_attachment_document_scan_report_def)
next
  case False
  then have "\<exists>d ep. serve L rt (req, env, report) = scan_body L rt req env d ep"
    by (cases report) (auto simp: serve_def scan_attachment_def scan_attachment_document_scan_report_def)
  then show ?thesis using scanned by blast
qed

fun serve_all ::
  "libs \<Rightarrow> connector_runtime \<Rightarrow> (http_request \<times> request_env \<times> bool) list \<Rightarrow> connector_runtime" where
  "serve_all L rt [] = rt"
| "serve_all L rt (x # xs) = serve_all L (out_runtime (serve L rt x)) xs"

abbreviation served_at :: "http_request \<times> request_env \<times> bool \<Rightarrow> real" where
  "served_at x \<equiv> re_now_cache (fst (snd x))"

lemma authenticate_cache:
  "snd (authenticate rt req payload env) = rt_cache rt \<or>
   (\<exists>k. snd (authenticate rt req payload env) = snd (check_and_mark (re_now_cache env) k (rt_cache rt)))"
  by (auto simp: authenticate_def validate_hmac_state split: sum.splits)

lemma scan_body_runtime:
  "rt_auth (out_runtime (scan_body L rt req env debug endpoint)) = rt_auth rt \<and>
   (rt_cache (out_runtime (scan_body L rt req env debug endpoint)) = rt_cache rt \<or>
    (\<exists>payload. rt_cache (out_runtime (scan_body L rt req env debug endpoint)) =
       snd (authenticate rt req payload env)))"
proof (cases "parse_payload L req (re_uuid_request env)")
  case (Inr payload)
  obtain a c where a: "authenticate rt req payload env = (a, c)" by (cases "authenticate rt req payload env")
  have "out_runtime (scan_body L rt req env debug endpoint) = rt\<lparr>rt_cache := c\<rparr> \<or>
      (\<exists>o'. out_runtime (scan_body L rt req env debug endpoint) = rt\<lparr>rt_cache := c, rt_omega := o'\<rparr>)"
    by (cases a) (auto simp: scan_body_payload [OF Inr] a answer_scan_runtime)
  then have "rt_auth (out_runtime (scan_body L rt req env debug endpoint)) = rt_auth rt \<and>
      rt_cache (out_runtime (scan_body L rt req env debug endpoint)) = c" by auto
  then show ?thesis using a by (metis snd_conv)
qed (simp add: scan_body_def)

lemma serve_runtime:
  "rt_auth (out_runtime (serve L rt x)) = rt_auth rt \<and>
   (rt_cache (out_runtime (serve L rt x)) = rt_cache rt \<or>
    (\<exists>k. rt_cache (out_runtime (serve L rt x)) = snd (check_and_mark (served_at x) k (rt_cache rt))))"
proof -
  obtain req env report where x: "x = (req, env, report)" by (cases x)
  have "rt_auth (out_runtime (scan_body L rt req env d ep)) = rt_auth rt \<and>
      (rt_cache (out_runtime (scan_body L rt req env d ep)) = rt_cache rt \<or>
       (\<exists>k. rt_cache (out_runtime (scan_body L rt req env d ep)) =
          snd (check_and_mark (re_now_cache env) k (rt_cache rt))))" for d ep
    using scan_body_runtime [of L rt req env d ep] authenticate_cache by metis
  then show ?thesis
    by (simp add: x serve_def scan_attachment_def scan_attachment_document_scan_report_def)
qed

lemma run_checks_Cons: "run_checks check ((t, k) # xs) s = run_checks check xs (snd (check t k s))"
  by simp

lemma serve_all_runtime:
  assumes "sorted (map served_at xs)"
  shows "rt_auth (serve_all L rt xs) = rt_auth rt \<and>
    (\<exists>cs. rt_cache (serve_all L rt xs) = run_checks check_and_mark cs (rt_cache rt) \<and>
       sorted (map fst cs) \<and> set (map fst cs) \<subseteq> set (map served_at xs) \<and> length cs \<le> length xs)"
  using assms
proof (induction xs arbitrary: rt)
  case Nil
  then show ?case by (auto intro: exI [of _ "[]"])
next
  case (Cons x xs)
  let ?rt = "out_runtime (serve L rt x)"
  obtain cs where cs: "rt_cache (serve_all L ?rt xs) = run_checks check_and_mark cs (rt_cache ?rt)"
    "sorted (map fst cs)" "set (map fst cs) \<subseteq> set (map served_at xs)" "length cs \<le> length xs"
    and auth: "rt_auth (serve_all L ?rt xs) = rt_auth ?rt"
    using Cons.IH [of ?rt] Cons.prems by auto
  consider "rt_cache ?rt = rt_cache rt"
    | k where "rt_cache ?rt = snd (check_and_mark (served_at x) k (rt_cache rt))"
    using serve_runtime by blast
  then show ?case
  proof cases
    case 1
    then show ?thesis using cs auth serve_runtime [of L rt x] by (intro conjI exI [of _ cs]) auto
  next
    case 2
    have "sorted (map fst ((served_at x, k) # cs))" using cs(2,3) Cons.prems by fastforce
    then show ?thesis
      using cs 2 auth serve_runtime [of L rt x]
      by (intro conjI exI [of _ "(served_at x, k) # cs"]) auto
  qed
qed

text \<open>An authenticated request passed the gate, and its key was accepted by the cache.\<close>

lemma authenticate_accepted:
  assumes "authenticate rt req payload env = (Inr (), c)" "require_hmac (rt_auth rt)"
  shows "\<exists>key rk. validate_api_key (rt_auth rt) (hr_headers req ''X-API-Key'') (rq_request_id payload) = Inr key \<and>
    hmac_gate (rt_auth rt) req payload key (re_now_auth env) = Inr rk \<and>
    fst (check_and_mark (re_now_cache env) rk (rt_cache rt)) \<and>
    c = snd (check_and_mark (re_now_cache env) rk (rt_cache rt))"
proof -
  obtain key where key: "validate_api_key (rt_auth rt) (hr_headers req ''X-API-Key'') (rq_request_id payload) = Inr key"
    "validate_hmac (rt_auth rt) req payload key (re_now_auth env) (re_now_cache env) (rt_cache rt) = (Inr (), c)"
    using assms(1) by (auto simp: authenticate_def split: sum.splits)
  then have "fst (validate_hmac (rt_auth rt) req payload key (re_now_auth env) (re_now_cache env) (rt_cache rt)) = Inr ()"
    "snd (validate_hmac (rt_auth rt) req payload key (re_now_auth env) (re_now_cache env) (rt_cache rt)) = c"
    by simp_all
  with key(1) show ?thesis using assms(2) by (auto simp: validate_hmac_ok_iff validate_hmac_state)
qed


lemma serve_answered:
  assumes "out_result (serve L rt x) = Inr r" "require_hmac (rt_auth rt)"
  shows "\<exists>payload key rk. parse_payload L (fst x) (re_uuid_request (fst (snd x))) = Inr payload \<and>
    validate_api_key (rt_auth rt) (hr_headers (fst x) ''X-API-Key'') (rq_request_id payload) = Inr key \<and>
    hmac_gate (rt_auth rt) (fst x) payload key (re_now_auth (fst (snd x))) = Inr rk \<and>
    fst (check_and_mark (served_at x) rk (rt_cache rt)) \<and>
    rt_cache (out_runtime (serve L rt x)) = snd (check_and_mark (served_at x) rk (rt_cache rt))"
proof -
  obtain req env report where x: "x = (req, env, report)" by (cases x)
  have *: "\<exists>payload key rk. parse_payload L req (re_uuid_request env) = Inr payload \<and>
    validate_api_key (rt_auth rt) (hr_headers req ''X-API-Key'') (rq_request_id payload) = Inr key \<and>
    hmac_gate (rt_auth rt) req payload key (re_now_auth env) = Inr rk \<and>
    fst (check_and_mark (re_now_cache env) rk (rt_cache rt)) \<and>
    rt_cache (out_runtime (scan_body L rt req env d ep)) = snd (check_and_mark (re_now_cache env) rk (rt_cache rt))"
    if res: "out_result (scan_body L rt req env d ep) = Inr r" for d ep
  proof -
    obtain payload where parsed: "parse_payload L req (re_uuid_request env) = Inr payload"
      using res by (cases "parse_payload L req (re_uuid_request env)") (auto simp: scan_body_def)
    obtain a c where ac: "authenticate rt req payload env = (a, c)"
      by (cases "authenticate rt req payload env")
    have p: "authenticate rt req payload env = (Inr (), c)"
      and c: "rt_cache (out_runtime (scan_body L rt req env d ep)) = c"
      using res ac by (cases a; simp add: scan_body_payload [OF parsed] answer_scan_runtime)+
    show ?thesis using authenticate_accepted [OF p assms(2)] parsed c by blast
  qed
  show ?thesis
    using assms(1) * [of False] * [of True]
    by (auto simp: x serve_def scan_attachment_def scan_attachment_document_scan_report_def split: if_splits)
qed

lemma parse_payload_tenant:
  assumes "parse_payload L req uuid = Inr p" "parse_payload L req' uuid' = Inr p'" "hr_body req' = hr_body req"
  shows "rq_tenant_id p' = rq_tenant_id p"
  using assms by (auto simp: parse_payload_def split: sum.splits exn.splits if_splits)

lemma validate_api_key_same:
  assumes "validate_api_key cfg h rid = Inr k" "validate_api_key cfg h rid' = Inr k'"
  shows "k' = k"
  using validate_api_key_Inr(1) [OF assms(1)] validate_api_key_Inr(1) [OF assms(2)] by simp

lemma serve_not_answered: "out_posts (serve L rt x) > 0 \<Longrightarrow> libs_contract L \<Longrightarrow> env_ok (fst (snd x)) \<Longrightarrow>
   \<exists>r. out_result (serve L rt x) = Inr r"
proof -
  assume posts: "out_posts (serve L rt x) > 0" and lib: "libs_contract L" and env: "env_ok (fst (snd x))"
  obtain req env report where x: "x = (req, env, report)" by (cases x)
  have "\<exists>r. out_result (scan_body L rt req env d ep) = Inr r" if "out_posts (scan_body L rt req env d ep) > 0" for d ep
    using env that
    by (cases rule: libs_contract.scan_body_cases [OF lib, of env req rt d ep]) (auto simp: x)
  then show ?thesis
    using posts by (auto simp: x serve_def scan_attachment_def scan_attachment_document_scan_report_def split: if_splits)
qed

section \<open>Replays\<close>

text \<open>Two requests with the same body, key, timestamp and nonce have the same replay key, and the
  second check of it fails.\<close>

lemma second_mark_refused:
  assumes inv: "1 \<le> m" "cache_inv ttl m start c"
    and parsed: "parse_payload L req uuid1 = Inr p1" "parse_payload L req' uuid2 = Inr p2"
    and key: "validate_api_key cfg (hr_headers req ''X-API-Key'') (rq_request_id p1) = Inr key1"
      "validate_api_key cfg (hr_headers req' ''X-API-Key'') (rq_request_id p2) = Inr key2"
    and gate: "hmac_gate cfg req p1 key1 now1 = Inr rk1" "hmac_gate cfg req' p2 key2 now2 = Inr rk2"
    and ok: "fst (check_and_mark c_now1 rk1 c)"
    and same: "hr_body req' = hr_body req" "hr_headers req' ''X-API-Key'' = hr_headers req ''X-API-Key''"
      "header req' ''X-Timestamp'' = header req ''X-Timestamp''" "header req' ''X-Nonce'' = header req ''X-Nonce''"
    and clocks: "0 \<le> now1" "now1 \<le> c_now1" "start \<le> c_now1" "0 \<le> now2" "c_now2 \<le> now2 + d"
      "sorted (c_now1 # map fst cs @ [c_now2])"
    and ttl: "of_int (2 * auth_skew_sec cfg + 1) + d \<le> of_int ttl" and few: "int (length cs) < m"
  shows "\<not> fst (check_and_mark c_now2 rk2 (run_checks check_and_mark cs (snd (check_and_mark c_now1 rk1 c))))"
proof -
  have "key2 = key1" using validate_api_key_same key same(2) by metis
  moreover have "rq_tenant_id p2 = rq_tenant_id p1" by (rule parse_payload_tenant [OF parsed same(1)])
  ultimately have rk: "rk2 = rk1" using gate same(4) by (simp add: hmac_gate_Inr)
  have "now2 < now1 + of_int (2 * auth_skew_sec cfg + 1)"
    using gate same(3) skew_window [OF clocks(1,4)] by (auto simp only: hmac_gate_Inr option.inject)
  then have "c_now2 < c_now1 + of_int ttl" using clocks(2,5) ttl by linarith
  moreover have "length cs \<le> nat (m - 1)" using few by linarith
  ultimately show ?thesis
    unfolding rk using nonce_cache.no_replay [of m ttl start c c_now1 rk1 cs c_now2] inv clocks(3,6) ok by simp
qed

lemma replay_not_answered:
  assumes hmac: "require_hmac (rt_auth rt)" and inv: "1 \<le> m" "cache_inv ttl m start (rt_cache rt)"
    and first: "out_result (serve L rt (req, env1, report1)) = Inr r1"
    and same: "hr_body req' = hr_body req" "hr_headers req' ''X-API-Key'' = hr_headers req ''X-API-Key''"
      "header req' ''X-Timestamp'' = header req ''X-Timestamp''" "header req' ''X-Nonce'' = header req ''X-Nonce''"
    and clocks: "0 \<le> re_now_auth env1" "re_now_auth env1 \<le> re_now_cache env1" "start \<le> re_now_cache env1"
      "0 \<le> re_now_auth env2" "re_now_cache env2 \<le> re_now_auth env2 + d"
      "sorted (re_now_cache env1 # map served_at xs @ [re_now_cache env2])"
    and ttl: "of_int (2 * auth_skew_sec (rt_auth rt) + 1) + d \<le> of_int ttl" and few: "int (length xs) < m"
  shows "out_result (serve L (serve_all L (out_runtime (serve L rt (req, env1, report1))) xs) (req', env2, report2)) \<noteq> Inr r2"
proof
  let ?rt1 = "out_runtime (serve L rt (req, env1, report1))"
  let ?rt2 = "serve_all L ?rt1 xs"
  assume second: "out_result (serve L ?rt2 (req', env2, report2)) = Inr r2"
  from serve_answered [OF first hmac] obtain p1 key1 rk1 where
    p1: "parse_payload L req (re_uuid_request env1) = Inr p1"
    "validate_api_key (rt_auth rt) (hr_headers req ''X-API-Key'') (rq_request_id p1) = Inr key1"
    and g1: "hmac_gate (rt_auth rt) req p1 key1 (re_now_auth env1) = Inr rk1"
    and ok1: "fst (check_and_mark (re_now_cache env1) rk1 (rt_cache rt))"
    and c1: "rt_cache ?rt1 = snd (check_and_mark (re_now_cache env1) rk1 (rt_cache rt))"
    by auto
  have srt: "sorted (map served_at xs)" using clocks(6) by (auto simp: sorted_append)
  obtain cs where cs: "rt_cache ?rt2 = run_checks check_and_mark cs (rt_cache ?rt1)"
    "sorted (map fst cs)" "set (map fst cs) \<subseteq> set (map served_at xs)" "length cs \<le> length xs"
    and auth: "rt_auth ?rt2 = rt_auth rt"
    using serve_all_runtime [OF srt, of L ?rt1] serve_runtime [of L rt "(req, env1, report1)"] by auto
  from serve_answered [OF second] hmac auth obtain p2 key2 rk2 where
    p2: "parse_payload L req' (re_uuid_request env2) = Inr p2"
    "validate_api_key (rt_auth rt) (hr_headers req' ''X-API-Key'') (rq_request_id p2) = Inr key2"
    and g2: "hmac_gate (rt_auth rt) req' p2 key2 (re_now_auth env2) = Inr rk2"
    and ok2: "fst (check_and_mark (re_now_cache env2) rk2 (rt_cache ?rt2))"
    by auto
  have "sorted (re_now_cache env1 # map fst cs @ [re_now_cache env2])"
    using clocks(6) cs(2,3) by (fastforce simp: sorted_append)
  moreover have "int (length cs) < m" using few cs(4) by linarith
  ultimately have "\<not> fst (check_and_mark (re_now_cache env2) rk2 (rt_cache ?rt2))"
    unfolding cs(1) c1 by (intro second_mark_refused [OF inv p1(1) p2(1) p1(2) p2(2) g1 g2 ok1 same clocks(1-5) _ ttl])
  with ok2 show False by simp
qed

section \<open>Failures\<close>

lemma match_api_key_Inl: "match_api_key key ks = Inl e \<Longrightarrow> e = TypeError \<or> e = UnicodeEncodeError"
  by (induction ks)
    (auto simp: Let_def bindE_eq_Inl compare_digest_def dest: encodeE_Inl split: if_splits)

lemma validate_api_key_Inl:
  assumes "validate_api_key cfg provided rid = Inl e"
  shows "(\<exists>m. e = http_error 401 ''unauthorized'' m rid []) \<or>
    (e = TypeError \<or> e = UnicodeEncodeError) \<and>
      (\<not> is_ascii (strip (opt_or provided [])) \<or> (\<exists>k\<in>set (api_keys cfg). \<not> is_ascii (strip k)))"
proof (cases "is_ascii (strip (opt_or provided [])) \<and> (\<forall>k\<in>set (api_keys cfg). is_ascii (strip k))")
  case True
  then show ?thesis
    using assms match_api_key_ascii [of "strip (opt_or provided [])" "api_keys cfg"]
    by (auto simp: validate_api_key_def Let_def split: if_splits)
next
  case False
  then show ?thesis
    using assms by (auto simp: validate_api_key_def Let_def bindE_eq_Inl dest: match_api_key_Inl split: if_splits)
qed

lemma handle_http_error [simp]:
  "handle_exception (http_error s c m r d) =
     \<lparr>reply_status = s, reply_body = error_payload r c (JStr (u m)) d\<rparr>"
  by (simp add: handle_exception_def http_error_def http_exception_handler_def has_error_key_def error_payload_def)

lemma handle_builtin [simp]:
  "reply_status (handle_exception TypeError) = 500" "reply_status (handle_exception UnicodeEncodeError) = 500"
  by (simp_all add: handle_exception_def fallback_exception_handler_def)

context libs_contract
begin

lemma parse_payload_Inl:
  assumes "parse_payload L req uuid = Inl e"
  shows "\<exists>m d. e = http_error 400 ''bad_request'' m None d"
proof (cases "bindE (decodeE (hr_body req)) loadsE")
  case (Inl e')
  with assms show ?thesis by (auto simp: parse_payload_def)
next
  case (Inr j)
  with assms obtain e' where e': "model_validate L j = Inl e'"
    by (cases "model_validate L j") (auto simp: parse_payload_def)
  with assms Inr model_validate_Inl [OF e'] show ?thesis by (auto simp: parse_payload_def)
qed

end

lemma authenticate_failures:
  assumes "authenticate rt req payload env = (Inl e, c)"
  shows "reply_status (handle_exception e) \<in> {401, 409} \<or>
    reply_status (handle_exception e) = 500 \<and>
      (\<not> is_ascii (strip (opt_or (hr_headers req ''X-API-Key'') [])) \<or>
       (\<exists>k\<in>set (api_keys (rt_auth rt)). \<not> is_ascii (strip k)) \<or> \<not> is_ascii (header req ''X-Signature'') \<or>
       \<not> (text_ok (request_canonical req payload) \<and> text_ok (hmac_secret (rt_auth rt)) \<and>
          text_ok (rq_tenant_id payload) \<and> text_ok (strip (opt_or (hr_headers req ''X-API-Key'') [])) \<and>
          text_ok (header req ''X-Nonce'')))"
proof (cases "validate_api_key (rt_auth rt) (hr_headers req ''X-API-Key'') (rq_request_id payload)")
  case (Inl e')
  then have "e' = e" using assms by (simp add: authenticate_def)
  with validate_api_key_Inl [OF Inl] show ?thesis by auto
next
  case (Inr key)
  then have v: "fst (validate_hmac (rt_auth rt) req payload key (re_now_auth env) (re_now_cache env) (rt_cache rt)) = Inl e"
    using assms by (simp add: authenticate_def)
  have "key = strip (opt_or (hr_headers req ''X-API-Key'') [])" by (rule validate_api_key_Inr(1) [OF Inr])
  with hmac_failures [OF v] show ?thesis by auto
qed

text \<open>Any effect of a request presupposes that it was parsed and authenticated.\<close>

lemma scan_body_effects:
  assumes "0 < out_posts out \<or> out_audit out \<noteq> [] \<or> rt_omega (out_runtime out) \<noteq> rt_omega rt \<or>
      (\<exists>r. out_result out = Inr r)" and out: "out = scan_body L rt req env debug endpoint"
  shows "\<exists>payload. parse_payload L req (re_uuid_request env) = Inr payload \<and>
    fst (authenticate rt req payload env) = Inr ()"
proof (cases "parse_payload L req (re_uuid_request env)")
  case (Inl e)
  with assms show ?thesis by (auto simp: scan_body_def)
next
  case (Inr payload)
  obtain a c where a: "authenticate rt req payload env = (a, c)" by (cases "authenticate rt req payload env")
  show ?thesis
  proof (cases a)
    case (Inl e)
    with assms a show ?thesis by (auto simp: scan_body_payload [OF Inr])
  qed (use Inr a in auto)
qed

lemma serve_effects:
  assumes "0 < out_posts out \<or> out_audit out \<noteq> [] \<or> rt_omega (out_runtime out) \<noteq> rt_omega rt \<or>
      (\<exists>r. out_result out = Inr r)" and out: "out = serve L rt (req, env, report)"
  shows "\<exists>payload. parse_payload L req (re_uuid_request env) = Inr payload \<and>
    fst (authenticate rt req payload env) = Inr ()"
  using assms scan_body_effects [of out rt L req env]
  by (auto simp: serve_def scan_attachment_def scan_attachment_document_scan_report_def split: if_splits)

section \<open>A concrete connector\<close>

definition demo_rt :: connector_runtime where
  "demo_rt = new_runtime demo_settings"

definition demo_renv :: "real \<Rightarrow> (nat \<Rightarrow> attempt) \<Rightarrow> request_env" where
  "demo_renv now net =
     \<lparr>re_uuid_request = u ''a1'', re_uuid_reply = u ''a2'', re_uuid_evidence = u ''a3'',
      re_now_auth = now, re_now_cache = now,
      re_omega = \<lparr>oe_now_check = now, oe_now_sign = now, oe_now_fail = now, oe_nonce = u ''b'', oe_net = net\<rparr>\<rparr>"

lemma demo_rt_facts [simp]:
  "rt_auth demo_rt = demo_cfg" "rt_cache demo_rt = new_cache 700 100000" "rt_settings demo_rt = demo_settings"
  "oc_retry_count (rt_omega demo_rt) = 1" "oc_require_hmac (rt_omega demo_rt) = False"
  "oc_state (rt_omega demo_rt) = new_circuit"
  by (simp_all add: demo_rt_def new_runtime_def demo_settings_def demo_cfg_def new_omega_client_def)

lemma demo_renv_ok: "env_ok (demo_renv now net)"
  unfolding env_ok_def demo_renv_def by simp code_simp

lemma demo_renv_facts [simp]:
  "re_now_auth (demo_renv now net) = now" "re_now_cache (demo_renv now net) = now"
  "oe_net (re_omega (demo_renv now net)) = net" "oe_now_check (re_omega (demo_renv now net)) = now"
  by (simp_all add: demo_renv_def)

definition demo_obj :: jobj where
  "demo_obj = [(u ''tenant_id'', JStr (u ''t1'')), (u ''request_id'', JStr (u ''r1'')),
     (u ''extracted_text'', JStr (u ''hi''))]"

lemma demo_parse:
  assumes "hr_body req = demo_body"
  shows "parse_payload declared_libs req uuid = Inr demo_payload"
proof -
  have "bindE (decodeE demo_body) loadsE = Inr (JObj demo_obj)" by code_simp
  moreover have "model_validate declared_libs (JObj demo_obj) = Inr demo_payload" by code_simp
  moreover have "opt_truthy (rq_request_id demo_payload)" by code_simp
  ultimately show ?thesis using assms by (simp add: parse_payload_def)
qed

lemma demo_signed_facts [simp]:
  "hr_body (demo_signed ts) = demo_body" "hr_headers (demo_signed ts) ''X-API-Key'' = Some (u ''k1'')"
  by (simp_all add: demo_signed_def signed_def add_header_def demo_request_def split: sum.split)

lemma demo_key: "validate_api_key demo_cfg (Some (u ''k1'')) rid = Inr (u ''k1'')"
proof -
  have "match_api_key (u ''k1'') [u ''k1''] = Inr True" by code_simp
  moreover have "strip (u ''k1'') = u ''k1''" "u ''k1'' \<noteq> []" by code_simp+
  ultimately show ?thesis by (simp add: validate_api_key_def Let_def demo_cfg_def)
qed

lemma demo_authenticate:
  assumes "\<bar>trunc now - 1000\<bar> \<le> 300"
  shows "fst (authenticate demo_rt (demo_signed ''1000'') demo_payload (demo_renv now net)) = Inr ()"
proof -
  obtain rk where "hmac_gate demo_cfg (demo_signed ''1000'') demo_payload (u ''k1'') now = Inr rk"
    using demo_gate [OF demo_1000 assms] by blast
  then show ?thesis by (simp add: authenticate_def demo_key validate_hmac_ok_iff fst_check)
qed

lemma demo_payload_ok: "payload_ok demo_payload"
proof -
  have "text_ok (u ''t1'')" "text_ok (u ''r1'')" "u ''t1'' \<noteq> []" "u ''r1'' \<noteq> []" by code_simp+
  then show ?thesis by (simp add: payload_ok_def demo_payload_def)
qed

text \<open>A network that never answers.\<close>

definition net_down :: "nat \<Rightarrow> attempt" where
  "net_down i = TimedOut"

lemma demo_answered:
  assumes "\<bar>trunc now - 1000\<bar> \<le> 300"
  shows "\<exists>r. out_result (scan_attachment declared_libs demo_rt (demo_signed ''1000'') (demo_renv now net)) = Inr r"
  using demo_renv_ok [of now net]
proof (cases rule: declared.scan_body_cases
    [of "demo_renv now net" "demo_signed ''1000''" demo_rt False "u ''/v1/scan/attachment''"])
  case (bad_payload e)
  then show ?thesis by (simp add: demo_parse)
next
  case (refused payload e c)
  then show ?thesis using demo_authenticate [OF assms, of net] by (simp add: demo_parse)
next
  case (answered payload c r j)
  then show ?thesis by (simp add: scan_attachment_def)
qed

end
