(* ===== verification/Connector_Properties.thy ===== *)
theory Connector_Properties
  imports Scan_Decisions
begin

text \<open>
  The properties of the connector's endpoints (\<open>connector/app.py\<close>), each with a concrete
  instance: the connector of \<open>demo_settings\<close> with the declared library behaviour.
\<close>

text \<open>No replay at the endpoints: once a request has been answered with a decision, no request with
  the same body, API key, timestamp and nonce is answered with a decision again, at either
  endpoint, after any history of fewer than \<open>max_entries\<close> requests served in between, if the
  nonce TTL exceeds twice the skew by more than a second plus the clock delay \<open>d\<close>; nor does the
  repetition reach Omega.\<close>

theorem replayed_scan_refused:
  assumes "libs_contract L" "env_ok env'"
    and "require_hmac (rt_auth rt)" "1 \<le> m" "cache_inv ttl m start (rt_cache rt)"
    and "out_result (serve L rt (req, env, report)) = Inr r1"
    and "hr_body req' = hr_body req" "hr_headers req' ''X-API-Key'' = hr_headers req ''X-API-Key''"
      "header req' ''X-Timestamp'' = header req ''X-Timestamp''" "header req' ''X-Nonce'' = header req ''X-Nonce''"
    and "0 \<le> re_now_auth env" "re_now_auth env \<le> re_now_cache env" "start \<le> re_now_cache env"
      "0 \<le> re_now_auth env'" "re_now_cache env' \<le> re_now_auth env' + d"
      "sorted (re_now_cache env # map served_at xs @ [re_now_cache env'])"
    and "of_int (2 * auth_skew_sec (rt_auth rt) + 1) + d \<le> of_int ttl" "int (length xs) < m"
    and out: "out = serve L (serve_all L (out_runtime (serve L rt (req, env, report))) xs) (req', env', report')"
  shows "(\<exists>e. out_result out = Inl e) \<and> out_posts out = 0"
proof -
  have "out_result out \<noteq> Inr r2" for r2
    unfolding out by (rule replay_not_answered [OF assms(3-18)])
  then have no: "\<exists>e. out_result out = Inl e" by (metis sum.exhaust)
  then have "\<not> 0 < out_posts out"
    using serve_not_answered [of L _ "(req', env', report')"] assms(1,2) out by fastforce
  with no show ?thesis by simp
qed

theorem replayed_scan_refused_witness:
  "(\<exists>e. out_result (serve declared_libs
      (serve_all declared_libs (out_runtime (serve declared_libs demo_rt
         (demo_signed ''1000'', demo_renv 1000 net_down, False))) [(demo_request ''1000'', demo_renv 1050 net_down, True)])
      (demo_signed ''1000'', demo_renv 1100 net_down, False)) = Inl e) \<and>
   out_posts (serve declared_libs
      (serve_all declared_libs (out_runtime (serve declared_libs demo_rt
         (demo_signed ''1000'', demo_renv 1000 net_down, False))) [(demo_request ''1000'', demo_renv 1050 net_down, True)])
      (demo_signed ''1000'', demo_renv 1100 net_down, False)) = 0"
proof -
  obtain r where "out_result (serve declared_libs demo_rt (demo_signed ''1000'', demo_renv 1000 net_down, False)) = Inr r"
    using demo_answered [of 1000 net_down] by (auto simp: trunc_nonneg serve_def)
  then show ?thesis
    by (intro replayed_scan_refused [where m = 100000 and ttl = 700 and start = 0 and d = 0 and rt = demo_rt
          and req = "demo_signed ''1000''" and env = "demo_renv 1000 net_down" and report = False
          and env' = "demo_renv 1100 net_down" and xs = "[(demo_request ''1000'', demo_renv 1050 net_down, True)]"
          and req' = "demo_signed ''1000''" and report' = False and L = declared_libs])
      (simp_all add: cache_inv_new declared.libs_contract_axioms demo_renv_ok, simp_all add: demo_cfg_def)
qed



text \<open>Fail-safe: a response with verdict \<open>allow\<close> needs either the explicit fail mode \<open>allow\<close>, or an
  answer of Omega with a status below 400 whose body is an object that says \<open>allow\<close>.\<close>

theorem allow_needs_omega_or_fail_mode:
  assumes "libs_contract L" "env_ok env" "0 \<le> oc_retry_count (rt_omega rt)"
    and "out_result (serve L rt (req, env, report)) = Inr r" "rs_verdict r = u ''allow''"
  shows "connector_fail_mode (rt_settings rt) = u ''allow'' \<or>
    (\<exists>k a kvs v. oe_net (re_omega env) k = Answered a \<and> up_status a < 400 \<and> up_json a = Some (JObj kvs) \<and>
       map_of kvs (u ''verdict'') = Some v \<and> lower (strip (py_str v)) = u ''allow'')"
proof -
  obtain debug endpoint where res: "out_result (scan_body L rt req env debug endpoint) = Inr r"
    using assms(4) by (auto simp: serve_def scan_attachment_def scan_attachment_document_scan_report_def split: if_splits)
  obtain payload where p: "payload_ok payload" "fst (decide L rt payload debug env) = Inr r"
    using res
    by (cases rule: libs_contract.scan_body_cases [OF assms(1,2), of req rt debug endpoint]) auto
  show ?thesis
    by (rule libs_contract.decide_allow [OF assms(1) p(1) assms(2) p(2) assms(5,3)])
qed

theorem allow_needs_omega_or_fail_mode_witness:
  "\<exists>r. out_result (serve declared_libs demo_rt (demo_signed ''1000'', demo_renv 1000 net_down, False)) = Inr r \<and>
     rs_verdict r \<noteq> u ''allow''"
proof -
  obtain r where r: "out_result (serve declared_libs demo_rt (demo_signed ''1000'', demo_renv 1000 net_down, False)) = Inr r"
    using demo_answered [of 1000 net_down] by (auto simp: trunc_nonneg serve_def)
  moreover have "connector_fail_mode demo_settings \<noteq> u ''allow''" by (simp add: demo_settings_def)
  ultimately show ?thesis
    using allow_needs_omega_or_fail_mode [OF declared.libs_contract_axioms demo_renv_ok _ r] by (auto simp: net_down_def)
qed

text \<open>C1: Nothing happens before authentication: if a request makes the connector post to Omega,
  change the breaker, write an audit record or answer with a decision, then its body parsed, its
  API key is a configured one, and (with HMAC required) its timestamp is within the skew and its
  signature header is the signature of its own canonical string under the connector's secret.\<close>

theorem effects_need_authentication:
  assumes "0 < out_posts out \<or> out_audit out \<noteq> [] \<or> rt_omega (out_runtime out) \<noteq> rt_omega rt \<or>
      (\<exists>r. out_result out = Inr r)"
    and "out = serve L rt (req, env, report)" and "require_hmac (rt_auth rt)"
  shows "\<exists>payload key ts. parse_payload L req (re_uuid_request env) = Inr payload \<and>
    key = strip (opt_or (hr_headers req ''X-API-Key'') []) \<and>
    (\<exists>k\<in>set (api_keys (rt_auth rt)). key_matches key k) \<and>
    py_int_str (header req ''X-Timestamp'') = Some ts \<and>
    \<bar>trunc (re_now_auth env) - ts\<bar> \<le> auth_skew_sec (rt_auth rt) \<and> hmac_secret (rt_auth rt) \<noteq> [] \<and>
    sign_canonical (request_canonical req payload) (hmac_secret (rt_auth rt)) = Inr (header req ''X-Signature'')"
proof -
  obtain payload where p: "parse_payload L req (re_uuid_request env) = Inr payload"
    "fst (authenticate rt req payload env) = Inr ()"
    using serve_effects [OF assms(1,2)] by blast
  obtain key where key: "validate_api_key (rt_auth rt) (hr_headers req ''X-API-Key'') (rq_request_id payload) = Inr key"
    using p(2) by (cases "validate_api_key (rt_auth rt) (hr_headers req ''X-API-Key'') (rq_request_id payload)")
      (auto simp: authenticate_def)
  then have "fst (validate_hmac (rt_auth rt) req payload key (re_now_auth env) (re_now_cache env) (rt_cache rt)) = Inr ()"
    using p(2) by (simp add: authenticate_def)
  then obtain rk where "hmac_gate (rt_auth rt) req payload key (re_now_auth env) = Inr rk"
    using assms(3) by (auto simp: validate_hmac_ok_iff)
  then show ?thesis
    using p(1) validate_api_key_Inr(1,3) [OF key] unfolding hmac_gate_Inr by blast
qed

theorem effects_need_authentication_witness:
  "\<exists>payload. parse_payload declared_libs (demo_signed ''1000'') (re_uuid_request (demo_renv 1000 net_down)) = Inr payload \<and>
     sign_canonical (request_canonical (demo_signed ''1000'') payload) (hmac_secret demo_cfg) =
       Inr (header (demo_signed ''1000'') ''X-Signature'')"
proof -
  obtain r where "out_result (serve declared_libs demo_rt (demo_signed ''1000'', demo_renv 1000 net_down, False)) = Inr r"
    using demo_answered [of 1000 net_down] by (auto simp: trunc_nonneg serve_def)
  then show ?thesis
    using effects_need_authentication [of "serve declared_libs demo_rt (demo_signed ''1000'', demo_renv 1000 net_down, False)"
        demo_rt declared_libs "demo_signed ''1000''" "demo_renv 1000 net_down" False]
    by (auto simp: demo_cfg_def)
qed



text \<open>C27: A non-ASCII API key is not refused with 401 but crashes the handler: when the first
  configured entry is a plain key, \<open>compare_digest\<close> raises \<open>TypeError\<close> and the client gets the
  generic 500 envelope.  The runtime is left as it was.\<close>

theorem non_ascii_key_is_500:
  assumes "parse_payload L req (re_uuid_request env) = Inr payload"
    and "\<not> is_ascii (strip (opt_or (hr_headers req ''X-API-Key'') []))"
    and "api_keys (rt_auth rt) = k # ks" "strip k \<noteq> []" "\<not> startswith (strip k) sha256_prefix"
  shows "reply_of (scan_attachment L rt req env) =
      \<lparr>reply_status = 500,
       reply_body = error_payload None ''internal_error'' (JStr (u ''internal server error'')) []\<rparr> \<and>
    out_runtime (scan_attachment L rt req env) = rt"
proof -
  have "validate_api_key (rt_auth rt) (hr_headers req ''X-API-Key'') (rq_request_id payload) = Inl TypeError"
    using assms(2-5) by (auto simp: validate_api_key_def Let_def compare_digest_def)
  then have "authenticate rt req payload env = (Inl TypeError, rt_cache rt)"
    by (simp add: authenticate_def)
  then show ?thesis
    by (simp add: scan_attachment_def scan_body_payload [OF assms(1)] reply_of_def handle_exception_def
        fallback_exception_handler_def error_response_def)
qed

theorem non_ascii_key_is_500_witness:
  "reply_status (reply_of (scan_attachment declared_libs demo_rt
     (add_header (demo_request ''1000'') ''X-API-Key'' [107, 233]) (demo_renv 1000 net_down))) = 500"
proof -
  have "parse_payload declared_libs (add_header (demo_request ''1000'') ''X-API-Key'' [107, 233]) (re_uuid_request (demo_renv 1000 net_down)) = Inr demo_payload"
    by (rule demo_parse) (simp add: demo_request_def)
  moreover have "\<not> is_ascii (strip (opt_or (Some [107, 233]) []))" by code_simp
  moreover have "strip (u ''k1'') \<noteq> []" "\<not> startswith (strip (u ''k1'')) sha256_prefix" by code_simp+
  ultimately show ?thesis
    using non_ascii_key_is_500 [of declared_libs "add_header (demo_request ''1000'') ''X-API-Key'' [107, 233]"
        "demo_renv 1000 net_down" demo_payload demo_rt "u ''k1''" "[]"]
    by (simp add: add_header_def demo_cfg_def)
qed

text \<open>Every answered request leaves exactly one audit record, of the decision that was returned;
  with redaction on, the record names the tenant only by the SHA-256 digest of its UTF-8 bytes.
  A request that is not answered leaves none.\<close>

theorem audit_record:
  assumes lib: "libs_contract L" and env: "env_ok env"
  shows "case out_result (serve L rt (req, env, report)) of
      Inl e \<Rightarrow> out_audit (serve L rt (req, env, report)) = []
    | Inr r \<Rightarrow> \<exists>bs kvs. encodeE (rs_tenant_id r) = Inr bs \<and>
        out_audit (serve L rt (req, env, report)) = [JObj kvs] \<and>
        map_of kvs (u ''tenant_id'') = Some (JStr (if audit_redaction (rt_settings rt) then hex (sha256 bs) else rs_tenant_id r)) \<and>
        map_of kvs (u ''verdict'') = Some (JStr (rs_verdict r)) \<and>
        map_of kvs (u ''risk_score'') = Some (JInt (rs_risk_score r)) \<and>
        map_of kvs (u ''request_id'') = Some (JStr (rs_request_id r)) \<and>
        map_of kvs (u ''reasons'') = Some (JArr (map JStr (rs_reasons r)))"
    (is "?ok (serve L rt (req, env, report))")
proof -
  have "?ok (scan_body L rt req env d ep)" for d ep
    using env
  proof (cases rule: libs_contract.scan_body_cases [OF lib, of env req rt d ep, consumes 1, case_names bad_payload refused answered])
    case (answered payload c r j)
    obtain bs where "encodeE (rs_tenant_id r) = Inr bs"
      using answered(6) encodeE_scalar [of "rs_tenant_id r"] by (auto simp: declared_response_def text_ok_def)
    then show ?thesis using answered audit_log_fields by (fastforce simp: hash_str_def)
  qed simp_all
  then show ?thesis
    by (cases rule: serve_cases [of L rt req env report]) (simp_all only: outcome.select_convs sum.case)
qed

theorem audit_record_witness:
  "\<exists>j. out_audit (serve declared_libs demo_rt (demo_signed ''1000'', demo_renv 1000 net_down, False)) = [j]"
proof -
  obtain r where "out_result (serve declared_libs demo_rt (demo_signed ''1000'', demo_renv 1000 net_down, False)) = Inr r"
    using demo_answered [of 1000 net_down] by (auto simp: trunc_nonneg serve_def)
  then show ?thesis
    using audit_record [OF declared.libs_contract_axioms demo_renv_ok, of demo_rt "demo_signed ''1000''" 1000 net_down False]
    by auto
qed

text \<open>C13: When no attempt at Omega is decisive, the answer is the fallback of the last attempt: a
  timeout gives \<open>omega_timeout\<close>, a connection error or a 5xx \<open>omega_unavailable\<close>, a body that is
  not JSON or any other failure \<open>invalid_response\<close>; the verdict is the fail mode, all
  \<open>retry_count + 1\<close> attempts were posted and the breaker counts one failure.\<close>

theorem exhausted_fallback:
  assumes "libs_contract L" "payload_ok payload" "env_ok env"
    and "can_attempt (oe_now_check (re_omega env)) (rt_omega rt)"
    and "prepare_request L (rt_omega rt) payload debug (re_omega env) = Inr x"
    and "0 \<le> oc_retry_count (rt_omega rt)"
    and "\<forall>j. int j \<le> oc_retry_count (rt_omega rt) \<longrightarrow> \<not> decisive (oe_net (re_omega env) j)"
  shows "decide L rt payload debug env =
    (Inr (fallback_record payload (attempt_reason (oe_net (re_omega env) (nat (oc_retry_count (rt_omega rt)))))
            (connector_fail_mode (rt_settings rt)) None None (re_uuid_reply env) (re_uuid_evidence env)),
     record_failure (oe_now_fail (re_omega env)) (rt_omega rt), nat (oc_retry_count (rt_omega rt)) + 1)"
proof -
  obtain e where e: "attempt_step (oe_net (re_omega env) (nat (oc_retry_count (rt_omega rt)))) = Failed e"
    and scan: "omega_scan L (rt_omega rt) payload debug (re_omega env) =
      (Inl (final_error (Some e)), record_failure (oe_now_fail (re_omega env)) (rt_omega rt),
       nat (oc_retry_count (rt_omega rt)) + 1)"
    using scan_never [OF assms(4-7)] by blast
  have "decide L rt payload debug env =
      (Inr (fallback_of rt payload env (final_error (Some e))),
       record_failure (oe_now_fail (re_omega env)) (rt_omega rt), nat (oc_retry_count (rt_omega rt)) + 1)"
    by (simp add: decide_parts scan Let_def libs_contract.fallback_for_Inr [OF assms(1-3)])
  with attempt_reason_correct [OF e] show ?thesis by (simp add: fallback_of_def)
qed

theorem exhausted_fallback_witness:
  "\<exists>omega. decide declared_libs demo_rt demo_payload False (demo_renv 1000 net_down) =
    (Inr (fallback_record demo_payload ''omega_timeout'' (u ''block'') None None (u ''a2'') (u ''a3'')), omega, 2)"
proof -
  obtain x where x: "prepare_request declared_libs (rt_omega demo_rt) demo_payload False (re_omega (demo_renv 1000 net_down)) = Inr x"
    using demo_content by (auto simp: prepare_request_def omega_headers_def)
  have "\<forall>j. int j \<le> oc_retry_count (rt_omega demo_rt) \<longrightarrow> \<not> decisive (oe_net (re_omega (demo_renv 1000 net_down)) j)"
    by (simp add: net_down_def decisive_def attempt_step_def)
  from exhausted_fallback [OF declared.libs_contract_axioms demo_payload_ok demo_renv_ok _ x _ this]
  show ?thesis
    by (auto simp: can_attempt_def new_circuit_def net_down_def attempt_reason_def demo_renv_def demo_settings_def
        numeral_2_eq_2)
qed

text \<open>C14: When Omega refuses a request with a 4xx, or the breaker is open, the breaker state does not
  change: the fallback names the refusal with Omega's status and detail code after exactly the
  posts up to it, or \<open>omega_unavailable\<close> with no post at all.\<close>

theorem rejected_or_open_fallback:
  assumes "libs_contract L" "payload_ok payload" "env_ok env"
    and "prepare_request L (rt_omega rt) payload debug (re_omega env) = Inr x"
    and "int k \<le> oc_retry_count (rt_omega rt)" "\<forall>j<k. \<not> decisive (oe_net (re_omega env) j)"
    and "oe_net (re_omega env) k = Answered a" "400 \<le> up_status a" "up_status a < 500"
  shows "decide L rt payload debug env =
    (if can_attempt (oe_now_check (re_omega env)) (rt_omega rt) then
       (Inr (fallback_record payload ''omega_rejected_4xx'' (connector_fail_mode (rt_settings rt))
               (Some (detail_code a)) (Some (up_status a)) (re_uuid_reply env) (re_uuid_evidence env)),
        rt_omega rt, Suc k)
     else
       (Inr (fallback_record payload ''omega_unavailable'' (connector_fail_mode (rt_settings rt))
               None None (re_uuid_reply env) (re_uuid_evidence env)), rt_omega rt, 0))"
proof (cases "can_attempt (oe_now_check (re_omega env)) (rt_omega rt)")
  case True
  have "decisive (oe_net (re_omega env) k)" using assms(7-9) by (simp add: decisive_def attempt_step_def)
  from scan_decisive [OF True assms(4,5) this assms(6)] assms(7-9)
  have "omega_scan L (rt_omega rt) payload debug (re_omega env) =
      (Inl (OmegaRejectedError (up_status a) (detail_code a) (up_text a)), rt_omega rt, Suc k)" by simp
  then show ?thesis
    using True by (simp add: decide_parts Let_def libs_contract.fallback_for_Inr [OF assms(1-3)] fallback_of_def)
next
  case False
  then show ?thesis
    by (simp add: decide_parts Let_def omega_scan_def libs_contract.fallback_for_Inr [OF assms(1-3)] fallback_of_def)
qed

theorem rejected_or_open_fallback_witness:
  "decide declared_libs demo_rt demo_payload False (demo_renv 1000 (\<lambda>_. Answered k404)) =
    (Inr (fallback_record demo_payload ''omega_rejected_4xx'' (u ''block'') (Some (u ''http_404'')) (Some 404)
       (u ''a2'') (u ''a3'')), rt_omega demo_rt, 1)"
proof -
  obtain x where x: "prepare_request declared_libs (rt_omega demo_rt) demo_payload False
      (re_omega (demo_renv 1000 (\<lambda>_. Answered k404))) = Inr x"
    using demo_content by (auto simp: prepare_request_def omega_headers_def)
  have "detail_code k404 = u ''http_404''" by code_simp
  then show ?thesis
    using rejected_or_open_fallback [OF declared.libs_contract_axioms demo_payload_ok demo_renv_ok x, of 0 k404]
    by (simp add: can_attempt_def new_circuit_def k404_def) (simp add: demo_renv_def demo_settings_def)
qed



text \<open>An unconfigured connector is closed: started without \<open>CONNECTOR_API_KEYS\<close> (or with a blank
  list), it answers no request with a decision, whatever the request is, and never posts.\<close>

theorem unconfigured_connector_is_closed:
  assumes "load_settings vars = Inr s"
    and "\<forall>item\<in>set (split_on 44 (getenv_or vars ''CONNECTOR_API_KEYS'' [])). strip item = []"
    and "rt_auth rt = rt_auth (new_runtime s)"
  shows "(\<exists>e. out_result (serve L rt (req, env, report)) = Inl e) \<and>
    out_posts (serve L rt (req, env, report)) = 0 \<and> out_audit (serve L rt (req, env, report)) = [] \<and>
    rt_omega (out_runtime (serve L rt (req, env, report))) = rt_omega rt"
proof -
  have "api_keys (rt_auth rt) = []"
    using assms(2) by (simp add: assms(3) new_runtime_def load_settings_fields(2) [OF assms(1)]
        parse_api_keys_def filter_empty_conv)
  then have "fst (authenticate rt req payload env) \<noteq> Inr ()" for payload
    by (auto simp: authenticate_def validate_api_key_def Let_def)
  then have no: "\<not> (0 < out_posts (serve L rt (req, env, report)) \<or> out_audit (serve L rt (req, env, report)) \<noteq> [] \<or>
      rt_omega (out_runtime (serve L rt (req, env, report))) \<noteq> rt_omega rt \<or>
      (\<exists>r. out_result (serve L rt (req, env, report)) = Inr r))"
    using serve_effects [of "serve L rt (req, env, report)" rt L req env report] by blast
  then have "\<exists>e. out_result (serve L rt (req, env, report)) = Inl e" by (metis sum.exhaust)
  with no show ?thesis by simp
qed

theorem unconfigured_connector_is_closed_witness:
  "\<exists>s e. load_settings (\<lambda>_. None) = Inr s \<and>
     out_result (serve declared_libs (new_runtime s) (demo_signed ''1000'', demo_renv 1000 net_down, False)) = Inl e"
proof -
  obtain s where s: "load_settings (\<lambda>_. None) = Inr s"
    by (simp add: load_settings_def as_int_def)
  moreover have "\<forall>item\<in>set (split_on 44 (getenv_or (\<lambda>_. None) ''CONNECTOR_API_KEYS'' [])). strip item = []"
    by (simp add: getenv_or_def)
  ultimately show ?thesis using unconfigured_connector_is_closed [OF s] by metis
qed

end
