(* ===== verification/SGraph_Client.thy ===== *)
theory SGraph_Client
  imports Signer
begin

text \<open>
  The files copied into the SGraph application (\<open>upstream_patches/sgraph/\<close>): the signing client
  \<open>connector_client.py\<close> and the two hooks \<open>connector_hook.py\<close> and \<open>example_hook.py\<close> that scan a
  decrypted file and enforce the verdict; and \<open>scripts/signature_helper.py\<close>, which makes the same
  headers by hand.  The network is a function from URL, headers and body to what \<open>urlopen\<close>
  gives; the text of a library exception is a parameter.
\<close>

section \<open>Client\<close>

definition client_canonical ::
  "pystr \<Rightarrow> pystr \<Rightarrow> bytes \<Rightarrow> pystr \<Rightarrow> pystr \<Rightarrow> pystr \<Rightarrow> pystr \<Rightarrow> pystr" where
  "client_canonical method path body_bytes tenant_id request_id timestamp nonce =
     join_nl
       [strip (upper method), strip path, sha256_hex body_bytes, strip tenant_id,
        strip request_id, strip timestamp, strip nonce]"

record client_config =
  cc_base_url :: pystr
  cc_api_key :: pystr
  cc_hmac_secret :: pystr
  cc_timeout_sec :: int
  cc_path_scan_attachment :: pystr

text \<open>\<open>str(payload.get(k) or "")\<close>.\<close>

definition str_field :: "jobj \<Rightarrow> string \<Rightarrow> pystr" where
  "str_field payload k =
     (case map_of payload (u k) of
        None \<Rightarrow> [] | Some v \<Rightarrow> if truthy v then py_str v else [])"

definition client_sign ::
  "client_config \<Rightarrow> pystr \<Rightarrow> bytes \<Rightarrow> pystr \<Rightarrow> pystr \<Rightarrow> real \<Rightarrow> pystr \<Rightarrow> exn + headers" where
  "client_sign cfg path body_bytes tenant_id request_id now nonce =
     (let ts = py_str_int (trunc now);
          canonical = client_canonical (u ''POST'') path body_bytes tenant_id request_id ts nonce
      in bindE (sign_canonical canonical (cc_hmac_secret cfg)) (\<lambda>signature.
         Inr [(''Content-Type'', u ''application/json''), (''X-API-Key'', cc_api_key cfg),
              (''X-Timestamp'', ts), (''X-Nonce'', nonce), (''X-Signature'', signature)]))"

definition sign_headers ::
  "client_config \<Rightarrow> jobj \<Rightarrow> bytes \<Rightarrow> real \<Rightarrow> pystr \<Rightarrow> exn + headers" where
  "sign_headers cfg payload body_bytes now nonce =
     client_sign cfg (cc_path_scan_attachment cfg) body_bytes (str_field payload ''tenant_id'')
       (str_field payload ''request_id'') now nonce"

text \<open>What \<open>urlopen\<close> gives: a body, an \<open>HTTPError\<close> with its decoded body, or another exception.\<close>

datatype exchange = Replied bytes | HttpError int pystr | OpenFailed pystr

record client_env =
  ce_now :: real
  ce_nonce :: pystr
  ce_request :: "pystr \<Rightarrow> exn option"
  ce_open :: "pystr \<Rightarrow> headers \<Rightarrow> bytes \<Rightarrow> exchange"
  ce_exn_text :: "exn \<Rightarrow> pystr"

definition request_failed :: "pystr \<Rightarrow> exn" where
  "request_failed text = ConnectorClientError (u ''connector request failed: '' @ text)"

definition client_url :: "client_config \<Rightarrow> pystr" where
  "client_url cfg = rstrip_char 47 (cc_base_url cfg) @ cc_path_scan_attachment cfg"

text \<open>The \<open>try\<close> block: every exception in it becomes a \<open>ConnectorClientError\<close>, the one raised for
  a reply that is not an object included.\<close>

definition client_try :: "client_config \<Rightarrow> headers \<Rightarrow> bytes \<Rightarrow> client_env \<Rightarrow> exn + jobj" where
  "client_try cfg hs body env =
     (case ce_open env (client_url cfg) hs body of
        HttpError code raw \<Rightarrow>
          Inl (ConnectorClientError (u ''connector http error '' @ py_str_int code @ u '': '' @ raw))
      | OpenFailed text \<Rightarrow> Inl (request_failed text)
      | Replied bs \<Rightarrow>
          (case bindE (decodeE bs) loadsE of
             Inl e \<Rightarrow> Inl (request_failed (ce_exn_text env e))
           | Inr (JObj data) \<Rightarrow> Inr data
           | Inr _ \<Rightarrow> Inl (request_failed (u ''connector response is not an object''))))"

text \<open>\<open>ce_request url\<close> is the exception of building the \<open>Request\<close> object, outside the \<open>try\<close>.\<close>

definition client_scan_attachment :: "client_config \<Rightarrow> jobj \<Rightarrow> client_env \<Rightarrow> exn + jobj" where
  "client_scan_attachment cfg payload env =
     bindE (encodeE (json_dumps (JObj payload))) (\<lambda>body.
     bindE (sign_headers cfg payload body (ce_now env) (ce_nonce env)) (\<lambda>hs.
       (case ce_request env (client_url cfg) of
          Some e \<Rightarrow> Inl e
        | None \<Rightarrow> client_try cfg hs body env)))"

section \<open>Hooks\<close>

definition environ_get :: "(string \<Rightarrow> pystr option) \<Rightarrow> string \<Rightarrow> exn + pystr" where
  "environ_get env name = (case env name of None \<Rightarrow> Inl (KeyError (u name)) | Some v \<Rightarrow> Inr v)"

definition hook_config :: "(string \<Rightarrow> pystr option) \<Rightarrow> exn + client_config" where
  "hook_config env =
     bindE (environ_get env ''SGRAPH_CONNECTOR_BASE_URL'') (\<lambda>base_url.
     bindE (environ_get env ''SGRAPH_CONNECTOR_API_KEY'') (\<lambda>api_key.
     bindE (environ_get env ''SGRAPH_CONNECTOR_HMAC_SECRET'') (\<lambda>hmac_secret.
     bindE (case py_int_str (case env ''SGRAPH_CONNECTOR_TIMEOUT_SEC'' of None \<Rightarrow> u ''30'' | Some v \<Rightarrow> v) of
              None \<Rightarrow> Inl ValueError | Some n \<Rightarrow> Inr n) (\<lambda>timeout_sec.
     Inr \<lparr>cc_base_url = base_url, cc_api_key = api_key, cc_hmac_secret = hmac_secret,
          cc_timeout_sec = timeout_sec, cc_path_scan_attachment = u ''/v1/scan/attachment''\<rparr>))))"

definition hook_payload :: "pystr \<Rightarrow> pystr \<Rightarrow> pystr \<Rightarrow> pystr \<Rightarrow> bytes \<Rightarrow> jobj \<Rightarrow> jobj" where
  "hook_payload tenant_id request_id filename mime decrypted_bytes metadata =
     [(u ''tenant_id'', JStr tenant_id), (u ''request_id'', JStr request_id),
      (u ''filename'', JStr filename), (u ''mime'', JStr mime),
      (u ''file_base64'', JStr (b64_encode False decrypted_bytes)), (u ''metadata'', JObj metadata)]"

definition run_connector_scan ::
  "(string \<Rightarrow> pystr option) \<Rightarrow> client_env \<Rightarrow> pystr \<Rightarrow> pystr \<Rightarrow> pystr \<Rightarrow> pystr \<Rightarrow> bytes \<Rightarrow> jobj option
     \<Rightarrow> exn + jobj" where
  "run_connector_scan environ env tenant_id request_id filename mime decrypted_bytes metadata =
     bindE (hook_config environ) (\<lambda>cfg.
       client_scan_attachment cfg
         (hook_payload tenant_id request_id filename mime decrypted_bytes
            (case metadata of
               Some (kv # kvs) \<Rightarrow> kv # kvs
             | _ \<Rightarrow> [(u ''source'', JStr (u ''sgraph_trusted_decrypt_flow''))])) env)"

definition scan_decrypted_file_for_agent ::
  "(string \<Rightarrow> pystr option) \<Rightarrow> client_env \<Rightarrow> pystr \<Rightarrow> pystr \<Rightarrow> pystr \<Rightarrow> pystr \<Rightarrow> bytes \<Rightarrow> exn + jobj" where
  "scan_decrypted_file_for_agent environ env tenant_id request_id filename mime decrypted_bytes =
     bindE (hook_config environ) (\<lambda>cfg.
       client_scan_attachment cfg
         (hook_payload tenant_id request_id filename mime decrypted_bytes
            [(u ''source'', JStr (u ''sgraph_trusted_flow''))]) env)"

definition verdict_text :: "jobj \<Rightarrow> pystr" where
  "verdict_text scan_result =
     lower (strip (py_str
       (case map_of scan_result (u ''verdict'') of None \<Rightarrow> JStr (u ''quarantine'') | Some v \<Rightarrow> v)))"

definition enforce_connector_verdict :: "jobj \<Rightarrow> exn + pystr" where
  "enforce_connector_verdict scan_result =
     (let verdict = verdict_text scan_result in
      if verdict = u ''allow'' then Inr (u ''allow'')
      else if verdict = u ''block'' then
        Inl (RuntimeError (u ''blocked by connector security verdict''))
      else Inr (u ''quarantine''))"

definition enforce_verdict :: "jobj \<Rightarrow> exn + pystr" where
  "enforce_verdict scan_result =
     (let verdict = verdict_text scan_result in
      if verdict = u ''allow'' then Inr (u ''allow'')
      else if verdict = u ''block'' then
        Inl (RuntimeError (u ''blocked by omega connector policy''))
      else Inr (u ''quarantine''))"

section \<open>Signature helper\<close>

definition build_canonical ::
  "pystr \<Rightarrow> pystr \<Rightarrow> bytes \<Rightarrow> pystr \<Rightarrow> pystr \<Rightarrow> pystr \<Rightarrow> pystr \<Rightarrow> pystr" where
  "build_canonical method path body_bytes tenant_id request_id ts nonce =
     join_nl [upper method, path, sha256_hex body_bytes, tenant_id, request_id, ts, nonce]"

definition helper_sign ::
  "pystr \<Rightarrow> pystr \<Rightarrow> pystr \<Rightarrow> bytes \<Rightarrow> pystr \<Rightarrow> pystr \<Rightarrow> real \<Rightarrow> pystr \<Rightarrow> exn + headers" where
  "helper_sign secret api_key path body_bytes tenant_id request_id now nonce =
     (let ts = py_str_int (trunc now);
          canonical = build_canonical (u ''POST'') path body_bytes tenant_id request_id ts nonce
      in bindE (sign_canonical canonical secret) (\<lambda>signature.
         Inr [(''X-API-Key'', api_key), (''X-Timestamp'', ts), (''X-Nonce'', nonce),
              (''X-Signature'', signature), (''Content-Type'', u ''application/json'')]))"

definition build_headers ::
  "pystr \<Rightarrow> pystr \<Rightarrow> pystr \<Rightarrow> jobj \<Rightarrow> real \<Rightarrow> pystr \<Rightarrow> exn + headers" where
  "build_headers secret api_key path payload now nonce =
     bindE (encodeE (json_dumps (JObj payload))) (\<lambda>body_bytes.
       helper_sign secret api_key path body_bytes (str_field payload ''tenant_id'')
         (str_field payload ''request_id'') now nonce)"

section \<open>The signers meet the validator's contract\<close>

lemma client_canonical_eq:
  "client_canonical m p b t r ts n = build_canonical_string m p (sha256_hex b) t r ts n"
  by (simp add: client_canonical_def build_canonical_string_def sha256_hex_facts)

lemma build_canonical_eq:
  "strip (upper m) = upper m \<Longrightarrow> strip p = p \<Longrightarrow> strip t = t \<Longrightarrow> strip r = r \<Longrightarrow> strip ts = ts \<Longrightarrow>
     strip n = n \<Longrightarrow> build_canonical m p b t r ts n = build_canonical_string m p (sha256_hex b) t r ts n"
  by (simp add: build_canonical_def build_canonical_string_def sha256_hex_facts)

lemma strip_POST: "strip (upper (u ''POST'')) = upper (u ''POST'')"
  by code_simp

interpretation sgraph_signer: header_signer "client_sign cfg" "cc_hmac_secret cfg" "cc_api_key cfg"
  "\<lambda>_. True" for cfg
  by unfold_locales (auto simp: client_sign_def client_canonical_eq Let_def exn_simps)

text \<open>The helper signs the fields as they are, so it agrees with the validator on stripped ones.\<close>

interpretation helper_signer: header_signer "helper_sign secret api_key" secret api_key
  "\<lambda>s. strip s = s" for secret api_key
  by unfold_locales (auto simp: helper_sign_def build_canonical_eq strip_POST Let_def exn_simps)

section \<open>The contract of a verdict hook\<close>

locale verdict_hook =
  fixes enforce :: "jobj \<Rightarrow> exn + pystr"
  assumes on_allow: "verdict_text r = u ''allow'' \<Longrightarrow> enforce r = Inr (u ''allow'')"
    and on_block: "verdict_text r = u ''block'' \<Longrightarrow> \<exists>m. enforce r = Inl (RuntimeError m)"
    and otherwise: "verdict_text r \<noteq> u ''allow'' \<Longrightarrow> verdict_text r \<noteq> u ''block'' \<Longrightarrow>
      enforce r = Inr (u ''quarantine'')"
begin

lemma allow_iff: "enforce r = Inr (u ''allow'') \<longleftrightarrow> verdict_text r = u ''allow''"
  using on_allow [of r] on_block [of r] otherwise [of r] by fastforce

lemma raises_iff: "(\<exists>e. enforce r = Inl e) \<longleftrightarrow> verdict_text r = u ''block''"
  using on_allow [of r] on_block [of r] otherwise [of r] by fastforce

lemma missing_verdict: "map_of r (u ''verdict'') = None \<Longrightarrow> enforce r = Inr (u ''quarantine'')"
proof -
  assume "map_of r (u ''verdict'') = None"
  then have "verdict_text r = lower (strip (u ''quarantine''))" by (simp add: verdict_text_def)
  moreover have "lower (strip (u ''quarantine'')) = u ''quarantine''" by code_simp
  ultimately show ?thesis by (intro otherwise) simp_all
qed

end

interpretation connector_hook: verdict_hook enforce_connector_verdict
  by unfold_locales (auto simp: enforce_connector_verdict_def Let_def)

interpretation example_hook: verdict_hook enforce_verdict
  by unfold_locales (auto simp: enforce_verdict_def Let_def)

section \<open>Facts about the client\<close>

text \<open>The fields the client signs are those the server reads from the same object.\<close>

lemma str_field_tenant:
  "declared_request (JObj kvs) = Some r \<Longrightarrow> str_field kvs ''tenant_id'' = rq_tenant_id r"
  by (auto simp: declared_request_def tenant_field_def str_field_def
      split: if_splits option.splits json.splits)

lemma str_field_opt:
  "opt_str_field (u k) kvs = Some v \<Longrightarrow> str_field kvs k = opt_or v []"
  by (auto simp: opt_str_field_def str_field_def opt_or_def
      split: if_splits option.splits json.splits)

lemma str_field_request_id:
  "declared_request (JObj kvs) = Some r \<Longrightarrow> str_field kvs ''request_id'' = opt_or (rq_request_id r) []"
  by (auto simp: declared_request_def split: if_splits option.splits dest: str_field_opt)

lemma client_gate:
  assumes r: "declared_request (JObj kvs) = Some r" and hs: "sign_headers cc kvs body now nonce = Inr hs"
    and secret: "hmac_secret cfg = cc_hmac_secret cc" "cc_hmac_secret cc \<noteq> []" and nonce: "strip nonce \<noteq> []"
    and clock: "\<bar>trunc now_srv - trunc now\<bar> \<le> auth_skew_sec cfg" "\<bar>trunc now\<bar> < 10 ^ 20"
  shows "hmac_gate cfg (posted (cc_path_scan_attachment cc) body hs) r key now_srv =
    make_replay_key (rq_tenant_id r) key (strip nonce)"
  using hs unfolding sign_headers_def str_field_tenant [OF r] str_field_request_id [OF r]
  by (rule sgraph_signer.gate_accepts) (use assms in auto)

lemma client_try_Inr:
  "client_try cfg hs body env = Inr data \<longleftrightarrow>
     (\<exists>bs. ce_open env (client_url cfg) hs body = Replied bs \<and> bindE (decodeE bs) loadsE = Inr (JObj data))"
  by (auto simp: client_try_def split: exchange.splits sum.splits json.splits)

lemma client_try_Inl: "client_try cfg hs body env = Inl e \<Longrightarrow> \<exists>text. e = ConnectorClientError text"
  by (auto simp: client_try_def request_failed_def split: exchange.splits sum.splits json.splits)

lemma client_scan_Inr:
  assumes "client_scan_attachment cfg payload env = Inr data"
  shows "\<exists>body hs bs. encodeE (json_dumps (JObj payload)) = Inr body \<and>
    sign_headers cfg payload body (ce_now env) (ce_nonce env) = Inr hs \<and>
    ce_open env (client_url cfg) hs body = Replied bs \<and> bindE (decodeE bs) loadsE = Inr (JObj data)"
  using assms
  by (auto simp: client_scan_attachment_def bindE_eq_Inr client_try_Inr split: option.splits)

lemma run_connector_scan_Inr:
  assumes "run_connector_scan environ env t r f m b md = Inr data"
  shows "\<exists>cfg payload. hook_config environ = Inr cfg \<and> client_scan_attachment cfg payload env = Inr data"
  using assms by (auto simp: run_connector_scan_def bindE_eq_Inr)

lemma text_ok_py_str_int: "text_ok (py_str_int n)"
proof -
  have "c = 45 \<or> (48 \<le> c \<and> c \<le> 57)" if "c \<in> set (py_str_int n)" for c
    using that by (auto simp: py_str_int_def is_digit_def dest: nat_digits_range split: if_splits)
  then show ?thesis unfolding text_ok_def scalar_def by fastforce
qed

lemma sign_headers_ok:
  assumes "text_ok (cc_path_scan_attachment cc)" "text_ok (cc_hmac_secret cc)"
    and "text_ok (str_field kvs ''tenant_id'')" "text_ok (str_field kvs ''request_id'')" "text_ok nonce"
  shows "\<exists>hs. sign_headers cc kvs body now nonce = Inr hs"
proof -
  have post: "text_ok (upper (u ''POST''))" by code_simp
  have "text_ok (client_canonical (u ''POST'') (cc_path_scan_attachment cc) body (str_field kvs ''tenant_id'')
      (str_field kvs ''request_id'') (py_str_int (trunc now)) nonce)"
    unfolding client_canonical_eq
    by (rule text_ok_canonical) (use post assms text_ok_py_str_int in auto)
  then obtain s where "sign_canonical (client_canonical (u ''POST'') (cc_path_scan_attachment cc) body
      (str_field kvs ''tenant_id'') (str_field kvs ''request_id'') (py_str_int (trunc now)) nonce)
      (cc_hmac_secret cc) = Inr s"
    using sign_canonical_ok assms(2) unfolding text_ok_def by blast
  then show ?thesis by (simp add: sign_headers_def client_sign_def)
qed

text \<open>A concrete client and payload.\<close>

definition demo_cc :: client_config where
  "demo_cc = \<lparr>cc_base_url = u ''http://connector:18080/'', cc_api_key = u ''k1'',
     cc_hmac_secret = u ''s3cret'', cc_timeout_sec = 30,
     cc_path_scan_attachment = u ''/v1/scan/attachment''\<rparr>"

definition demo_kvs :: jobj where
  "demo_kvs = [(u ''tenant_id'', JStr (u ''t1'')), (u ''request_id'', JStr (u ''r1'')),
     (u ''extracted_text'', JStr (u ''hi''))]"

lemma demo_declared: "declared_request (JObj demo_kvs) = Some demo_payload"
  by code_simp

lemma demo_sign: "\<exists>hs. sign_headers demo_cc demo_kvs body 1000 (u ''n1'') = Inr hs"
  by (rule sign_headers_ok) (simp_all add: demo_cc_def, code_simp+)

definition demo_environ :: "string \<Rightarrow> pystr option" where
  "demo_environ =
     [''SGRAPH_CONNECTOR_BASE_URL'' \<mapsto> u ''http://connector:18080/'', ''SGRAPH_CONNECTOR_API_KEY'' \<mapsto> u ''k1'',
      ''SGRAPH_CONNECTOR_HMAC_SECRET'' \<mapsto> u ''s3cret'']"

lemma demo_hook_config: "hook_config demo_environ = Inr demo_cc"
  by code_simp

text \<open>A network that answers every request with one body.\<close>

definition demo_client_env :: "exchange \<Rightarrow> client_env" where
  "demo_client_env x =
     \<lparr>ce_now = 1000, ce_nonce = u ''n1'', ce_request = (\<lambda>_. None), ce_open = (\<lambda>_ _ _. x),
      ce_exn_text = (\<lambda>_. [])\<rparr>"

lemma demo_client_scan:
  assumes "text_ok (json_dumps (JObj kvs))" "text_ok (str_field kvs ''tenant_id'')" "text_ok (str_field kvs ''request_id'')"
  shows "\<exists>hs body. client_scan_attachment demo_cc kvs (demo_client_env x) =
    client_try demo_cc hs body (demo_client_env x)"
proof -
  obtain body where body: "encodeE (json_dumps (JObj kvs)) = Inr body"
    using assms(1) encodeE_scalar unfolding text_ok_def by blast
  have "text_ok (u ''n1'')" "text_ok (u ''/v1/scan/attachment'')" "text_ok (u ''s3cret'')" by code_simp+
  then obtain hs where hs: "sign_headers demo_cc kvs body 1000 (u ''n1'') = Inr hs"
    using sign_headers_ok [of demo_cc kvs "u ''n1''" body 1000] assms(2,3) by (auto simp: demo_cc_def)
  show ?thesis
    by (intro exI [of _ hs] exI [of _ body])
      (simp add: client_scan_attachment_def demo_client_env_def body hs del: json_dumps.simps)
qed

definition demo_allow :: bytes where
  "demo_allow = map byte_of (u ''{\"verdict\":\"allow\"}'')"

lemma demo_allow_parses: "bindE (decodeE demo_allow) loadsE = Inr (JObj [(u ''verdict'', JStr (u ''allow''))])"
  by code_simp

section \<open>Properties\<close>



text \<open>What the SGraph client signs, the connector accepts: for a payload object that the
  connector parses as \<open>r\<close>, the client's headers over any body pass the HMAC check of a connector
  with the same secret whose clock is within the skew, unless the nonce is still live (409).\<close>

theorem client_signature_accepted:
  assumes "declared_request (JObj kvs) = Some r" "sign_headers cc kvs body now nonce = Inr hs"
    and "hmac_secret cfg = cc_hmac_secret cc" "cc_hmac_secret cc \<noteq> []" "strip nonce \<noteq> []" "require_hmac cfg"
    and "\<bar>trunc now_srv - trunc now\<bar> \<le> auth_skew_sec cfg" "\<bar>trunc now\<bar> < 10 ^ 20"
    and rk: "make_replay_key (rq_tenant_id r) key (strip nonce) = Inr rk"
  shows "fst (validate_hmac cfg (posted (cc_path_scan_attachment cc) body hs) r key now_srv c_now c) =
    (if rk \<in> fst ` set (entries (cleanup c_now c))
     then Inl (http_error 409 ''replay_detected'' ''nonce already used'' (rq_request_id r) [])
     else Inr ())"
  using client_gate [OF assms(1-5,7,8), of key] rk assms(6) fst_check [of c_now rk c]
  by (auto simp: validate_hmac_def split: prod.splits bool.splits)

theorem client_signature_accepted_witness:
  "\<exists>hs. sign_headers demo_cc demo_kvs [] 1000 (u ''n1'') = Inr hs \<and>
     fst (validate_hmac demo_cfg (posted (cc_path_scan_attachment demo_cc) [] hs) demo_payload (u ''k1'')
       900 900 (new_cache 600 5)) = Inr ()"
proof -
  obtain hs where hs: "sign_headers demo_cc demo_kvs [] 1000 (u ''n1'') = Inr hs"
    using demo_sign by blast
  have "text_ok (rq_tenant_id demo_payload)" "text_ok (u ''k1'')" "text_ok (strip (u ''n1''))"
    by code_simp+
  then obtain rk where rk: "make_replay_key (rq_tenant_id demo_payload) (u ''k1'') (strip (u ''n1'')) = Inr rk"
    using make_replay_key_Inr by metis
  have n: "strip (u ''n1'') \<noteq> []" "cc_hmac_secret demo_cc \<noteq> []" by code_simp+
  show ?thesis
    using client_signature_accepted [OF demo_declared hs _ n(2,1) _ _ _ rk, of demo_cfg 900 900 "new_cache 600 5"] hs
    by (simp add: demo_cfg_def demo_cc_def trunc_nonneg)
qed

text \<open>C28: Fail-closed use: the hook's decision is \<open>allow\<close> only if \<open>urlopen\<close> returned a body that
  decodes to a JSON object whose verdict, as text, stripped and lower-cased, is \<open>allow\<close>; every
  error on the way is an exception and never a decision.\<close>

theorem hook_allows_only_on_reply:
  assumes "bindE (run_connector_scan environ env t r f m b md) enforce_connector_verdict = Inr (u ''allow'')"
  shows "\<exists>cfg hs body bs data. hook_config environ = Inr cfg \<and>
    ce_open env (client_url cfg) hs body = Replied bs \<and>
    bindE (decodeE bs) loadsE = Inr (JObj data) \<and> verdict_text data = u ''allow''"
proof -
  obtain data where data: "run_connector_scan environ env t r f m b md = Inr data"
    "enforce_connector_verdict data = Inr (u ''allow'')"
    using assms by (auto simp: exn_simps)
  then have "verdict_text data = u ''allow''" using connector_hook.allow_iff by blast
  then show ?thesis using run_connector_scan_Inr [OF data(1)] client_scan_Inr by blast
qed

theorem hook_allows_only_on_reply_witness:
  "bindE (run_connector_scan demo_environ (demo_client_env (Replied demo_allow)) (u ''t1'') (u ''r1'') (u ''f'')
      (u ''text/plain'') [] None) enforce_connector_verdict = Inr (u ''allow'') \<and>
   (\<exists>bs data. bindE (decodeE bs) loadsE = Inr (JObj data) \<and> verdict_text data = u ''allow'')"
proof -
  let ?kvs = "hook_payload (u ''t1'') (u ''r1'') (u ''f'') (u ''text/plain'') []
      [(u ''source'', JStr (u ''sgraph_trusted_decrypt_flow''))]"
  have "text_ok (json_dumps (JObj ?kvs))" "text_ok (str_field ?kvs ''tenant_id'')"
    "text_ok (str_field ?kvs ''request_id'')" by code_simp+
  then obtain hs body where "client_scan_attachment demo_cc ?kvs (demo_client_env (Replied demo_allow)) =
      client_try demo_cc hs body (demo_client_env (Replied demo_allow))"
    using demo_client_scan by blast
  also have "\<dots> = Inr [(u ''verdict'', JStr (u ''allow''))]"
    unfolding client_try_Inr using demo_allow_parses by (simp add: demo_client_env_def)
  finally have "run_connector_scan demo_environ (demo_client_env (Replied demo_allow)) (u ''t1'') (u ''r1'')
      (u ''f'') (u ''text/plain'') [] None = Inr [(u ''verdict'', JStr (u ''allow''))]"
    by (simp add: run_connector_scan_def demo_hook_config)
  moreover have "enforce_connector_verdict [(u ''verdict'', JStr (u ''allow''))] = Inr (u ''allow'')" by code_simp
  ultimately have "bindE (run_connector_scan demo_environ (demo_client_env (Replied demo_allow)) (u ''t1'') (u ''r1'')
      (u ''f'') (u ''text/plain'') [] None) enforce_connector_verdict = Inr (u ''allow'')" by simp
  then show ?thesis using hook_allows_only_on_reply by blast
qed

text \<open>The two hooks take the same decision on every scan result; both raise exactly on \<open>block\<close>,
  and without a verdict both quarantine.\<close>

theorem hooks_agree:
  "(enforce_connector_verdict d = Inr v \<longleftrightarrow> enforce_verdict d = Inr v) \<and>
   ((\<exists>e. enforce_connector_verdict d = Inl e) \<longleftrightarrow> verdict_text d = u ''block'') \<and>
   ((\<exists>e. enforce_verdict d = Inl e) \<longleftrightarrow> verdict_text d = u ''block'') \<and>
   enforce_connector_verdict [] = Inr (u ''quarantine'') \<and> enforce_verdict [] = Inr (u ''quarantine'')"
  using connector_hook.raises_iff example_hook.raises_iff connector_hook.missing_verdict [of "[]"]
    example_hook.missing_verdict [of "[]"]
  by (auto simp: enforce_connector_verdict_def enforce_verdict_def Let_def)

text \<open>Errors of the client: everything that goes wrong from sending the request on, including a
  reply that is not JSON or not an object, is a \<open>ConnectorClientError\<close>; before that only
  encoding errors (of the payload or of what is signed) and the refusal of the URL by
  \<open>urllib\<close> leave the client under their own class.\<close>

theorem client_error_classes:
  assumes "client_scan_attachment cfg payload env = Inl e"
  shows "(\<exists>text. e = ConnectorClientError text) \<or> e = UnicodeEncodeError \<or> ce_request env (client_url cfg) = Some e"
proof -
  have s: "sign_headers cfg payload body (ce_now env) (ce_nonce env) = Inl e' \<Longrightarrow> e' = UnicodeEncodeError"
    for body e'
    by (auto simp: sign_headers_def client_sign_def Let_def sign_canonical_def bindE_eq_Inl dest: encodeE_Inl)
  show ?thesis
    using assms
    by (auto simp: client_scan_attachment_def bindE_eq_Inl dest!: s encodeE_Inl client_try_Inl
        split: option.splits)
qed

theorem client_error_classes_witness:
  "\<exists>e. client_scan_attachment demo_cc demo_kvs (demo_client_env (OpenFailed [])) = Inl e \<and>
     ((\<exists>text. e = ConnectorClientError text) \<or> e = UnicodeEncodeError \<or>
      ce_request (demo_client_env (OpenFailed [])) (client_url demo_cc) = Some e)"
proof -
  have "text_ok (json_dumps (JObj demo_kvs))" "text_ok (str_field demo_kvs ''tenant_id'')"
    "text_ok (str_field demo_kvs ''request_id'')" by code_simp+
  then obtain hs body where "client_scan_attachment demo_cc demo_kvs (demo_client_env (OpenFailed [])) =
      client_try demo_cc hs body (demo_client_env (OpenFailed []))"
    using demo_client_scan by blast
  also have "\<dots> = Inl (request_failed [])" by (simp add: client_try_def demo_client_env_def)
  finally show ?thesis using client_error_classes by blast
qed

end
