(* ===== verification/End_To_End.thy ===== *)
theory End_To_End
  imports Connector_Properties SGraph_Client
begin

text \<open>
  The SGraph client talking to the connector: \<open>urlopen\<close> delivers the posted headers and body to
  the scan endpoint and returns the rendered reply.  The bytes of a reply are FastAPI's, so
  rendering is a parameter.
\<close>

definition connector_network ::
  "libs \<Rightarrow> connector_runtime \<Rightarrow> request_env \<Rightarrow> (json \<Rightarrow> bytes) \<Rightarrow> (json \<Rightarrow> pystr) \<Rightarrow> pystr
     \<Rightarrow> headers \<Rightarrow> bytes \<Rightarrow> exchange" where
  "connector_network L rt renv render text path hs body =
     (let rep = reply_of (scan_attachment L rt (posted path body hs) renv) in
      if reply_status rep = 200 then Replied (render (reply_body rep))
      else HttpError (reply_status rep) (text (reply_body rep)))"

text \<open>The body the client sends is the payload object the connector parses.\<close>

lemma client_body_parses:
  assumes "encodeE (json_dumps (JObj kvs)) = Inr body" "json_plain (JObj kvs)"
  shows "bindE (decodeE body) loadsE = Inr (JObj kvs)"
proof -
  have "decodeE body = Inr (json_dumps (JObj kvs))"
    using utf8_decode_encode assms(1) by (simp add: decodeE_def encodeE_Inr del: json_dumps.simps)
  moreover have "loadsE (json_dumps (JObj kvs)) = Inr (JObj kvs)"
    using json_loads_dumps [OF assms(2)] by (simp add: loadsE_Inr del: json_dumps.simps)
  ultimately show ?thesis by (simp del: json_dumps.simps)
qed

lemma posted_simps [simp]:
  "hr_body (posted p b hs) = b" "hr_headers (posted p b hs) = map_of hs"
  by (simp_all add: posted_def)

lemma client_parse:
  assumes lib: "libs_contract L" and body: "encodeE (json_dumps (JObj kvs)) = Inr body" "json_plain (JObj kvs)"
    and r: "declared_request (JObj kvs) = Some r" "opt_truthy (rq_request_id r)"
      "opt_truthy (rq_file_base64 r) \<or> opt_truthy (rq_extracted_text r)"
  shows "parse_payload L (posted path body hs) uuid = Inr r"
proof -
  have "model_validate L (JObj kvs) = Inr r" using libs_contract.model_validate_Inr [OF lib] r by blast
  then show ?thesis using client_body_parses [OF body] r(2) by (simp add: parse_payload_def)
qed

lemma verdict_text_response:
  assumes "response_json r = JObj data" "rs_verdict r \<in> set verdicts"
  shows "verdict_text data = rs_verdict r"
proof -
  have "map_of data (u ''verdict'') = Some (JStr (rs_verdict r))"
    using assms(1) by (auto simp: response_json_def)
  moreover have "\<forall>v\<in>set verdicts. lower (strip v) = v" by code_simp
  ultimately show ?thesis using assms(2) by (simp add: verdict_text_def)
qed

lemma payload_ok_x: "text_ok (u ''x'')" "u ''x'' \<noteq> []"
  by code_simp+

lemma client_authenticated:
  assumes r: "declared_request (JObj kvs) = Some r" and hs: "sign_headers cc kvs body now nonce = Inr hs"
    and cfg: "hmac_secret (rt_auth rt) = cc_hmac_secret cc" "cc_hmac_secret cc \<noteq> []"
    and key: "validate_api_key (rt_auth rt) (Some (cc_api_key cc)) (rq_request_id r) = Inr key"
    and nonce: "strip nonce \<noteq> []"
    and clock: "\<bar>trunc (re_now_auth renv) - trunc now\<bar> \<le> auth_skew_sec (rt_auth rt)" "\<bar>trunc now\<bar> < 10 ^ 20"
    and rk: "make_replay_key (rq_tenant_id r) key (strip nonce) = Inr rk"
      "rk \<notin> fst ` set (entries (cleanup (re_now_cache renv) (rt_cache rt)))"
  shows "fst (authenticate rt (posted (cc_path_scan_attachment cc) body hs) r renv) = Inr ()"
proof -
  have "map_of hs ''X-API-Key'' = Some (cc_api_key cc)"
    using sgraph_signer.key_header hs unfolding sign_headers_def by blast
  moreover have "hmac_gate (rt_auth rt) (posted (cc_path_scan_attachment cc) body hs) r key (re_now_auth renv) = Inr rk"
    using client_gate [OF r hs cfg nonce clock] rk(1) by simp
  ultimately show ?thesis
    using key rk(2) by (simp add: authenticate_def validate_hmac_ok_iff fst_check)
qed

lemma end_to_end:
  assumes lib: "libs_contract L" "env_ok renv"
    and kvs: "declared_request (JObj kvs) = Some r" "opt_truthy (rq_request_id r)"
      "opt_truthy (rq_file_base64 r) \<or> opt_truthy (rq_extracted_text r)"
      "json_plain (JObj kvs)" "text_ok (json_dumps (JObj kvs))"
    and cfg: "hmac_secret (rt_auth rt) = cc_hmac_secret cc" "cc_hmac_secret cc \<noteq> []"
      "text_ok (cc_hmac_secret cc)" "text_ok (cc_path_scan_attachment cc)"
    and key: "validate_api_key (rt_auth rt) (Some (cc_api_key cc)) (rq_request_id r) = Inr key"
    and nonce: "strip (ce_nonce env) \<noteq> []" "text_ok (ce_nonce env)"
    and clock: "\<bar>trunc (re_now_auth renv) - trunc (ce_now env)\<bar> \<le> auth_skew_sec (rt_auth rt)" "\<bar>trunc (ce_now env)\<bar> < 10 ^ 20"
    and fresh: "make_replay_key (rq_tenant_id r) key (strip (ce_nonce env)) = Inr rk"
      "rk \<notin> fst ` set (entries (cleanup (re_now_cache renv) (rt_cache rt)))"
    and net: "ce_request env (client_url cc) = None"
      "ce_open env (client_url cc) = connector_network L rt renv render text (cc_path_scan_attachment cc)"
    and render: "\<And>resp. fst (decide L rt r False renv) = Inr resp \<Longrightarrow>
      bindE (decodeE (render (response_json resp))) loadsE = Inr (response_json resp)"
  shows "\<exists>resp data. client_scan_attachment cc kvs env = Inr data \<and> response_json resp = JObj data \<and>
    fst (decide L rt r False renv) = Inr resp \<and> rs_verdict resp \<in> set verdicts \<and>
    verdict_text data = rs_verdict resp"
proof -
  obtain body where body: "encodeE (json_dumps (JObj kvs)) = Inr body"
    using kvs(5) encodeE_scalar unfolding text_ok_def by blast
  have "parse_payload L (posted [] body []) (u ''x'') = Inr r"
    by (rule client_parse [OF lib(1) body kvs(4,1,2,3)])
  from libs_contract.parse_payload_ok [OF lib(1) this] have p: "payload_ok r"
    by (simp add: payload_ok_x)
  have "text_ok (str_field kvs ''tenant_id'')" "text_ok (str_field kvs ''request_id'')"
    using p str_field_tenant [OF kvs(1)] str_field_request_id [OF kvs(1)] by (auto simp: payload_ok_def)
  then obtain hs where hs: "sign_headers cc kvs body (ce_now env) (ce_nonce env) = Inr hs"
    using sign_headers_ok [OF cfg(4,3) _ _ nonce(2)] by blast
  let ?req = "posted (cc_path_scan_attachment cc) body hs"
  have auth: "fst (authenticate rt ?req r renv) = Inr ()"
    by (rule client_authenticated [OF kvs(1) hs cfg(1,2) key nonce(1) clock fresh])
  obtain resp where resp: "fst (decide L rt r False renv) = Inr resp" "rs_verdict resp \<in> set verdicts"
    "declared_response resp" "out_result (scan_attachment L rt ?req renv) = Inr resp"
    using lib(2) client_parse [OF lib(1) body kvs(4,1,2,3)] auth
    by (cases rule: libs_contract.scan_body_cases [OF lib(1), of renv ?req rt False "u ''/v1/scan/attachment''"])
      (auto simp: scan_attachment_def)
  obtain data where data: "response_json resp = JObj data" by (simp add: response_json_def)
  have "client_scan_attachment cc kvs env = client_try cc hs body env"
    by (simp add: client_scan_attachment_def body hs net(1) del: json_dumps.simps)
  also have "\<dots> = Inr data"
    unfolding client_try_Inr using render [OF resp(1)] resp(4) data
    by (simp add: net(2) connector_network_def Let_def reply_of_def)
  finally show ?thesis using resp data verdict_text_response [OF data resp(2)] by blast
qed

section \<open>A concrete link\<close>

definition demo_fallback :: scan_response where
  "demo_fallback = fallback_record demo_payload ''omega_timeout'' (u ''block'') None None (u ''a2'') (u ''a3'')"

lemma demo_decide: "fst (decide declared_libs demo_rt demo_payload False (demo_renv 1000 net_down)) = Inr demo_fallback"
proof -
  obtain x where x: "prepare_request declared_libs (rt_omega demo_rt) demo_payload False (re_omega (demo_renv 1000 net_down)) = Inr x"
    using demo_content by (auto simp: prepare_request_def omega_headers_def)
  have adm: "can_attempt (oe_now_check (re_omega (demo_renv 1000 net_down))) (rt_omega demo_rt)"
    by (simp add: can_attempt_def new_circuit_def)
  have "\<forall>j. int j \<le> oc_retry_count (rt_omega demo_rt) \<longrightarrow> \<not> decisive (oe_net (re_omega (demo_renv 1000 net_down)) j)"
    by (simp add: net_down_def decisive_def attempt_step_def)
  from scan_never [OF adm x _ this]
  have scan: "fst (omega_scan declared_libs (rt_omega demo_rt) demo_payload False (re_omega (demo_renv 1000 net_down))) =
      Inl (OmegaTimeoutError (u ''omega timeout''))"
    by (auto simp: net_down_def attempt_step_def final_error_def)
  have "fallback_of demo_rt demo_payload (demo_renv 1000 net_down) (OmegaTimeoutError (u ''omega timeout'')) = demo_fallback"
    by (simp add: fallback_of_def demo_fallback_def demo_renv_def demo_settings_def)
  then show ?thesis
    using declared.fallback_for_Inr [OF demo_payload_ok demo_renv_ok]
    by (simp add: decide_parts Let_def scan)
qed

definition demo_render :: "json \<Rightarrow> bytes" where
  "demo_render j = (case encodeE (json_dumps j) of Inl _ \<Rightarrow> [] | Inr bs \<Rightarrow> bs)"

lemma demo_render_fallback:
  "bindE (decodeE (demo_render (response_json demo_fallback))) loadsE = Inr (response_json demo_fallback)"
  by code_simp

definition demo_link :: client_env where
  "demo_link =
     \<lparr>ce_now = 1000, ce_nonce = u ''n1'', ce_request = (\<lambda>_. None),
      ce_open = (\<lambda>_. connector_network declared_libs demo_rt (demo_renv 1000 net_down) demo_render (\<lambda>_. [])
        (cc_path_scan_attachment demo_cc)),
      ce_exn_text = (\<lambda>_. [])\<rparr>"

definition demo_signing_client :: omega_client where
  "demo_signing_client = new_omega_client (u ''http://omega:8080'') (u ''k'') True (u ''s3cret'') True [] 15000 1 2 30"

lemma demo_signing_prepare:
  "\<exists>body hs. prepare_request declared_libs demo_signing_client demo_payload False (demo_scan_env 0 k200) = Inr (body, hs)"
proof -
  obtain body where body: "lib_content declared_libs demo_payload = Inr body" using demo_content by blast
  have "text_ok (build_canonical_string (u ''POST'') (scan_path False) (sha256_hex body) (rq_tenant_id demo_payload)
      (opt_or (rq_request_id demo_payload) []) (py_str_int (trunc 2)) (u ''n''))"
    by (rule text_ok_canonical) (simp_all add: text_ok_py_str_int, code_simp+)
  moreover have "text_ok (u ''s3cret'')" by code_simp
  ultimately obtain s where "sign_canonical (build_canonical_string (u ''POST'') (scan_path False) (sha256_hex body)
      (rq_tenant_id demo_payload) (opt_or (rq_request_id demo_payload) []) (py_str_int (trunc 2)) (u ''n'')) (u ''s3cret'') = Inr s"
    using sign_canonical_ok unfolding text_ok_def by blast
  then show ?thesis
    by (simp add: prepare_request_def body omega_headers_def Let_def demo_signing_client_def new_omega_client_def demo_scan_env_def)
qed

end
