(* ===== verification/Severity.thy ===== *)
theory Severity
  imports End_To_End
begin

text \<open>
  Verdicts as ordered severities: the abstract three-valued decision that the connector's \<open>_normalize_response\<close>
  and \<open>_fallback_response\<close> (\<open>connector/app.py\<close>) and SGraph's hook implement on strings, and what the order gives.
\<close>

section \<open>Severities\<close>

datatype severity = Allow | Quarantine | Block

fun rank :: "severity \<Rightarrow> nat" where
  "rank Allow = 0"
| "rank Quarantine = 1"
| "rank Block = 2"

lemma rank_eq_iff [simp]: "rank a = rank b \<longleftrightarrow> a = b"
  by (cases a; cases b) simp_all

instantiation severity :: linorder
begin

definition less_eq_severity :: "severity \<Rightarrow> severity \<Rightarrow> bool" where
  "less_eq_severity a b \<longleftrightarrow> rank a \<le> rank b"

definition less_severity :: "severity \<Rightarrow> severity \<Rightarrow> bool" where
  "less_severity a b \<longleftrightarrow> rank a < rank b"

instance
  by standard (auto simp: less_eq_severity_def less_severity_def)

end

lemma severity_order [simp]: "Allow \<le> s" "s \<le> Block" "Quarantine \<le> Allow \<longleftrightarrow> False" "Block \<le> s \<longleftrightarrow> s = Block" "s \<le> Allow \<longleftrightarrow> s = Allow"
  by (cases s; simp add: less_eq_severity_def)+

definition severity_text :: "severity \<Rightarrow> pystr" where
  "severity_text s = (case s of Allow \<Rightarrow> u ''allow'' | Quarantine \<Rightarrow> u ''quarantine'' | Block \<Rightarrow> u ''block'')"

definition severity_of :: "pystr \<Rightarrow> severity option" where
  "severity_of v =
     (if v = u ''allow'' then Some Allow else if v = u ''quarantine'' then Some Quarantine
      else if v = u ''block'' then Some Block else None)"

lemma verdict_texts [simp]:
  "u ''quarantine'' \<noteq> u ''allow''" "u ''block'' \<noteq> u ''allow''" "u ''block'' \<noteq> u ''quarantine''"
  by code_simp+

lemma severity_of_text [simp]: "severity_of (severity_text s) = Some s"
  by (cases s) (simp_all add: severity_of_def severity_text_def)

lemma severity_of_Some: "severity_of v = Some s \<longleftrightarrow> v = severity_text s"
  by (auto simp: severity_of_def severity_text_def split: severity.splits)

lemma severity_of_None: "severity_of v = None \<longleftrightarrow> v \<notin> set verdicts"
  by (auto simp: severity_of_def verdicts_def)

section \<open>The abstract decision\<close>

text \<open>Every text that is no verdict counts as \<open>Quarantine\<close>.\<close>

definition or_quarantine :: "severity option \<Rightarrow> severity" where
  "or_quarantine v = (case v of None \<Rightarrow> Quarantine | Some s \<Rightarrow> s)"

text \<open>What Omega is taken to have said: a verdict, or nothing usable.\<close>

datatype omega_view = Said "severity option" | Unusable

fun abstract_decision :: "severity option \<Rightarrow> omega_view \<Rightarrow> severity" where
  "abstract_decision fail_mode (Said v) = or_quarantine v"
| "abstract_decision fail_mode Unusable = or_quarantine fail_mode"

lemma abstract_decision_mono:
  "or_quarantine f \<le> or_quarantine f' \<Longrightarrow> abstract_decision f v \<le> abstract_decision f' v"
  by (cases v) simp_all

definition raw_verdict :: "json \<Rightarrow> pystr" where
  "raw_verdict raw =
     (case raw of
        JObj kvs \<Rightarrow> lower (strip (py_str (case map_of kvs (u ''verdict'') of None \<Rightarrow> JStr (u ''quarantine'') | Some v \<Rightarrow> v)))
      | _ \<Rightarrow> [])"

definition view_of :: "libs \<Rightarrow> scan_request \<Rightarrow> request_env \<Rightarrow> exn + json \<Rightarrow> omega_view" where
  "view_of L payload env scanned =
     (case scanned of
        Inl e \<Rightarrow> Unusable
      | Inr raw \<Rightarrow>
          (case normalize_response L raw payload (re_uuid_reply env) (re_uuid_evidence env) of
             Inl e \<Rightarrow> Unusable
           | Inr r \<Rightarrow> Said (severity_of (raw_verdict raw))))"

section \<open>Refinement\<close>

lemma normalize_verdict_severity:
  "normalize_verdict v = severity_text (or_quarantine (severity_of (lower (strip (py_str v)))))"
  by (auto simp: normalize_verdict_def Let_def or_quarantine_def severity_of_def severity_text_def verdicts_def)

lemma fallback_severity:
  "rs_verdict (fallback_of rt payload env e) =
     severity_text (or_quarantine (severity_of (connector_fail_mode (rt_settings rt))))"
  by (auto simp: fallback_of_def fallback_record_def Let_def or_quarantine_def severity_of_def severity_text_def verdicts_def)

definition severity_risk :: "severity \<Rightarrow> int" where
  "severity_risk s = (case s of Allow \<Rightarrow> 0 | Quarantine \<Rightarrow> 55 | Block \<Rightarrow> 95)"

lemma severity_risk_mono: "a \<le> b \<Longrightarrow> severity_risk a \<le> severity_risk b"
  by (cases a; cases b) (simp_all add: severity_risk_def less_eq_severity_def)

lemma fallback_severity_risk:
  "rs_risk_score (fallback_of rt payload env e) =
     severity_risk (or_quarantine (severity_of (connector_fail_mode (rt_settings rt))))"
  by (auto simp: fallback_of_def fallback_record_def fallback_risk_def Let_def or_quarantine_def severity_of_def
      severity_risk_def verdicts_def)

text \<open>A decision is the normalised answer or a fallback.\<close>

context libs_contract
begin

lemma decide_view:
  assumes ok: "payload_ok payload" "env_ok env" and r: "fst (decide L rt payload debug env) = Inr r"
    and scan: "scanned = fst (omega_scan L (rt_omega rt) payload debug (re_omega env))"
  shows "(\<exists>raw. scanned = Inr raw \<and> normalize_response L raw payload (re_uuid_reply env) (re_uuid_evidence env) = Inr r \<and>
      view_of L payload env scanned = Said (severity_of (raw_verdict raw)) \<and>
      rs_verdict r = severity_text (or_quarantine (severity_of (raw_verdict raw)))) \<or>
    (\<exists>e. view_of L payload env scanned = Unusable \<and> r = fallback_of rt payload env e)"
  using ok
proof (cases rule: decide_total [of payload env rt debug])
  case (answer raw r')
  then have n: "normalize_response L raw payload (re_uuid_reply env) (re_uuid_evidence env) = Inr r" using r by simp
  from normalize_response_Inr(2) [OF n] obtain kvs where "raw = JObj kvs" "rs_verdict r = normalize_verdict
      (case map_of kvs (u ''verdict'') of None \<Rightarrow> JStr (u ''quarantine'') | Some v \<Rightarrow> v)" by blast
  then have "rs_verdict r = severity_text (or_quarantine (severity_of (raw_verdict raw)))"
    by (simp add: normalize_verdict_severity raw_verdict_def)
  with answer(1) n scan show ?thesis by (simp add: view_of_def)
next
  case (fallback e)
  then have "r = fallback_of rt payload env e" using r by simp
  with fallback(1) scan show ?thesis by (auto simp: view_of_def exn_simps split: sum.splits)
qed

end

section \<open>Properties\<close>

text \<open>C7: The connector and SGraph's hook implement the abstract decision: the severity of the returned verdict is
  Omega's if Omega gave a usable answer and the fail mode's otherwise, where any text that is not one of the
  three verdicts counts as \<open>Quarantine\<close>; and the hook raises exactly on \<open>Block\<close> and otherwise passes the severity on.\<close>

theorem decision_refines_spec:
  assumes "libs_contract L" "payload_ok payload" "env_ok env"
    and "fst (decide L rt payload debug env) = Inr r" "response_json r = JObj data"
    and "s = abstract_decision (severity_of (connector_fail_mode (rt_settings rt)))
      (view_of L payload env (fst (omega_scan L (rt_omega rt) payload debug (re_omega env))))"
  shows "severity_of (rs_verdict r) = Some s \<and>
    enforce_connector_verdict data =
      (if s = Block then Inl (RuntimeError (u ''blocked by connector security verdict'')) else Inr (severity_text s))"
proof -
  have v: "rs_verdict r = severity_text s"
    using libs_contract.decide_view [OF assms(1-4) refl] fallback_severity by (auto simp: assms(6))
  then have "rs_verdict r \<in> set verdicts" using severity_of_None [of "rs_verdict r"] by simp
  from verdict_text_response [OF assms(5) this] show ?thesis
    by (cases s) (simp_all add: v enforce_connector_verdict_def severity_text_def severity_of_def)
qed

theorem decision_refines_spec_witness:
  "\<exists>r data. fst (decide declared_libs demo_rt demo_payload False (demo_renv 1000 net_down)) = Inr r \<and>
     response_json r = JObj data \<and> severity_of (rs_verdict r) = Some Block"
proof -
  obtain r where r: "fst (decide declared_libs demo_rt demo_payload False (demo_renv 1000 net_down)) = Inr r"
    using declared.decide_total [OF demo_payload_ok demo_renv_ok] by metis
  obtain data where d: "response_json r = JObj data" by (simp add: response_json_def)
  let ?scan = "omega_scan declared_libs (rt_omega demo_rt) demo_payload False (re_omega (demo_renv 1000 net_down))"
  have "fst ?scan \<noteq> Inr raw" for raw
  proof
    assume "fst ?scan = Inr raw"
    then obtain omega posts where "?scan = (Inr raw, omega, posts)" by (metis prod.collapse)
    from scan_Inr [OF this] show False by (simp add: net_down_def)
  qed
  then have "view_of declared_libs demo_payload (demo_renv 1000 net_down)
      (fst (omega_scan declared_libs (rt_omega demo_rt) demo_payload False (re_omega (demo_renv 1000 net_down)))) = Unusable"
    by (auto simp: view_of_def split: sum.split)
  moreover have "severity_of (connector_fail_mode demo_settings) = Some Block" by (simp add: demo_settings_def severity_of_def)
  ultimately show ?thesis
    using decision_refines_spec [OF declared.libs_contract_axioms demo_payload_ok demo_renv_ok r d refl] r d
    by (simp add: or_quarantine_def)
qed

text \<open>C18: A stricter fail mode never loosens a decision: for the same request, environment and Omega client, the
  severity and the risk score under the stricter fail mode are at least those under the laxer one.\<close>

theorem fail_mode_monotone:
  assumes "libs_contract L" "payload_ok payload" "env_ok env" "rt_omega rt' = rt_omega rt"
    and "or_quarantine (severity_of (connector_fail_mode (rt_settings rt))) \<le>
      or_quarantine (severity_of (connector_fail_mode (rt_settings rt')))"
    and "fst (decide L rt payload debug env) = Inr r" "fst (decide L rt' payload debug env) = Inr r'"
  shows "\<exists>a b. severity_of (rs_verdict r) = Some a \<and> severity_of (rs_verdict r') = Some b \<and> a \<le> b \<and>
    rs_risk_score r \<le> rs_risk_score r'"
proof -
  let ?scan = "fst (omega_scan L (rt_omega rt) payload debug (re_omega env))"
  note d = libs_contract.decide_view [OF assms(1-3,6) refl]
    libs_contract.decide_view [OF assms(1-3,7) refl, unfolded assms(4)]
  show ?thesis
  proof (cases "view_of L payload env ?scan")
    case (Said v)
    have "\<exists>raw. ?scan = Inr raw \<and> normalize_response L raw payload (re_uuid_reply env) (re_uuid_evidence env) = Inr r \<and>
        rs_verdict r = severity_text (or_quarantine v)"
      using d(1) Said by (elim disjE exE conjE) simp_all
    moreover have "\<exists>raw. ?scan = Inr raw \<and> normalize_response L raw payload (re_uuid_reply env) (re_uuid_evidence env) = Inr r'"
      using d(2) Said by (elim disjE exE conjE) simp_all
    ultimately have "r' = r" "rs_verdict r = severity_text (or_quarantine v)" by (elim exE conjE; simp)+
    then show ?thesis by simp
  next
    case Unusable
    have "\<exists>e. r = fallback_of rt payload env e" using d(1) Unusable by (elim disjE exE conjE) (simp, blast)
    moreover have "\<exists>e. r' = fallback_of rt' payload env e" using d(2) Unusable by (elim disjE exE conjE) (simp, blast)
    ultimately obtain e e' where "r = fallback_of rt payload env e" "r' = fallback_of rt' payload env e'" by blast
    then show ?thesis
      using assms(5) severity_risk_mono by (simp add: fallback_severity fallback_severity_risk)
  qed
qed

theorem fail_mode_monotone_witness:
  "\<exists>r r' a b. fst (decide declared_libs (demo_rt\<lparr>rt_settings := demo_settings\<lparr>connector_fail_mode := u ''allow''\<rparr>\<rparr>)
       demo_payload False (demo_renv 1000 net_down)) = Inr r \<and>
     fst (decide declared_libs demo_rt demo_payload False (demo_renv 1000 net_down)) = Inr r' \<and>
     severity_of (rs_verdict r) = Some a \<and> severity_of (rs_verdict r') = Some b \<and> a \<le> b"
proof -
  let ?rt = "demo_rt\<lparr>rt_settings := demo_settings\<lparr>connector_fail_mode := u ''allow''\<rparr>\<rparr>"
  obtain r where r: "fst (decide declared_libs ?rt demo_payload False (demo_renv 1000 net_down)) = Inr r"
    using declared.decide_total [OF demo_payload_ok demo_renv_ok] by metis
  obtain r' where r': "fst (decide declared_libs demo_rt demo_payload False (demo_renv 1000 net_down)) = Inr r'"
    using declared.decide_total [OF demo_payload_ok demo_renv_ok] by metis
  have "or_quarantine (severity_of (connector_fail_mode (rt_settings ?rt))) \<le>
      or_quarantine (severity_of (connector_fail_mode (rt_settings demo_rt)))"
    by (simp add: demo_settings_def severity_of_def or_quarantine_def)
  from fail_mode_monotone [OF declared.libs_contract_axioms demo_payload_ok demo_renv_ok _ this r r'] r r'
  show ?thesis by auto
qed

end
