(* ===== verification/Connector_Server.thy ===== *)
theory Connector_Server
  imports Scan_Decisions
begin

text \<open>
  The connector of \<open>connector/app.py\<close> under concurrent requests.  A handler gives up control only where it
  awaits Omega, so a request has two atomic sections: from its body to the first post, and from the end of
  the retry loop to the reply.  \<open>arrive\<close> and \<open>resume\<close> are these sections, \<open>server_step\<close> interleaves those of
  all requests over the shared runtime.
\<close>

section \<open>The two sections of a request\<close>

text \<open>The part of \<open>OmegaClient.scan_attachment\<close> from the first post on.\<close>

definition await_posts :: "omega_client \<Rightarrow> omega_env \<Rightarrow> (exn + json) \<times> omega_client \<times> nat" where
  "await_posts c env =
     (case post_loop (nat (oc_retry_count c + 1)) 0 (oe_net env) None of
        (Returned d, n) \<Rightarrow> (Inr d, record_success c, n)
      | (Raised e, n) \<Rightarrow> (Inl e, c, n)
      | (Exhausted last_error, n) \<Rightarrow>
          (Inl (final_error last_error), record_failure (oe_now_fail env) c, n))"

text \<open>The handler after the upstream call: normalisation or fallback, audit record, response.\<close>

definition conclude ::
  "libs \<Rightarrow> connector_runtime \<Rightarrow> scan_request \<Rightarrow> request_env \<Rightarrow> pystr \<Rightarrow> (exn + json) \<times> omega_client \<times> nat \<Rightarrow> outcome" where
  "conclude L rt payload env endpoint scan =
     (case scan of
        (scanned, omega, posts) \<Rightarrow>
          (let rt' = rt\<lparr>rt_omega := omega\<rparr>;
               decision = (case bindE scanned (\<lambda>raw.
                     normalize_response L raw payload (re_uuid_reply env) (re_uuid_evidence env)) of
                   Inr normalized \<Rightarrow> Inr normalized
                 | Inl e \<Rightarrow> fallback_for L rt payload env e)
           in case bindE decision (\<lambda>normalized.
                     bindE (audit_log (rs_request_id normalized) (rs_tenant_id normalized)
                              (rs_verdict normalized) (rs_risk_score normalized)
                              (rs_reasons normalized) (audit_redaction (rt_settings rt))
                              [(u ''endpoint'', JStr endpoint)]) (\<lambda>entry.
                     Inr (normalized, entry))) of
                Inl e \<Rightarrow> \<lparr>out_result = Inl e, out_runtime = rt', out_audit = [], out_posts = posts\<rparr>
              | Inr (normalized, entry) \<Rightarrow>
                  \<lparr>out_result = Inr normalized, out_runtime = rt', out_audit = [entry],
                   out_posts = posts\<rparr>))"

text \<open>A request that awaits Omega, and what its first section gives.\<close>

record waiting_scan =
  ws_payload :: scan_request
  ws_env :: request_env
  ws_endpoint :: pystr

datatype arrival = Settled outcome | Suspended connector_runtime waiting_scan

definition arrive_body ::
  "libs \<Rightarrow> connector_runtime \<Rightarrow> http_request \<Rightarrow> request_env \<Rightarrow> bool \<Rightarrow> pystr \<Rightarrow> arrival" where
  "arrive_body L rt req env debug endpoint =
     (case parse_payload L req (re_uuid_request env) of
        Inl e \<Rightarrow> Settled \<lparr>out_result = Inl e, out_runtime = rt, out_audit = [], out_posts = 0\<rparr>
      | Inr payload \<Rightarrow>
          (case authenticate rt req payload env of
             (Inl e, cache) \<Rightarrow>
               Settled \<lparr>out_result = Inl e, out_runtime = rt\<lparr>rt_cache := cache\<rparr>, out_audit = [], out_posts = 0\<rparr>
           | (Inr _, cache) \<Rightarrow>
               (let rt' = rt\<lparr>rt_cache := cache\<rparr> in
                if \<not> can_attempt (oe_now_check (re_omega env)) (rt_omega rt) then
                  Settled (conclude L rt' payload env endpoint
                    (Inl (OmegaCircuitOpen (u ''omega circuit breaker is open'')), rt_omega rt, 0))
                else
                  (case prepare_request L (rt_omega rt) payload debug (re_omega env) of
                     Inl e \<Rightarrow> Settled (conclude L rt' payload env endpoint (Inl e, rt_omega rt, 0))
                   | Inr _ \<Rightarrow> Suspended rt' \<lparr>ws_payload = payload, ws_env = env, ws_endpoint = endpoint\<rparr>))))"

definition arrive :: "libs \<Rightarrow> connector_runtime \<Rightarrow> http_request \<times> request_env \<times> bool \<Rightarrow> arrival" where
  "arrive L rt x =
     (case x of (req, env, report) \<Rightarrow>
        if report \<and> \<not> connector_debug_document_scan (rt_settings rt) then
          Settled \<lparr>out_result = Inl (http_error 403 ''forbidden'' ''debug document scan is disabled'' None []),
                   out_runtime = rt, out_audit = [], out_posts = 0\<rparr>
        else arrive_body L rt req env report
          (if report then u ''/v1/scan/attachment/document_scan_report'' else u ''/v1/scan/attachment''))"

text \<open>The second section, at time \<open>now\<close> and with what the network did, on the runtime as it is by then.\<close>

definition resume :: "libs \<Rightarrow> connector_runtime \<Rightarrow> waiting_scan \<Rightarrow> real \<Rightarrow> (nat \<Rightarrow> attempt) \<Rightarrow> outcome" where
  "resume L rt w now net =
     conclude L rt (ws_payload w) (ws_env w) (ws_endpoint w)
       (await_posts (rt_omega rt) ((re_omega (ws_env w))\<lparr>oe_now_fail := now, oe_net := net\<rparr>))"

section \<open>The server\<close>

text \<open>The audit log and the results sent are listed in their order; the clock is that of the last reading.\<close>

record server =
  sv_runtime :: connector_runtime
  sv_now :: real
  sv_waiting :: "waiting_scan list"
  sv_audit :: "json list"
  sv_results :: "(exn + scan_response) list"

definition new_server :: "settings \<Rightarrow> real \<Rightarrow> server" where
  "new_server st t = \<lparr>sv_runtime = new_runtime st, sv_now = t, sv_waiting = [], sv_audit = [], sv_results = []\<rparr>"

definition send_reply :: "outcome \<Rightarrow> real \<Rightarrow> server \<Rightarrow> server" where
  "send_reply out t s =
     s\<lparr>sv_runtime := out_runtime out, sv_now := t, sv_audit := sv_audit s @ out_audit out,
       sv_results := sv_results s @ [out_result out]\<rparr>"

text \<open>The \<open>i\<close>-th waiting scan leaves the list.\<close>

definition remove_nth :: "nat \<Rightarrow> 'a list \<Rightarrow> 'a list" where
  "remove_nth i xs = take i xs @ drop (Suc i) xs"

datatype server_event =
    Arrival "http_request \<times> request_env \<times> bool"
  | Completion nat real "nat \<Rightarrow> attempt"

text \<open>A request reads the clock for its timestamp, for the nonce and for the breaker, in this order.\<close>

definition clocks_from :: "real \<Rightarrow> request_env \<Rightarrow> bool" where
  "clocks_from t env \<longleftrightarrow>
     t \<le> re_now_auth env \<and> re_now_auth env \<le> re_now_cache env \<and> re_now_cache env \<le> oe_now_check (re_omega env)"

inductive server_step :: "libs \<Rightarrow> server \<Rightarrow> server_event \<Rightarrow> server \<Rightarrow> bool" for L where
  replied: "arrive L (sv_runtime s) (req, env, report) = Settled out \<Longrightarrow> clocks_from (sv_now s) env \<Longrightarrow>
    server_step L s (Arrival (req, env, report)) (send_reply out (oe_now_check (re_omega env)) s)"
| waits: "arrive L (sv_runtime s) (req, env, report) = Suspended rt w \<Longrightarrow> clocks_from (sv_now s) env \<Longrightarrow>
    server_step L s (Arrival (req, env, report))
      (s\<lparr>sv_runtime := rt, sv_now := oe_now_check (re_omega env), sv_waiting := sv_waiting s @ [w]\<rparr>)"
| completes: "i < length (sv_waiting s) \<Longrightarrow> sv_now s \<le> t \<Longrightarrow>
    server_step L s (Completion i t net)
      (send_reply (resume L (sv_runtime s) (sv_waiting s ! i) t net) t
        (s\<lparr>sv_waiting := remove_nth i (sv_waiting s)\<rparr>))"

inductive_cases server_step_ArrivalE: "server_step L s (Arrival x) s'"
inductive_cases server_step_CompletionE: "server_step L s (Completion i t net) s'"

inductive_simps server_step_simps:
  "server_step L s (Arrival (req, env, report)) s'" "server_step L s (Completion i t net) s'"

text \<open>What a step does to the breaker, newest first.\<close>

definition breaker_events :: "libs \<Rightarrow> server \<Rightarrow> server_event \<Rightarrow> breaker_event list" where
  "breaker_events L s ev =
     (case ev of
        Arrival x \<Rightarrow> (case arrive L (sv_runtime s) x of Suspended _ _ \<Rightarrow> [Started, Ticked] | Settled _ \<Rightarrow> [Ticked])
      | Completion i t net \<Rightarrow>
          (case fst (post_loop (nat (oc_retry_count (rt_omega (sv_runtime s)) + 1)) 0 net None) of
             Returned _ \<Rightarrow> [Succeeded, Ticked]
           | Raised _ \<Rightarrow> [Refused, Ticked]
           | Exhausted _ \<Rightarrow> [FailedAt t, Ticked]))"

text \<open>\<open>server_run L st es hs s\<close>: a connector started with the settings \<open>st\<close> gets to \<open>s\<close> by the events \<open>es\<close>, which
  show the breaker the history \<open>hs\<close> (both newest first).\<close>

inductive server_run :: "libs \<Rightarrow> settings \<Rightarrow> server_event list \<Rightarrow> breaker_event list \<Rightarrow> server \<Rightarrow> bool" for L st where
  starts: "0 \<le> t \<Longrightarrow> server_run L st [] [] (new_server st t)"
| steps: "server_run L st es hs s \<Longrightarrow> server_step L s e s' \<Longrightarrow>
    server_run L st (e # es) (breaker_events L s e @ hs) s'"

section \<open>The sections compose to the handler\<close>

lemma omega_scan_split:
  "omega_scan L c payload debug env =
     (if \<not> can_attempt (oe_now_check env) c then (Inl (OmegaCircuitOpen (u ''omega circuit breaker is open'')), c, 0)
      else (case prepare_request L c payload debug env of Inl e \<Rightarrow> (Inl e, c, 0) | Inr _ \<Rightarrow> await_posts c env))"
  by (simp only: omega_scan_def await_posts_def)

lemma answer_scan_conclude:
  "answer_scan L rt payload env debug endpoint =
     conclude L rt payload env endpoint (omega_scan L (rt_omega rt) payload debug (re_omega env))"
  by (simp add: answer_scan_def decide_def conclude_def Let_def case_prod_beta split: sum.split)

text \<open>A request that is resumed at once, with what its environment foresees.\<close>

definition resume_now :: "libs \<Rightarrow> connector_runtime \<Rightarrow> waiting_scan \<Rightarrow> outcome" where
  "resume_now L rt w =
     resume L rt w (oe_now_fail (re_omega (ws_env w))) (oe_net (re_omega (ws_env w)))"

lemma arrive_body_resume:
  "(case arrive_body L rt req env debug endpoint of Settled out \<Rightarrow> out | Suspended rt' w \<Rightarrow> resume_now L rt' w) =
     scan_body L rt req env debug endpoint"
proof (cases "parse_payload L req (re_uuid_request env)")
  case (Inl e)
  then show ?thesis by (simp add: arrive_body_def scan_body_def)
next
  case (Inr payload)
  obtain a c where ac: "authenticate rt req payload env = (a, c)" by (cases "authenticate rt req payload env")
  show ?thesis
    by (cases a) (simp_all add: arrive_body_def scan_body_def Inr ac answer_scan_conclude omega_scan_split Let_def
        resume_now_def resume_def split: sum.split)
qed

lemma arrive_resume:
  "(case arrive L rt x of Settled out \<Rightarrow> out | Suspended rt' w \<Rightarrow> resume_now L rt' w) = serve L rt x"
  using arrive_body_resume [of L rt]
  by (auto simp: arrive_def serve_def scan_attachment_def scan_attachment_document_scan_report_def
      split: prod.split)

section \<open>What the sections leave alone\<close>

lemma conclude_runtime [simp]:
  "out_runtime (conclude L rt payload env endpoint scan) = rt\<lparr>rt_omega := fst (snd scan)\<rparr>"
  "out_posts (conclude L rt payload env endpoint scan) = snd (snd scan)"
  by (simp_all add: conclude_def Let_def case_prod_beta split: sum.split)

lemma same_config_await: "same_config c d \<Longrightarrow> same_config c (fst (snd (await_posts d env)))"
  by (auto simp: await_posts_def same_config_record split: loop_end.split prod.split)

lemma resume_runtime:
  "rt_settings (out_runtime (resume L rt w now net)) = rt_settings rt"
  "rt_auth (out_runtime (resume L rt w now net)) = rt_auth rt"
  "rt_cache (out_runtime (resume L rt w now net)) = rt_cache rt"
  by (simp_all add: resume_def)

text \<open>The runtime after the first section.\<close>

definition arrived_runtime :: "arrival \<Rightarrow> connector_runtime" where
  "arrived_runtime a = (case a of Settled out \<Rightarrow> out_runtime out | Suspended rt _ \<Rightarrow> rt)"

lemma arrived_runtime:
  "\<exists>c. arrived_runtime (arrive L rt (req, env, report)) = rt\<lparr>rt_cache := c\<rparr> \<and>
     (c = rt_cache rt \<or> (\<exists>k. c = snd (check_and_mark (re_now_cache env) k (rt_cache rt))))"
proof -
  have same: "\<exists>c. rt = rt\<lparr>rt_cache := c\<rparr> \<and> (c = rt_cache rt \<or> P c)" for P by (intro exI [of _ "rt_cache rt"]) simp
  have body: "\<exists>c. arrived_runtime (arrive_body L rt req env d ep) = rt\<lparr>rt_cache := c\<rparr> \<and>
     (c = rt_cache rt \<or> (\<exists>k. c = snd (check_and_mark (re_now_cache env) k (rt_cache rt))))" for d ep
  proof (cases "parse_payload L req (re_uuid_request env)")
    case (Inl e)
    then show ?thesis using same by (simp add: arrive_body_def arrived_runtime_def)
  next
    case (Inr payload)
    obtain a c where ac: "authenticate rt req payload env = (a, c)" by (cases "authenticate rt req payload env")
    have "arrived_runtime (arrive_body L rt req env d ep) = rt\<lparr>rt_cache := c\<rparr>"
      by (cases a) (simp_all add: arrive_body_def arrived_runtime_def Inr ac Let_def split: sum.split)
    with ac authenticate_cache [of rt req payload env] show ?thesis by auto
  qed
  show ?thesis
    by (cases "report \<and> \<not> connector_debug_document_scan (rt_settings rt)")
      (use body same in \<open>simp_all add: arrive_def arrived_runtime_def\<close>)
qed

section \<open>Concluding a request\<close>

text \<open>The audit record of a decision, under the redaction that is configured.\<close>

definition audited :: "settings \<Rightarrow> scan_response \<Rightarrow> json \<Rightarrow> bool" where
  "audited st r j \<longleftrightarrow>
     (\<exists>endpoint. audit_log (rs_request_id r) (rs_tenant_id r) (rs_verdict r) (rs_risk_score r) (rs_reasons r)
        (audit_redaction st) [(u ''endpoint'', JStr endpoint)] = Inr j)"

context libs_contract
begin

lemma conclude_ok:
  assumes ok: "payload_ok payload" "env_ok env"
  obtains r j where
    "conclude L rt payload env endpoint scan =
       \<lparr>out_result = Inr r, out_runtime = rt\<lparr>rt_omega := fst (snd scan)\<rparr>, out_audit = [j], out_posts = snd (snd scan)\<rparr>"
    "audited (rt_settings rt) r j" "rs_verdict r \<in> set verdicts" "declared_response r"
    "(\<exists>raw. fst scan = Inr raw \<and>
        normalize_response L raw payload (re_uuid_reply env) (re_uuid_evidence env) = Inr r) \<or>
     (\<exists>e. r = fallback_of rt payload env e)"
proof -
  define b where "b = bindE (fst scan) (\<lambda>raw. normalize_response L raw payload (re_uuid_reply env) (re_uuid_evidence env))"
  define r where "r = (case b of Inr r \<Rightarrow> r | Inl e \<Rightarrow> fallback_of rt payload env e)"
  have dec: "(case b of Inr normalized \<Rightarrow> Inr normalized | Inl e \<Rightarrow> fallback_for L rt payload env e) = Inr r"
    using fallback_for_Inr [OF ok] by (simp add: r_def split: sum.split)
  have from_b: "b = Inr r \<or> (\<exists>e. r = fallback_of rt payload env e)" by (cases b) (auto simp: r_def)
  have d: "rs_verdict r \<in> set verdicts \<and> declared_response r"
    using from_b
  proof
    assume "b = Inr r"
    then obtain raw where n: "normalize_response L raw payload (re_uuid_reply env) (re_uuid_evidence env) = Inr r"
      by (auto simp: b_def exn_simps)
    show ?thesis using normalize_response_Inr [OF n] normalize_verdict_in by auto
  next
    assume "\<exists>e. r = fallback_of rt payload env e"
    then show ?thesis using verdict_in fallback_declared [OF ok] by blast
  qed
  obtain j where j: "audit_log (rs_request_id r) (rs_tenant_id r) (rs_verdict r) (rs_risk_score r)
      (rs_reasons r) (audit_redaction (rt_settings rt)) [(u ''endpoint'', JStr endpoint)] = Inr j"
    using audit_log_ok d by (metis declared_response_def text_ok_def)
  show ?thesis
  proof (rule that [of r j])
    show "conclude L rt payload env endpoint scan =
       \<lparr>out_result = Inr r, out_runtime = rt\<lparr>rt_omega := fst (snd scan)\<rparr>, out_audit = [j], out_posts = snd (snd scan)\<rparr>"
      using dec j by (simp add: conclude_def b_def Let_def case_prod_beta)
    show "audited (rt_settings rt) r j" using j by (auto simp: audited_def)
    show "(\<exists>raw. fst scan = Inr raw \<and> normalize_response L raw payload (re_uuid_reply env) (re_uuid_evidence env) = Inr r) \<or>
        (\<exists>e. r = fallback_of rt payload env e)"
      using from_b by (auto simp: b_def exn_simps)
  qed (use d in blast)+
qed

text \<open>A request that cannot wait for Omega is concluded with the fallback in its first section.\<close>

lemma conclude_failed:
  assumes "payload_ok payload" "env_ok env"
  obtains r j e' where
    "conclude L rt payload env endpoint (Inl e, rt_omega rt, 0) =
       \<lparr>out_result = Inr r, out_runtime = rt, out_audit = [j], out_posts = 0\<rparr>"
    "audited (rt_settings rt) r j" "r = fallback_of rt payload env e'"
  by (rule conclude_ok [OF assms, of rt endpoint "(Inl e, rt_omega rt, 0)"]) auto

lemma arrive_enabled:
  assumes "\<not> (report \<and> \<not> connector_debug_document_scan (rt_settings rt))"
  obtains ep where "arrive L rt (req, env, report) = arrive_body L rt req env report ep"
  using assms by (simp only: arrive_def prod.case if_False)

text \<open>What follows an accepted authentication.\<close>

lemma arrive_body_authenticated:
  assumes "parse_payload L req (re_uuid_request env) = Inr payload" "authenticate rt req payload env = (Inr (), c)"
  obtains
    (early) e where "arrive_body L rt req env report ep =
        Settled (conclude L (rt\<lparr>rt_cache := c\<rparr>) payload env ep (Inl e, rt_omega rt, 0))"
  | (waiting) "arrive_body L rt req env report ep =
        Suspended (rt\<lparr>rt_cache := c\<rparr>) \<lparr>ws_payload = payload, ws_env = env, ws_endpoint = ep\<rparr>"
      "can_attempt (oe_now_check (re_omega env)) (rt_omega rt)"
proof (cases "can_attempt (oe_now_check (re_omega env)) (rt_omega rt)")
  case True
  then show ?thesis
    by (cases "prepare_request L (rt_omega rt) payload report (re_omega env)")
      (use early waiting in \<open>simp_all add: arrive_body_def assms Let_def\<close>)
qed (use early in \<open>simp add: arrive_body_def assms Let_def\<close>)

text \<open>What the first section can give.\<close>

lemma arrive_cases:
  assumes env: "env_ok env"
  obtains
    (rejected) e c where "arrive L rt (req, env, report) =
         Settled \<lparr>out_result = Inl e, out_runtime = rt\<lparr>rt_cache := c\<rparr>, out_audit = [], out_posts = 0\<rparr>"
  | (fallback) payload c r j e where "arrive L rt (req, env, report) =
         Settled \<lparr>out_result = Inr r, out_runtime = rt\<lparr>rt_cache := c\<rparr>, out_audit = [j], out_posts = 0\<rparr>"
      "parse_payload L req (re_uuid_request env) = Inr payload" "authenticate rt req payload env = (Inr (), c)"
      "audited (rt_settings rt) r j" "r = fallback_of rt payload env e"
  | (waits) payload c ep where "arrive L rt (req, env, report) =
         Suspended (rt\<lparr>rt_cache := c\<rparr>) \<lparr>ws_payload = payload, ws_env = env, ws_endpoint = ep\<rparr>"
      "parse_payload L req (re_uuid_request env) = Inr payload" "authenticate rt req payload env = (Inr (), c)"
      "payload_ok payload" "can_attempt (oe_now_check (re_omega env)) (rt_omega rt)"
proof (cases "report \<and> \<not> connector_debug_document_scan (rt_settings rt)")
  case True
  then show ?thesis using rejected [of _ "rt_cache rt"] by (simp add: arrive_def)
next
  case False
  then obtain ep where on: "arrive L rt (req, env, report) = arrive_body L rt req env report ep"
    by (rule arrive_enabled)
  show ?thesis
  proof (cases "parse_payload L req (re_uuid_request env)")
    case (Inl e)
    then show ?thesis using rejected [of e "rt_cache rt"] by (simp add: on arrive_body_def)
  next
    case parsed: (Inr payload)
    have p: "payload_ok payload" using parse_payload_ok [OF parsed] env by (auto simp: env_ok_def)
    obtain a c where ac: "authenticate rt req payload env = (a, c)" by (cases "authenticate rt req payload env")
    show ?thesis
    proof (cases a)
      case (Inl e)
      then show ?thesis using rejected [of e c] by (simp add: on arrive_body_def parsed ac)
    next
      case (Inr x)
      then have auth: "authenticate rt req payload env = (Inr (), c)" using ac by simp
      show ?thesis
      proof (rule arrive_body_authenticated [OF parsed auth, of report ep])
        fix e
        assume "arrive_body L rt req env report ep =
          Settled (conclude L (rt\<lparr>rt_cache := c\<rparr>) payload env ep (Inl e, rt_omega rt, 0))"
        moreover obtain r j e' where "conclude L (rt\<lparr>rt_cache := c\<rparr>) payload env ep (Inl e, rt_omega rt, 0) =
            \<lparr>out_result = Inr r, out_runtime = rt\<lparr>rt_cache := c\<rparr>, out_audit = [j], out_posts = 0\<rparr>"
          "audited (rt_settings rt) r j" "r = fallback_of (rt\<lparr>rt_cache := c\<rparr>) payload env e'"
          using conclude_failed [OF p env, of "rt\<lparr>rt_cache := c\<rparr>" ep e] by auto
        ultimately show ?thesis
          by (intro fallback [OF _ parsed auth, of r j e']) (simp_all add: on fallback_of_def)
      qed (use waits [OF _ parsed auth p] on in simp)
    qed
  qed
qed

end

section \<open>The invariant of the shared state\<close>

definition server_inv :: "settings \<Rightarrow> server \<Rightarrow> bool" where
  "server_inv st s \<longleftrightarrow>
     rt_settings (sv_runtime s) = st \<and> rt_auth (sv_runtime s) = rt_auth (new_runtime st) \<and>
     same_config (rt_omega (new_runtime st)) (rt_omega (sv_runtime s)) \<and>
     cache_inv (nonce_ttl_sec st) 100000 (sv_now s) (rt_cache (sv_runtime s)) \<and>
     int (length (entries (rt_cache (sv_runtime s)))) \<le> 100001 \<and> 0 \<le> sv_now s"

lemma cache_inv_later: "cache_inv ttl m t c \<Longrightarrow> t \<le> t' \<Longrightarrow> cache_inv ttl m t' c"
  by (fastforce simp: cache_inv_def)

lemma arrived_cache:
  assumes "cache_inv ttl m t (rt_cache rt)" "0 \<le> m" "int (length (entries (rt_cache rt))) \<le> m + 1" "t \<le> re_now_cache env"
    and "c = rt_cache rt \<or> (\<exists>k. c = snd (check_and_mark (re_now_cache env) k (rt_cache rt)))"
  shows "cache_inv ttl m (re_now_cache env) c \<and> int (length (entries c)) \<le> m + 1"
  using assms cache_inv_later cache_inv_check length_check_bound by blast

lemma server_inv_step:
  assumes inv: "server_inv st s" and step: "server_step L s e s'"
  shows "server_inv st s'"
proof -
  have arrived: "server_inv st s''" if t: "clocks_from (sv_now s) env"
    and rt: "sv_runtime s'' = arrived_runtime (arrive L (sv_runtime s) (req, env, report))"
    and now: "sv_now s'' = oe_now_check (re_omega env)" for req env report s''
  proof -
    obtain c where c: "sv_runtime s'' = sv_runtime s\<lparr>rt_cache := c\<rparr>"
      "c = rt_cache (sv_runtime s) \<or> (\<exists>k. c = snd (check_and_mark (re_now_cache env) k (rt_cache (sv_runtime s))))"
      using arrived_runtime [of L "sv_runtime s" req env report] rt by auto
    have le: "sv_now s \<le> re_now_cache env" "re_now_cache env \<le> sv_now s''" using t now by (auto simp: clocks_from_def)
    have "cache_inv (nonce_ttl_sec st) 100000 (re_now_cache env) c \<and> int (length (entries c)) \<le> 100000 + 1"
      by (rule arrived_cache [OF _ _ _ le(1) c(2)]) (use inv in \<open>auto simp: server_inv_def\<close>)
    then show ?thesis using inv c(1) le cache_inv_later by (auto simp: server_inv_def)
  qed
  show ?thesis
    using step
  proof cases
    case (replied req env report out)
    then show ?thesis by (intro arrived [where env = env and req = req and report = report]) (simp_all add: send_reply_def arrived_runtime_def)
  next
    case (waits req env report rt w)
    then show ?thesis by (intro arrived [where env = env and req = req and report = report]) (simp_all add: arrived_runtime_def)
  next
    case (completes i t net)
    have "same_config (rt_omega (new_runtime st)) (rt_omega (sv_runtime s'))"
      using inv by (simp add: completes send_reply_def resume_def same_config_await server_inv_def)
    then show ?thesis
      using inv cache_inv_later completes(4) by (auto simp: completes(1,2) server_inv_def send_reply_def resume_runtime)
  qed
qed

lemma server_inv_run: "server_run L st es hs s \<Longrightarrow> server_inv st s"
proof (induction rule: server_run.induct)
  case (starts t)
  then show ?case
    by (simp add: server_inv_def new_server_def new_runtime_def same_config_def cache_inv_new) (simp add: new_cache_def)
qed (rule server_inv_step)

section \<open>Accounting\<close>

text \<open>The decisions among the results, and the number of requests that arrived.\<close>

fun decisions :: "(exn + scan_response) list \<Rightarrow> scan_response list" where
  "decisions [] = []"
| "decisions (Inl _ # rs) = decisions rs"
| "decisions (Inr r # rs) = r # decisions rs"

fun arrivals :: "server_event list \<Rightarrow> (http_request \<times> request_env \<times> bool) list" where
  "arrivals [] = []"
| "arrivals (Arrival x # es) = x # arrivals es"
| "arrivals (Completion _ _ _ # es) = arrivals es"

lemma decisions_append [simp]: "decisions (xs @ ys) = decisions xs @ decisions ys"
  by (induction xs rule: decisions.induct) simp_all

lemma length_remove_nth: "i < length xs \<Longrightarrow> Suc (length (remove_nth i xs)) = length xs"
  by (simp add: remove_nth_def)

lemma set_remove_nth: "set (remove_nth i xs) \<subseteq> set xs"
  by (auto simp: remove_nth_def dest: in_set_takeD in_set_dropD)

definition waiting_ok :: "waiting_scan \<Rightarrow> bool" where
  "waiting_ok w \<longleftrightarrow> payload_ok (ws_payload w) \<and> env_ok (ws_env w)"

definition accounts :: "settings \<Rightarrow> nat \<Rightarrow> server \<Rightarrow> bool" where
  "accounts st n s \<longleftrightarrow>
     n = length (sv_results s) + length (sv_waiting s) \<and>
     list_all2 (audited st) (decisions (sv_results s)) (sv_audit s) \<and>
     (\<forall>r\<in>set (decisions (sv_results s)). rs_verdict r \<in> set verdicts \<and> declared_response r) \<and>
     (\<forall>w\<in>set (sv_waiting s). waiting_ok w)"

context libs_contract
begin

text \<open>The result of a second section.\<close>

lemma resume_ok:
  assumes "waiting_ok w"
  obtains r j where
    "resume L rt w t net = \<lparr>out_result = Inr r,
       out_runtime = rt\<lparr>rt_omega := fst (snd (await_posts (rt_omega rt) ((re_omega (ws_env w))\<lparr>oe_now_fail := t, oe_net := net\<rparr>)))\<rparr>,
       out_audit = [j],
       out_posts = snd (snd (await_posts (rt_omega rt) ((re_omega (ws_env w))\<lparr>oe_now_fail := t, oe_net := net\<rparr>)))\<rparr>"
    "audited (rt_settings rt) r j" "rs_verdict r \<in> set verdicts" "declared_response r"
    "(\<exists>raw. fst (await_posts (rt_omega rt) ((re_omega (ws_env w))\<lparr>oe_now_fail := t, oe_net := net\<rparr>)) = Inr raw \<and>
        normalize_response L raw (ws_payload w) (re_uuid_reply (ws_env w)) (re_uuid_evidence (ws_env w)) = Inr r) \<or>
     (\<exists>e. r = fallback_of rt (ws_payload w) (ws_env w) e)"
proof -
  have ok: "payload_ok (ws_payload w)" "env_ok (ws_env w)" using assms by (simp_all add: waiting_ok_def)
  show ?thesis
    unfolding resume_def by (rule conclude_ok [OF ok, of rt "ws_endpoint w"]) (rule that [unfolded resume_def])
qed

lemma arrive_replied_ok:
  assumes "env_ok env" "arrive L rt (req, env, report) = Settled out"
  shows "list_all2 (audited (rt_settings rt)) (decisions [out_result out]) (out_audit out) \<and>
    (\<forall>r\<in>set (decisions [out_result out]). rs_verdict r \<in> set verdicts \<and> declared_response r)"
  using assms(1)
proof (cases rule: arrive_cases [of env rt req report, consumes 1, case_names rejected fallback waits])
  case (fallback payload c r j e)
  have "payload_ok payload" using parse_payload_ok [OF fallback(2)] assms(1) by (auto simp: env_ok_def)
  then show ?thesis using fallback assms verdict_in fallback_declared by auto
qed (use assms in auto)

lemma arrive_waiting_ok:
  assumes "env_ok env" "arrive L rt (req, env, report) = Suspended rt' w"
  shows "waiting_ok w \<and> can_attempt (oe_now_check (re_omega env)) (rt_omega rt)"
  using assms(1)
  by (cases rule: arrive_cases [of env rt req report, consumes 1, case_names rejected fallback waits])
    (use assms in \<open>auto simp: waiting_ok_def\<close>)

lemma accounts_step:
  assumes acc: "accounts st n s" and st: "rt_settings (sv_runtime s) = st" and step: "server_step L s e s'"
    and env: "\<forall>x\<in>set (arrivals [e]). env_ok (fst (snd x))"
  shows "accounts st (n + length (arrivals [e])) s'"
  using step
proof cases
  case (replied req env report out)
  have "env_ok env" using env by (simp add: replied)
  from arrive_replied_ok [OF this replied(3)] acc show ?thesis
    by (auto simp: replied accounts_def send_reply_def st list_all2_appendI)
next
  case (waits req env report rt w)
  have "env_ok env" using env by (simp add: waits)
  from arrive_waiting_ok [OF this waits(3)] acc show ?thesis by (auto simp: waits accounts_def)
next
  case (completes i t net)
  have w: "waiting_ok (sv_waiting s ! i)" using acc completes(3) by (simp add: accounts_def)
  obtain r j where r: "out_result (resume L (sv_runtime s) (sv_waiting s ! i) t net) = Inr r"
    "out_audit (resume L (sv_runtime s) (sv_waiting s ! i) t net) = [j]"
    "audited st r j" "rs_verdict r \<in> set verdicts" "declared_response r"
    by (rule resume_ok [OF w, of "sv_runtime s" t net]) (simp add: st)
  have "length (sv_waiting s) = Suc (length (remove_nth i (sv_waiting s)))"
    using length_remove_nth [OF completes(3)] by simp
  then show ?thesis
    using acc r set_remove_nth [of i "sv_waiting s"]
    by (auto simp: completes accounts_def send_reply_def list_all2_appendI)
qed

lemma accounts_run:
  "server_run L st es hs s \<Longrightarrow> \<forall>x\<in>set (arrivals es). env_ok (fst (snd x)) \<Longrightarrow> accounts st (length (arrivals es)) s"
proof (induction rule: server_run.induct)
  case (starts t)
  then show ?case by (simp add: accounts_def new_server_def)
next
  case (steps es hs s e s')
  have split: "arrivals (e # es) = arrivals [e] @ arrivals es" by (cases e) simp_all
  have "accounts st (length (arrivals es) + length (arrivals [e])) s'"
    by (rule accounts_step [OF _ _ steps(2)])
      (use steps split server_inv_run [OF steps(1)] in \<open>auto simp: server_inv_def\<close>)
  then show ?case by (simp add: split add.commute)
qed

end

section \<open>Refinement of the breaker\<close>

text \<open>What the breaker sees of a server.\<close>

definition breaker_view :: "server \<Rightarrow> breaker_sys" where
  "breaker_view s =
     \<lparr>bs_client = rt_omega (sv_runtime s), bs_now = sv_now s, bs_inflight = length (sv_waiting s)\<rparr>"

lemma run_ticked: "breaker_run c es b \<Longrightarrow> bs_now b \<le> t \<Longrightarrow> breaker_run c (Ticked # es) (b\<lparr>bs_now := t\<rparr>)"
  by (intro breaker_run.event [OF _ breaker_step.tick])

lemma breaker_view_step:
  assumes run: "breaker_run c hs (breaker_view s)" and step: "server_step L s e s'"
    and env: "libs_contract L" "\<forall>x\<in>set (arrivals [e]). env_ok (fst (snd x))"
  shows "breaker_run c (breaker_events L s e @ hs) (breaker_view s')"
  using step
proof cases
  case (replied req env report out)
  obtain d where "out_runtime out = sv_runtime s\<lparr>rt_cache := d\<rparr>"
    using arrived_runtime [of L "sv_runtime s" req env report] by (auto simp: replied arrived_runtime_def)
  moreover have "breaker_run c (Ticked # hs) (breaker_view s\<lparr>bs_now := oe_now_check (re_omega env)\<rparr>)"
    by (rule run_ticked [OF run]) (use replied(4) in \<open>simp add: breaker_view_def clocks_from_def\<close>)
  ultimately show ?thesis by (simp add: replied breaker_events_def breaker_view_def send_reply_def)
next
  case (waits req env report rt w)
  obtain d where rt: "rt = sv_runtime s\<lparr>rt_cache := d\<rparr>"
    using arrived_runtime [of L "sv_runtime s" req env report] by (auto simp: waits arrived_runtime_def)
  have "env_ok env" using env(2) by (simp add: waits)
  then have adm: "can_attempt (oe_now_check (re_omega env)) (rt_omega (sv_runtime s))"
    using libs_contract.arrive_waiting_ok [OF env(1) _ waits(3)] by blast
  let ?b = "breaker_view s\<lparr>bs_now := oe_now_check (re_omega env)\<rparr>"
  have "breaker_run c (Ticked # hs) ?b"
    by (rule run_ticked [OF run]) (use waits(4) in \<open>simp add: breaker_view_def clocks_from_def\<close>)
  from run_started [OF this] adm have "breaker_run c (Started # Ticked # hs) (?b\<lparr>bs_inflight := Suc (bs_inflight ?b)\<rparr>)"
    by (simp add: breaker_view_def)
  then show ?thesis by (simp add: waits(1-3) rt breaker_events_def breaker_view_def)
next
  case (completes i t net)
  let ?b = "breaker_view s\<lparr>bs_now := t\<rparr>"
  have ticked: "breaker_run c (Ticked # hs) ?b"
    by (rule run_ticked [OF run]) (use completes(4) in \<open>simp add: breaker_view_def\<close>)
  obtain n where n: "length (sv_waiting s) = Suc n" using completes(3) by (cases "length (sv_waiting s)") auto
  then have m: "length (remove_nth i (sv_waiting s)) = n" using length_remove_nth [OF completes(3)] by simp
  have b: "bs_inflight ?b = Suc n" by (simp add: breaker_view_def n)
  obtain r k where r: "post_loop (nat (oc_retry_count (rt_omega (sv_runtime s)) + 1)) 0 net None = (r, k)"
    by (cases "post_loop (nat (oc_retry_count (rt_omega (sv_runtime s)) + 1)) 0 net None")
  show ?thesis
    using run_finished [OF ticked b]
    by (cases r) (simp_all add: completes(1,2) breaker_events_def breaker_view_def send_reply_def resume_def await_posts_def r m)
qed

lemma breaker_view_run:
  "server_run L st es hs s \<Longrightarrow> libs_contract L \<Longrightarrow> \<forall>x\<in>set (arrivals es). env_ok (fst (snd x)) \<Longrightarrow>
     breaker_run (rt_omega (new_runtime st)) hs (breaker_view s)"
proof (induction rule: server_run.induct)
  case (starts t)
  then show ?case
    by (auto simp: breaker_view_def new_server_def new_runtime_def new_omega_client_def intro!: breaker_run.init)
next
  case (steps es hs s e s')
  have "set (arrivals (e # es)) = set (arrivals [e]) \<union> set (arrivals es)" by (cases e) auto
  then show ?case by (intro breaker_view_step [OF _ steps(2)]) (use steps in auto)
qed

section \<open>The nonce cache along a run\<close>

text \<open>Steps from one state to another, oldest first.\<close>

inductive server_steps :: "libs \<Rightarrow> server \<Rightarrow> server_event list \<Rightarrow> server \<Rightarrow> bool" for L where
  none: "server_steps L s [] s"
| more: "server_step L s e s' \<Longrightarrow> server_steps L s' es s'' \<Longrightarrow> server_steps L s (e # es) s''"

inductive_cases server_steps_ConsE: "server_steps L s (e # es) s''"
inductive_simps server_steps_simps: "server_steps L s [] s'" "server_steps L s (e # es) s''"

lemma arrived_state:
  assumes "server_step L s (Arrival x) s'"
  shows "sv_runtime s' = arrived_runtime (arrive L (sv_runtime s) x) \<and>
    sv_now s \<le> served_at x \<and> served_at x \<le> sv_now s'"
  using assms by cases (auto simp: arrived_runtime_def send_reply_def clocks_from_def)

lemma completed_state:
  assumes "server_step L s (Completion i t net) s'"
  shows "rt_cache (sv_runtime s') = rt_cache (sv_runtime s)" "rt_auth (sv_runtime s') = rt_auth (sv_runtime s)"
    "sv_now s \<le> sv_now s'"
  using assms by (cases; simp add: send_reply_def resume_runtime)+

lemma server_steps_cache:
  "server_steps L s es s' \<Longrightarrow>
     sv_now s \<le> sv_now s' \<and> rt_auth (sv_runtime s') = rt_auth (sv_runtime s) \<and>
     (\<exists>cs. rt_cache (sv_runtime s') = run_checks check_and_mark cs (rt_cache (sv_runtime s)) \<and>
        sorted (sv_now s # map fst cs @ [sv_now s']) \<and> length cs \<le> length (arrivals es))"
proof (induction rule: server_steps.induct)
  case (none s)
  then show ?case by (auto intro: exI [of _ "[]"])
next
  case (more s e s1 es s')
  obtain cs where cs: "rt_cache (sv_runtime s') = run_checks check_and_mark cs (rt_cache (sv_runtime s1))"
    "sorted (sv_now s1 # map fst cs @ [sv_now s'])" "length cs \<le> length (arrivals es)"
    using more.IH by blast
  show ?case
  proof (cases e)
    case (Completion i t net)
    note c = completed_state [OF more(1) [unfolded Completion]]
    have "sorted (sv_now s # map fst cs @ [sv_now s'])" using cs(2) c(3) by auto
    with cs more.IH c show ?thesis by (intro conjI exI [of _ cs]) (auto simp: Completion)
  next
    case (Arrival x)
    note a = arrived_state [OF more(1) [unfolded Arrival]]
    obtain req env report where x: "x = (req, env, report)" by (cases x)
    obtain d where d: "sv_runtime s1 = sv_runtime s\<lparr>rt_cache := d\<rparr>"
      "d = rt_cache (sv_runtime s) \<or> (\<exists>k. d = snd (check_and_mark (re_now_cache env) k (rt_cache (sv_runtime s))))"
      using arrived_runtime [of L "sv_runtime s" req env report] a by (auto simp: x)
    have le: "sv_now s \<le> re_now_cache env" "re_now_cache env \<le> sv_now s1" using a by (simp_all add: x)
    show ?thesis
    proof (cases "d = rt_cache (sv_runtime s)")
      case True
      have "sorted (sv_now s # map fst cs @ [sv_now s'])" using cs(2) le by auto
      with True cs d more.IH le show ?thesis by (intro conjI exI [of _ cs]) (auto simp: Arrival)
    next
      case False
      then obtain k where k: "d = snd (check_and_mark (re_now_cache env) k (rt_cache (sv_runtime s)))" using d(2) by blast
      have "sorted (sv_now s # map fst ((re_now_cache env, k) # cs) @ [sv_now s'])" using cs(2) le by auto
      with k cs d more.IH le show ?thesis by (intro conjI exI [of _ "(re_now_cache env, k) # cs"]) (auto simp: Arrival)
    qed
  qed
qed

text \<open>A request that is not refused: it awaits Omega or is answered with a decision.\<close>

definition admitted :: "arrival \<Rightarrow> bool" where
  "admitted a \<longleftrightarrow>
     (case a of Suspended _ _ \<Rightarrow> True | Settled out \<Rightarrow> (case out_result out of Inr _ \<Rightarrow> True | Inl _ \<Rightarrow> False))"

lemma arrive_admitted:
  assumes "libs_contract L" "env_ok env" "require_hmac (rt_auth rt)" "admitted (arrive L rt (req, env, report))"
  shows "\<exists>payload key rk. parse_payload L req (re_uuid_request env) = Inr payload \<and>
    validate_api_key (rt_auth rt) (hr_headers req ''X-API-Key'') (rq_request_id payload) = Inr key \<and>
    hmac_gate (rt_auth rt) req payload key (re_now_auth env) = Inr rk \<and>
    fst (check_and_mark (re_now_cache env) rk (rt_cache rt)) \<and>
    rt_cache (arrived_runtime (arrive L rt (req, env, report))) = snd (check_and_mark (re_now_cache env) rk (rt_cache rt))"
proof -
  have "\<exists>payload c. parse_payload L req (re_uuid_request env) = Inr payload \<and>
      authenticate rt req payload env = (Inr (), c) \<and> rt_cache (arrived_runtime (arrive L rt (req, env, report))) = c"
    using assms(2)
    by (cases rule: libs_contract.arrive_cases [OF assms(1), of env rt req report, consumes 1, case_names rejected fallback waits])
      (use assms(4) in \<open>auto simp: admitted_def arrived_runtime_def\<close>)
  then show ?thesis using authenticate_accepted assms(3) by blast
qed

lemma not_admitted:
  assumes "libs_contract L" "env_ok env" "\<not> admitted (arrive L rt (req, env, report))"
  shows "\<exists>e out. arrive L rt (req, env, report) = Settled out \<and> out_result out = Inl e \<and>
    out_posts out = 0 \<and> out_audit out = [] \<and> rt_omega (out_runtime out) = rt_omega rt"
  using assms(2)
  by (cases rule: libs_contract.arrive_cases [OF assms(1), of env rt req report, consumes 1, case_names rejected fallback waits])
    (use assms(3) in \<open>auto simp: admitted_def\<close>)

section \<open>Sequential runs\<close>

text \<open>The outcomes of requests served one after the other.\<close>

fun outcomes :: "libs \<Rightarrow> connector_runtime \<Rightarrow> (http_request \<times> request_env \<times> bool) list \<Rightarrow> outcome list" where
  "outcomes L rt [] = []"
| "outcomes L rt (x # xs) = serve L rt x # outcomes L (out_runtime (serve L rt x)) xs"

fun clocks_chain :: "real \<Rightarrow> (http_request \<times> request_env \<times> bool) list \<Rightarrow> bool" where
  "clocks_chain t [] = True"
| "clocks_chain t ((req, env, report) # xs) \<longleftrightarrow>
     clocks_from t env \<and> oe_now_check (re_omega env) \<le> oe_now_fail (re_omega env) \<and>
     clocks_chain (oe_now_fail (re_omega env)) xs"

lemma clocks_chain_earlier: "clocks_chain t xs \<Longrightarrow> t' \<le> t \<Longrightarrow> clocks_chain t' xs"
  by (cases "(t, xs)" rule: clocks_chain.cases) (auto simp: clocks_from_def)

lemma arrive_env: "arrive L rt (req, env, report) = Suspended rt' w \<Longrightarrow> ws_env w = env"
  by (auto simp: arrive_def arrive_body_def Let_def split: if_splits sum.splits prod.splits)

lemma steps_append: "server_steps L s es s' \<Longrightarrow> server_steps L s' es' s'' \<Longrightarrow> server_steps L s (es @ es') s''"
  by (induction rule: server_steps.induct) (auto intro: server_steps.more)

lemma serve_steps:
  assumes idle: "sv_waiting s = []" and clk: "clocks_from (sv_now s) env" "oe_now_check (re_omega env) \<le> oe_now_fail (re_omega env)"
    and out: "out = serve L (sv_runtime s) (req, env, report)"
  shows "\<exists>es s'. server_steps L s es s' \<and> arrivals es = [(req, env, report)] \<and> sv_waiting s' = [] \<and>
    sv_runtime s' = out_runtime out \<and> sv_results s' = sv_results s @ [out_result out] \<and>
    sv_audit s' = sv_audit s @ out_audit out \<and> sv_now s' \<le> oe_now_fail (re_omega env)"
proof (cases "arrive L (sv_runtime s) (req, env, report)")
  case (Settled out')
  then have o: "out' = out" using arrive_resume [of L "sv_runtime s" "(req, env, report)"] out by simp
  show ?thesis
  proof (intro exI conjI)
    show "server_steps L s [Arrival (req, env, report)] (send_reply out (oe_now_check (re_omega env)) s)"
      using server_step.replied [OF Settled clk(1)] o by (auto simp: server_steps_simps)
  qed (use idle clk(2) in \<open>simp_all add: send_reply_def\<close>)
next
  case (Suspended rt w)
  have env: "ws_env w = env" by (rule arrive_env [OF Suspended])
  have o: "resume L rt w (oe_now_fail (re_omega env)) (oe_net (re_omega env)) = out"
    using arrive_resume [of L "sv_runtime s" "(req, env, report)"] out by (simp add: Suspended resume_now_def env)
  let ?s = "s\<lparr>sv_runtime := rt, sv_now := oe_now_check (re_omega env), sv_waiting := [w]\<rparr>"
  have "server_step L s (Arrival (req, env, report)) ?s" using server_step.waits [OF Suspended clk(1)] idle by simp
  moreover have "server_step L ?s (Completion 0 (oe_now_fail (re_omega env)) (oe_net (re_omega env)))
      (send_reply out (oe_now_fail (re_omega env)) (?s\<lparr>sv_waiting := []\<rparr>))"
    using server_step.completes [of 0 ?s "oe_now_fail (re_omega env)" L "oe_net (re_omega env)"] clk(2) o
    by (simp add: remove_nth_def)
  ultimately have "server_steps L s
      [Arrival (req, env, report), Completion 0 (oe_now_fail (re_omega env)) (oe_net (re_omega env))]
      (send_reply out (oe_now_fail (re_omega env)) (?s\<lparr>sv_waiting := []\<rparr>))"
    by (meson server_steps.intros)
  then show ?thesis by (intro exI conjI, assumption) (simp_all add: send_reply_def)
qed

lemma arrivals_append [simp]: "arrivals (xs @ ys) = arrivals xs @ arrivals ys"
  by (induction xs rule: arrivals.induct) simp_all

lemma serve_all_steps:
  "sv_waiting s = [] \<Longrightarrow> clocks_chain (sv_now s) xs \<Longrightarrow>
   \<exists>es s'. server_steps L s es s' \<and> arrivals es = xs \<and> sv_waiting s' = [] \<and>
     sv_runtime s' = serve_all L (sv_runtime s) xs \<and>
     sv_results s' = sv_results s @ map out_result (outcomes L (sv_runtime s) xs) \<and>
     sv_audit s' = sv_audit s @ concat (map out_audit (outcomes L (sv_runtime s) xs))"
proof (induction xs arbitrary: s)
  case Nil
  then show ?case by (intro exI [of _ "[]"] exI [of _ s]) (simp add: server_steps.none)
next
  case (Cons x xs)
  obtain req env report where x: "x = (req, env, report)" by (cases x)
  let ?out = "serve L (sv_runtime s) (req, env, report)"
  obtain es s1 where s1: "server_steps L s es s1" "arrivals es = [(req, env, report)]" "sv_waiting s1 = []"
    "sv_runtime s1 = out_runtime ?out" "sv_results s1 = sv_results s @ [out_result ?out]"
    "sv_audit s1 = sv_audit s @ out_audit ?out" "sv_now s1 \<le> oe_now_fail (re_omega env)"
    using serve_steps [OF Cons.prems(1) _ _ refl, of env L req report] Cons.prems(2) by (auto simp: x)
  have "clocks_chain (sv_now s1) xs" using Cons.prems(2) s1(7) by (auto simp: x intro: clocks_chain_earlier)
  from Cons.IH [OF s1(3) this] obtain es' s2 where s2: "server_steps L s1 es' s2" "arrivals es' = xs" "sv_waiting s2 = []"
    "sv_runtime s2 = serve_all L (sv_runtime s1) xs"
    "sv_results s2 = sv_results s1 @ map out_result (outcomes L (sv_runtime s1) xs)"
    "sv_audit s2 = sv_audit s1 @ concat (map out_audit (outcomes L (sv_runtime s1) xs))" by blast
  show ?case
  proof (intro exI conjI)
    show "server_steps L s (es @ es') s2" by (rule steps_append [OF s1(1) s2(1)])
  qed (use s1 s2 in \<open>simp_all add: x\<close>)
qed

end
