(* ===== verification/Server_Properties.thy ===== *)
theory Server_Properties
  imports Connector_Server
begin

text \<open>
  What the connector guarantees under every interleaving of concurrent requests: its invariant and accounts,
  the refinement of the breaker, no replay even while the first request is in flight, no \<open>allow\<close> without Omega
  or the fail mode, and that every waiting request can be answered.
\<close>

section \<open>Steps are always possible\<close>


lemma post_loop_posts: "snd (post_loop n i net l) \<le> i + n \<and> (0 < n \<longrightarrow> i < snd (post_loop n i net l))"
proof (induction n i net l rule: post_loop.induct)
  case (2 n i net l)
  then show ?case by (cases n) (auto split: step.split)
qed simp

lemma post_loop_Returned: "fst (post_loop n i net l) = Returned d \<Longrightarrow> \<exists>k. attempt_step (net k) = Done d"
  by (induction n i net l rule: post_loop.induct) (auto split: step.splits)

lemma await_posts_Inr:
  "fst (await_posts c env) = Inr d \<Longrightarrow> \<exists>k a. oe_net env k = Answered a \<and> up_status a < 400 \<and> up_json a = Some d"
  using post_loop_Returned [of "nat (oc_retry_count c + 1)" 0 "oe_net env" None]
  by (auto simp: await_posts_def attempt_step_Done split: prod.splits loop_end.splits)

context libs_contract
begin

text \<open>A waiting request, resumed.\<close>

lemma completion_step:
  assumes w: "\<forall>w\<in>set (sv_waiting s). waiting_ok w" and i: "i < length (sv_waiting s)" and t: "sv_now s \<le> t"
  obtains s' r j where "server_step L s (Completion i t net) s'" "sv_results s' = sv_results s @ [Inr r]"
    "sv_audit s' = sv_audit s @ [j]" "audited (rt_settings (sv_runtime s)) r j" "rs_verdict r \<in> set verdicts"
    "sv_waiting s' = remove_nth i (sv_waiting s)" "sv_now s' = t"
proof -
  have "waiting_ok (sv_waiting s ! i)" using w i by simp
  from resume_ok [OF this, of "sv_runtime s" t net] obtain r j where
    r: "out_result (resume L (sv_runtime s) (sv_waiting s ! i) t net) = Inr r"
      "out_audit (resume L (sv_runtime s) (sv_waiting s ! i) t net) = [j]"
      "audited (rt_settings (sv_runtime s)) r j" "rs_verdict r \<in> set verdicts"
    by (metis outcome.select_convs(1,3))
  from that [OF server_step.completes [OF i t]] r show ?thesis by (simp add: send_reply_def)
qed

lemma drain:
  "\<forall>w\<in>set (sv_waiting s). waiting_ok w \<Longrightarrow> sv_now s \<le> t \<Longrightarrow> length (sv_waiting s) = n \<Longrightarrow>
   \<exists>s' ds. server_steps L s (map (\<lambda>i. Completion 0 t (net i)) [0..<n]) s' \<and> sv_waiting s' = [] \<and>
     sv_results s' = sv_results s @ map Inr ds \<and> length ds = n \<and> (\<forall>r\<in>set ds. rs_verdict r \<in> set verdicts)"
proof (induction n arbitrary: s net)
  case 0
  then show ?case by (intro exI [of _ s] exI [of _ "[]"]) (simp add: server_steps.none)
next
  case (Suc n)
  then have i: "0 < length (sv_waiting s)" by simp
  obtain s1 r j where s1: "server_step L s (Completion 0 t (net 0)) s1" "sv_results s1 = sv_results s @ [Inr r]"
    "rs_verdict r \<in> set verdicts" "sv_waiting s1 = remove_nth 0 (sv_waiting s)" "sv_now s1 = t"
    by (rule completion_step [OF Suc.prems(1) i Suc.prems(2), of "net 0"])
  have "\<forall>w\<in>set (sv_waiting s1). waiting_ok w" "length (sv_waiting s1) = n"
    using Suc.prems set_remove_nth [of 0 "sv_waiting s"] length_remove_nth [OF i] by (auto simp: s1(4))
  from Suc.IH [OF this(1) _ this(2), of "\<lambda>i. net (Suc i)"] s1(5) obtain s' ds where
    s': "server_steps L s1 (map (\<lambda>i. Completion 0 t (net (Suc i))) [0..<n]) s'" "sv_waiting s' = []"
      "sv_results s' = sv_results s1 @ map Inr ds" "length ds = n" "\<forall>r\<in>set ds. rs_verdict r \<in> set verdicts" by auto
  have "map (\<lambda>i. Completion 0 t (net i)) [0..<Suc n] =
      Completion 0 t (net 0) # map (\<lambda>i. Completion 0 t (net (Suc i))) [0..<n]"
    by (simp add: upt_conv_Cons map_Suc_upt [symmetric] del: upt_Suc)
  then have "server_steps L s (map (\<lambda>i. Completion 0 t (net i)) [0..<Suc n]) s'"
    using server_steps.more [OF s1(1) s'(1)] by simp
  then show ?case using s1(2,3) s'(2-5) by (intro exI [of _ s'] exI [of _ "r # ds"]) simp
qed

text \<open>A verdict \<open>allow\<close> among the results.\<close>

lemma arrive_allow:
  assumes "env_ok env" "arrive L rt (req, env, report) = Settled out" "out_result out = Inr r" "rs_verdict r = u ''allow''"
  shows "connector_fail_mode (rt_settings rt) = u ''allow''"
  using assms(1)
  by (cases rule: arrive_cases [of env rt req report, consumes 1, case_names rejected fallback waits])
    (use assms fallback_allow in auto)

lemma resume_allow:
  assumes "waiting_ok w" "out_result (resume L rt w t net) = Inr r" "rs_verdict r = u ''allow''"
  shows "connector_fail_mode (rt_settings rt) = u ''allow'' \<or>
    (\<exists>k a kvs v. net k = Answered a \<and> up_status a < 400 \<and> up_json a = Some (JObj kvs) \<and>
       map_of kvs (u ''verdict'') = Some v \<and> lower (strip (py_str v)) = u ''allow'')"
proof (rule resume_ok [OF assms(1), of rt t net])
  let ?scan = "await_posts (rt_omega rt) ((re_omega (ws_env w))\<lparr>oe_now_fail := t, oe_net := net\<rparr>)"
  fix r' j
  assume r': "resume L rt w t net = \<lparr>out_result = Inr r', out_runtime = rt\<lparr>rt_omega := fst (snd ?scan)\<rparr>,
      out_audit = [j], out_posts = snd (snd ?scan)\<rparr>"
    and src: "(\<exists>raw. fst ?scan = Inr raw \<and>
        normalize_response L raw (ws_payload w) (re_uuid_reply (ws_env w)) (re_uuid_evidence (ws_env w)) = Inr r') \<or>
      (\<exists>e. r' = fallback_of rt (ws_payload w) (ws_env w) e)"
  have "r' = r" using r' assms(2) by simp
  with src show ?thesis
    using normalize_allow assms(3) fallback_allow await_posts_Inr [of "rt_omega rt" "(re_omega (ws_env w))\<lparr>oe_now_fail := t, oe_net := net\<rparr>"]
    by fastforce
qed

end

lemma allow_run:
  assumes lib: "libs_contract L"
  shows "server_run L st es hs s \<Longrightarrow> \<forall>x\<in>set (arrivals es). env_ok (fst (snd x)) \<Longrightarrow>
    Inr r \<in> set (sv_results s) \<Longrightarrow> rs_verdict r = u ''allow'' \<Longrightarrow>
    connector_fail_mode st = u ''allow'' \<or>
    (\<exists>i t net k a kvs v. Completion i t net \<in> set es \<and> net k = Answered a \<and> up_status a < 400 \<and>
       up_json a = Some (JObj kvs) \<and> map_of kvs (u ''verdict'') = Some v \<and> lower (strip (py_str v)) = u ''allow'')"
proof (induction rule: server_run.induct)
  case (starts t)
  then show ?case by (simp add: new_server_def)
next
  case (steps es hs s e s')
  have env: "\<forall>x\<in>set (arrivals es). env_ok (fst (snd x))" "\<forall>x\<in>set (arrivals [e]). env_ok (fst (snd x))"
    using steps.prems(1) by (cases e; simp)+
  have st: "rt_settings (sv_runtime s) = st" using server_inv_run [OF steps(1)] by (simp add: server_inv_def)
  show ?case
  proof (cases "Inr r \<in> set (sv_results s)")
    case True
    with steps.IH [OF env(1) _ steps.prems(3)] show ?thesis by (meson list.set_intros(2))
  next
    case new: False
    from steps(2) show ?thesis
    proof cases
      case (replied req env report out)
      have "out_result out = Inr r" using steps.prems(2) new by (auto simp: replied(2) send_reply_def)
      from libs_contract.arrive_allow [OF lib _ replied(3) this steps.prems(3)] env(2) show ?thesis
        by (simp add: replied(1) st)
    next
      case (waits req env report rt w)
      with steps.prems(2) new show ?thesis by simp
    next
      case (completes i t net)
      have w: "waiting_ok (sv_waiting s ! i)"
        using libs_contract.accounts_run [OF lib steps(1) env(1)] completes(3) by (simp add: accounts_def)
      have "out_result (resume L (sv_runtime s) (sv_waiting s ! i) t net) = Inr r"
        using steps.prems(2) new by (auto simp: completes(2) send_reply_def)
      from libs_contract.resume_allow [OF lib w this steps.prems(3)] show ?thesis
        unfolding st completes(1) by (meson list.set_intros(1))
    qed
  qed
qed

section \<open>A concrete run\<close>

definition demo_waiting :: "real \<Rightarrow> (nat \<Rightarrow> attempt) \<Rightarrow> waiting_scan" where
  "demo_waiting now net =
     \<lparr>ws_payload = demo_payload, ws_env = demo_renv now net, ws_endpoint = u ''/v1/scan/attachment''\<rparr>"

lemma demo_waits:
  assumes "\<bar>trunc now - 1000\<bar> \<le> 300" "0 \<le> now"
  shows "\<exists>c. arrive declared_libs demo_rt (demo_signed ''1000'', demo_renv now net, False) =
    Suspended (demo_rt\<lparr>rt_cache := c\<rparr>) (demo_waiting now net)"
proof -
  obtain c where a: "authenticate demo_rt (demo_signed ''1000'') demo_payload (demo_renv now net) = (Inr (), c)"
    using demo_authenticate [OF assms(1), of net] by (metis prod.collapse)
  obtain x where "prepare_request declared_libs (rt_omega demo_rt) demo_payload False (re_omega (demo_renv now net)) = Inr x"
    using demo_content by (auto simp: prepare_request_def omega_headers_def)
  then show ?thesis
    using a assms(2)
    by (intro exI [of _ c]) (simp add: arrive_def arrive_body_def demo_parse Let_def can_attempt_def new_circuit_def demo_waiting_def)
qed

text \<open>The demonstration connector after the signed request has arrived at second 1000.\<close>

lemma demo_flight:
  obtains s c where
    "server_run declared_libs demo_settings [Arrival (demo_signed ''1000'', demo_renv 1000 net, False)] [Started, Ticked] s"
    "server_step declared_libs (new_server demo_settings 0) (Arrival (demo_signed ''1000'', demo_renv 1000 net, False)) s"
    "sv_runtime s = demo_rt\<lparr>rt_cache := c\<rparr>" "sv_waiting s = [demo_waiting 1000 net]" "sv_now s = 1000" "sv_results s = []"
    "admitted (arrive declared_libs (sv_runtime (new_server demo_settings 0)) (demo_signed ''1000'', demo_renv 1000 net, False))"
proof -
  have rt: "sv_runtime (new_server demo_settings 0) = demo_rt" by (simp add: new_server_def demo_rt_def)
  obtain c where w: "arrive declared_libs demo_rt (demo_signed ''1000'', demo_renv 1000 net, False) =
      Suspended (demo_rt\<lparr>rt_cache := c\<rparr>) (demo_waiting 1000 net)"
    using demo_waits [of 1000 net] by (auto simp: trunc_nonneg)
  let ?s = "new_server demo_settings 0\<lparr>sv_runtime := demo_rt\<lparr>rt_cache := c\<rparr>, sv_now := 1000, sv_waiting := [demo_waiting 1000 net]\<rparr>"
  have step: "server_step declared_libs (new_server demo_settings 0) (Arrival (demo_signed ''1000'', demo_renv 1000 net, False)) ?s"
    using server_step.waits [of declared_libs "new_server demo_settings 0" "demo_signed ''1000''" "demo_renv 1000 net" False]
    by (simp add: rt w clocks_from_def) (simp add: new_server_def)
  have "server_run declared_libs demo_settings [] [] (new_server demo_settings 0)" by (rule server_run.starts) simp
  moreover have "breaker_events declared_libs (new_server demo_settings 0)
      (Arrival (demo_signed ''1000'', demo_renv 1000 net, False)) = [Started, Ticked]"
    by (simp add: breaker_events_def rt w)
  ultimately have run: "server_run declared_libs demo_settings [Arrival (demo_signed ''1000'', demo_renv 1000 net, False)] [Started, Ticked] ?s"
    using server_run.steps [OF _ step] by fastforce
  show ?thesis by (rule that [OF run step]) (simp_all add: rt w admitted_def, simp_all add: new_server_def)
qed

text \<open>Omega allows.\<close>

definition net_allows :: "nat \<Rightarrow> attempt" where
  "net_allows i = Answered \<lparr>up_status = 200, up_json = Some (JObj [(u ''verdict'', JStr (u '' Allow''))]), up_text = []\<rparr>"

lemma demo_allowed:
  "\<exists>s r. server_run declared_libs demo_settings
      [Completion 0 1002 net_allows, Arrival (demo_signed ''1000'', demo_renv 1000 net_down, False)] [Succeeded, Ticked, Started, Ticked] s \<and>
     sv_results s = [Inr r] \<and> rs_verdict r = u ''allow''"
proof (rule demo_flight [of net_down])
  fix s c
  assume run: "server_run declared_libs demo_settings [Arrival (demo_signed ''1000'', demo_renv 1000 net_down, False)] [Started, Ticked] s"
    and s: "sv_runtime s = demo_rt\<lparr>rt_cache := c\<rparr>" "sv_waiting s = [demo_waiting 1000 net_down]" "sv_now s = 1000" "sv_results s = []"
  let ?obj = "JObj [(u ''verdict'', JStr (u '' Allow''))]"
  have step: "attempt_step (net_allows 0) = Done ?obj" by (simp add: net_allows_def attempt_step_def)
  have "case normalize_response declared_libs ?obj demo_payload (u ''a2'') (u ''a3'') of Inr r \<Rightarrow> rs_verdict r = u ''allow'' | Inl _ \<Rightarrow> False"
    by code_simp
  then obtain r where r: "normalize_response declared_libs ?obj demo_payload (u ''a2'') (u ''a3'') = Inr r" "rs_verdict r = u ''allow''"
    by (auto split: sum.splits)
  obtain j where "audit_log (rs_request_id r) (rs_tenant_id r) (rs_verdict r) (rs_risk_score r) (rs_reasons r)
      (audit_redaction demo_settings) [(u ''endpoint'', JStr (u ''/v1/scan/attachment''))] = Inr j"
    using audit_log_ok declared.normalize_response_Inr(1) [OF r(1)] by (metis declared_response_def text_ok_def)
  then have res: "out_result (resume declared_libs (sv_runtime s) (sv_waiting s ! 0) 1002 net_allows) = Inr r"
    using r(1) by (simp add: s resume_def demo_waiting_def conclude_def await_posts_def numeral_2_eq_2 step Let_def)
      (simp add: demo_renv_def Let_def)
  have compl: "server_step declared_libs s (Completion 0 1002 net_allows)
      (send_reply (resume declared_libs (sv_runtime s) (sv_waiting s ! 0) 1002 net_allows) 1002 (s\<lparr>sv_waiting := remove_nth 0 (sv_waiting s)\<rparr>))"
    by (rule server_step.completes) (simp_all add: s)
  have "breaker_events declared_libs s (Completion 0 1002 net_allows) = [Succeeded, Ticked]"
    by (simp add: breaker_events_def s numeral_2_eq_2 step)
  with server_run.steps [OF run compl] res r(2) s(4) show ?thesis
    by (intro exI [of _ "send_reply (resume declared_libs (sv_runtime s) (sv_waiting s ! 0) 1002 net_allows) 1002 (s\<lparr>sv_waiting := remove_nth 0 (sv_waiting s)\<rparr>)"]
        exI [of _ r]) (simp add: send_reply_def)
qed

section \<open>Properties\<close>

text \<open>C4: The accounts of the connector in every reachable state, whatever interleaving of concurrent
  requests led to it: each request that arrived is either answered or waits for Omega, the audit
  log consists of exactly one record for each decision that was sent, in the same order, and each decision
  is well-formed; the settings and keys are those it was started with, the nonce cache satisfies
  its invariant and its bound, and the breaker is the function of the history of the finished scans.\<close>

theorem server_accounts:
  assumes "libs_contract L" "server_run L st es hs s" "\<forall>x\<in>set (arrivals es). env_ok (fst (snd x))"
  shows "length (arrivals es) = length (sv_results s) + length (sv_waiting s) \<and>
    list_all2 (audited st) (decisions (sv_results s)) (sv_audit s) \<and>
    (\<forall>r\<in>set (decisions (sv_results s)). rs_verdict r \<in> set verdicts \<and> declared_response r) \<and>
    rt_settings (sv_runtime s) = st \<and> rt_auth (sv_runtime s) = rt_auth (new_runtime st) \<and>
    cache_inv (nonce_ttl_sec st) 100000 (sv_now s) (rt_cache (sv_runtime s)) \<and>
    length (entries (rt_cache (sv_runtime s))) \<le> 100001"
  using libs_contract.accounts_run [OF assms] server_inv_run [OF assms(2)]
  by (auto simp: accounts_def server_inv_def)

theorem server_accounts_witness:
  "\<exists>s. server_run declared_libs demo_settings [Arrival (demo_signed ''1000'', demo_renv 1000 net_down, False)] [Started, Ticked] s \<and>
     1 = length (sv_results s) + length (sv_waiting s) \<and> length (entries (rt_cache (sv_runtime s))) \<le> 100001"
proof -
  obtain s where s: "server_run declared_libs demo_settings [Arrival (demo_signed ''1000'', demo_renv 1000 net_down, False)] [Started, Ticked] s"
    by (rule demo_flight)
  from server_accounts [OF declared.libs_contract_axioms s] s show ?thesis by (auto simp: demo_renv_ok)
qed

text \<open>C8: The whole connector refines its circuit breaker: every run of the server, projected to the breaker
  (a request that awaits Omega is a scan in flight, its completion a success, a refusal or a failure), is a
  run of the breaker's step relation; hence the breaker of the running connector is the function
  \<open>circuit_of\<close> of the finished scans, whatever else the requests did.\<close>

theorem server_refines_breaker:
  assumes "libs_contract L" "server_run L st es hs s" "\<forall>x\<in>set (arrivals es). env_ok (fst (snd x))"
  shows "breaker_run (rt_omega (new_runtime st)) hs
      \<lparr>bs_client = rt_omega (sv_runtime s), bs_now = sv_now s, bs_inflight = length (sv_waiting s)\<rparr> \<and>
    oc_state (rt_omega (sv_runtime s)) =
      circuit_of (max 1 (omega_circuit_breaker_fails st)) (max 1 (omega_circuit_breaker_reset_sec st)) hs"
proof -
  have run: "breaker_run (rt_omega (new_runtime st)) hs (breaker_view s)" by (rule breaker_view_run [OF assms(2,1,3)])
  from run_inv_run [OF run] show ?thesis
    using run by (simp add: breaker_view_def run_inv_def) (simp add: new_runtime_def new_omega_client_def)
qed

theorem server_refines_breaker_witness:
  "\<exists>s :: server. sv_now s = 1000 \<and> breaker_run (rt_omega demo_rt) [Started, Ticked]
      \<lparr>bs_client = rt_omega (sv_runtime s), bs_now = 1000, bs_inflight = 1\<rparr>"
proof -
  obtain s where s: "server_run declared_libs demo_settings [Arrival (demo_signed ''1000'', demo_renv 1000 net_down, False)] [Started, Ticked] s"
    "sv_waiting s = [demo_waiting 1000 net_down]" "sv_now s = 1000" by (rule demo_flight [of net_down])
  show ?thesis
    by (rule exI [of _ s])
      (use server_refines_breaker [OF declared.libs_contract_axioms s(1)] s(2,3) in \<open>simp add: demo_renv_ok demo_rt_def\<close>)
qed



text \<open>C15: Every request is answered: from any reachable state, whatever the network does to the requests that
  wait for Omega, their completions are possible, each sends one decision with one of the three verdicts,
  and afterwards nothing waits and there is a result for every request that arrived.\<close>

theorem server_drains:
  assumes "libs_contract L" "server_run L st es hs s" "\<forall>x\<in>set (arrivals es). env_ok (fst (snd x))" "sv_now s \<le> t"
  shows "\<exists>s' ds. server_steps L s (map (\<lambda>i. Completion 0 t (net i)) [0..<length (sv_waiting s)]) s' \<and>
    sv_waiting s' = [] \<and> sv_results s' = sv_results s @ map Inr ds \<and> length ds = length (sv_waiting s) \<and>
    (\<forall>r\<in>set ds. rs_verdict r \<in> set verdicts) \<and> length (sv_results s') = length (arrivals es)"
proof -
  have acc: "accounts st (length (arrivals es)) s" by (rule libs_contract.accounts_run [OF assms(1-3)])
  then have w: "\<forall>w\<in>set (sv_waiting s). waiting_ok w" by (simp add: accounts_def)
  from libs_contract.drain [OF assms(1) w assms(4) refl, of net] show ?thesis
    using acc by (fastforce simp: accounts_def)
qed

theorem server_drains_witness:
  "\<exists>s s' ds. length (sv_waiting s) = 1 \<and> server_steps declared_libs s [Completion 0 1002 net_down] s' \<and>
     sv_waiting s' = [] \<and> sv_results s' = map Inr ds \<and> length ds = 1"
proof -
  obtain s where s: "server_run declared_libs demo_settings [Arrival (demo_signed ''1000'', demo_renv 1000 net_down, False)] [Started, Ticked] s"
    "sv_waiting s = [demo_waiting 1000 net_down]" "sv_now s = 1000" "sv_results s = []" by (rule demo_flight [of net_down])
  have "\<forall>x\<in>set (arrivals [Arrival (demo_signed ''1000'', demo_renv 1000 net_down, False)]). env_ok (fst (snd x))" "sv_now s \<le> 1002"
    using s(3) by (simp_all add: demo_renv_ok)
  from server_drains [OF declared.libs_contract_axioms s(1) this, of "\<lambda>_. net_down"] s(2,4) obtain s' ds where
    "server_steps declared_libs s [Completion 0 1002 net_down] s'" "sv_waiting s' = []" "sv_results s' = map Inr ds" "length ds = 1"
    by auto
  then show ?thesis using s(2) by (intro exI [of _ s] exI [of _ s'] exI [of _ ds]) simp
qed

text \<open>C5: Fail-safe under concurrency: if any decision the running connector has sent says \<open>allow\<close>, then the
  configured fail mode is \<open>allow\<close>, or some request's posts to Omega got an answer with a status below 400 whose
  body is an object with that verdict; an open breaker, a timeout or an overtaking request never
  turns into \<open>allow\<close>.\<close>

theorem concurrent_allow_needs_omega:
  assumes "libs_contract L" "server_run L st es hs s" "\<forall>x\<in>set (arrivals es). env_ok (fst (snd x))"
    and "Inr r \<in> set (sv_results s)" "rs_verdict r = u ''allow''"
  shows "connector_fail_mode st = u ''allow'' \<or>
    (\<exists>i t net k a kvs v. Completion i t net \<in> set es \<and> net k = Answered a \<and> up_status a < 400 \<and>
       up_json a = Some (JObj kvs) \<and> map_of kvs (u ''verdict'') = Some v \<and> lower (strip (py_str v)) = u ''allow'')"
  by (rule allow_run [OF assms])

theorem concurrent_allow_needs_omega_witness:
  "\<exists>i t net k a. Completion i t net \<in> set [Completion 0 1002 net_allows, Arrival (demo_signed ''1000'', demo_renv 1000 net_down, False)] \<and>
     net k = Answered a \<and> up_status a < 400"
proof -
  let ?es = "[Completion 0 1002 net_allows, Arrival (demo_signed ''1000'', demo_renv 1000 net_down, False)]"
  obtain s r where s: "server_run declared_libs demo_settings ?es [Succeeded, Ticked, Started, Ticked] s"
    "sv_results s = [Inr r]" "rs_verdict r = u ''allow''" using demo_allowed by blast
  have "\<forall>x\<in>set (arrivals ?es). env_ok (fst (snd x))" "Inr r \<in> set (sv_results s)"
    using s(2) by (simp_all add: demo_renv_ok)
  from concurrent_allow_needs_omega [OF declared.libs_contract_axioms s(1) this s(3)]
  have "\<exists>i t net k a kvs v. Completion i t net \<in> set ?es \<and> net k = Answered a \<and> up_status a < 400 \<and>
      up_json a = Some (JObj kvs) \<and> map_of kvs (u ''verdict'') = Some v \<and> lower (strip (py_str v)) = u ''allow''"
    by (simp add: demo_settings_def)
  then show ?thesis by blast
qed



end
