(* ===== verification/Startup.thy ===== *)
theory Startup
  imports Server_Properties
begin

text \<open>
  Starting the connector: \<open>lifespan\<close> of \<open>connector/app.py\<close>, which loads the settings, configures logging and makes
  the runtime from which the server runs.
\<close>

section \<open>Logging level\<close>

text \<open>\<open>str.upper\<close> as far as its result can be ASCII: the ASCII letters, the sharp s, the dotless i, the long s and the
  Latin ligatures.  Every other character stays outside ASCII.\<close>

definition upper_cp :: "int \<Rightarrow> pystr" where
  "upper_cp c =
     (if 97 \<le> c \<and> c \<le> 122 then [c - 32]
      else case map_of [(223, u ''SS''), (305, u ''I''), (383, u ''S''), (64256, u ''FF''), (64257, u ''FI''),
             (64258, u ''FL''), (64259, u ''FFI''), (64260, u ''FFL''), (64261, u ''ST''), (64262, u ''ST'')] c of
             Some s \<Rightarrow> s | None \<Rightarrow> [c])"

definition upper_name :: "pystr \<Rightarrow> pystr" where
  "upper_name s = concat (map upper_cp s)"

text \<open>The attributes of the module \<open>logging\<close> with an upper-case name: eight levels, a text and a dict.\<close>

definition log_levels :: "(pystr \<times> int) list" where
  "log_levels =
     [(u ''CRITICAL'', 50), (u ''FATAL'', 50), (u ''ERROR'', 40), (u ''WARNING'', 30), (u ''WARN'', 30), (u ''INFO'', 20),
      (u ''DEBUG'', 10), (u ''NOTSET'', 0)]"

datatype logging_attr = LevelNumber int | LevelText | LevelDict

definition get_logging_attr :: "pystr \<Rightarrow> logging_attr" where
  "get_logging_attr name =
     (if name = u ''BASIC_FORMAT'' then LevelText
      else if name = u ''_STYLES'' then LevelDict
      else (case map_of log_levels name of Some n \<Rightarrow> LevelNumber n | None \<Rightarrow> LevelNumber 20))"

text \<open>\<open>logging.basicConfig\<close> sets the level only if the root logger has no handlers yet; a level must be a number or
  the name of a level.\<close>

definition basic_config :: "bool \<Rightarrow> logging_attr \<Rightarrow> exn + int option" where
  "basic_config has_handlers level =
     (if has_handlers then Inr None
      else (case level of LevelNumber n \<Rightarrow> Inr (Some n) | LevelText \<Rightarrow> Inl ValueError | LevelDict \<Rightarrow> Inl TypeError))"

text \<open>The level that was set, if any, and the runtime.\<close>

definition lifespan :: "environ \<Rightarrow> bool \<Rightarrow> exn + (int option \<times> connector_runtime)" where
  "lifespan env has_handlers =
     bindE (load_settings env) (\<lambda>settings.
     bindE (basic_config has_handlers (get_logging_attr (upper_name (log_level settings)))) (\<lambda>level.
     Inr (level, new_runtime settings)))"

section \<open>Facts\<close>

lemma load_settings_log_level: "load_settings env = Inr s \<Longrightarrow> log_level s = getenv_or env ''LOG_LEVEL'' (u ''INFO'')"
  by (auto simp: load_settings_def exn_simps)

lemma get_logging_attr_cases:
  "get_logging_attr name = LevelText \<longleftrightarrow> name = u ''BASIC_FORMAT''"
  "get_logging_attr name = LevelDict \<longleftrightarrow> name = u ''_STYLES''"
proof -
  have "u ''_STYLES'' \<noteq> u ''BASIC_FORMAT''" by code_simp
  then show "get_logging_attr name = LevelText \<longleftrightarrow> name = u ''BASIC_FORMAT''"
    "get_logging_attr name = LevelDict \<longleftrightarrow> name = u ''_STYLES''"
    by (auto simp: get_logging_attr_def split: option.splits)
qed

lemma basic_config_Inr:
  "(\<exists>l. basic_config h a = Inr l) \<longleftrightarrow> h \<or> (a \<noteq> LevelText \<and> a \<noteq> LevelDict)"
  by (auto simp: basic_config_def split: logging_attr.splits)

lemma int_vars_parse:
  "(\<exists>s. load_settings env = Inr s) \<longleftrightarrow>
     list_all (\<lambda>(v, d). case env v of None \<Rightarrow> True | Some raw \<Rightarrow> strip raw = [] \<or> py_int_str raw \<noteq> None) int_vars"
proof -
  have "as_int val d = Inl ValueError \<longleftrightarrow>
      \<not> (case val of None \<Rightarrow> True | Some raw \<Rightarrow> strip raw = [] \<or> py_int_str raw \<noteq> None)" for val d
    by (auto simp: as_int_def split: option.splits)
  then have "load_settings env = Inl ValueError \<longleftrightarrow>
      \<not> list_all (\<lambda>(v, d). case env v of None \<Rightarrow> True | Some raw \<Rightarrow> strip raw = [] \<or> py_int_str raw \<noteq> None) int_vars"
    by (auto simp: load_settings_error list_all_iff split: prod.splits)
  moreover have "load_settings env = Inl ValueError \<longleftrightarrow> (\<nexists>s. load_settings env = Inr s)"
    using load_settings_Inl(1) by (cases "load_settings env") auto
  ultimately show ?thesis by blast
qed

text \<open>The demonstration environment starts; a log level in lower case is found, a wrong one is not fatal, and one that
  names the format text is.\<close>

lemma demo_startup:
  "lifespan demo_vars False = Inr (Some 20, demo_rt)"
  "\<exists>rt. lifespan (demo_vars(''LOG_LEVEL'' \<mapsto> u ''debug'')) False = Inr (Some 10, rt)"
  "\<exists>rt. lifespan (demo_vars(''LOG_LEVEL'' \<mapsto> u ''verbose'')) False = Inr (Some 20, rt)"
  "lifespan (demo_vars(''LOG_LEVEL'' \<mapsto> u ''basic_format'')) False = Inl ValueError"
proof -
  have l: "\<exists>s. load_settings (demo_vars(''LOG_LEVEL'' \<mapsto> x)) = Inr s \<and> log_level s = x" for x
  proof -
    have "\<exists>s. load_settings demo_vars = Inr s" using demo_load by blast
    moreover have "(demo_vars(''LOG_LEVEL'' \<mapsto> x)) v = demo_vars v" if "(v, d) \<in> set int_vars" for v d
      using that by (auto simp: int_vars_def)
    ultimately have "\<exists>s. load_settings (demo_vars(''LOG_LEVEL'' \<mapsto> x)) = Inr s"
      unfolding int_vars_parse list_all_iff by fastforce
    then show ?thesis using load_settings_log_level by (auto simp: getenv_or_def)
  qed
  have a: "get_logging_attr (upper_name (u ''INFO'')) = LevelNumber 20" "get_logging_attr (upper_name (u ''debug'')) = LevelNumber 10"
    "get_logging_attr (upper_name (u ''verbose'')) = LevelNumber 20" "get_logging_attr (upper_name (u ''basic_format'')) = LevelText"
    by code_simp+
  show "lifespan demo_vars False = Inr (Some 20, demo_rt)"
    by (simp add: lifespan_def demo_load) (simp add: demo_settings_def a basic_config_def demo_rt_def)
  show "\<exists>rt. lifespan (demo_vars(''LOG_LEVEL'' \<mapsto> u ''debug'')) False = Inr (Some 10, rt)"
    "\<exists>rt. lifespan (demo_vars(''LOG_LEVEL'' \<mapsto> u ''verbose'')) False = Inr (Some 20, rt)"
    "lifespan (demo_vars(''LOG_LEVEL'' \<mapsto> u ''basic_format'')) False = Inl ValueError"
    using l [of "u ''debug''"] l [of "u ''verbose''"] l [of "u ''basic_format''"] a
    by (auto simp: lifespan_def basic_config_def)
qed

section \<open>Property\<close>

text \<open>C26: The connector starts exactly when each of the seven integer variables is unset, blank or an integer, and
  \<open>LOG_LEVEL\<close> is not one of the two names of the module \<open>logging\<close> that are no level (which matters only if no
  handler is installed yet); any unknown level counts as \<open>INFO\<close>.  It then starts with an empty nonce cache, a
  breaker that admits scans at any time, a fail mode that is one of the three verdicts, and stripped,
  non-blank API keys.\<close>

theorem startup_iff:
  "(\<exists>level rt. lifespan env has_handlers = Inr (level, rt)) =
     (list_all (\<lambda>(v, d). case env v of None \<Rightarrow> True | Some raw \<Rightarrow> strip raw = [] \<or> py_int_str raw \<noteq> None) int_vars \<and>
      (has_handlers \<or> upper_name (getenv_or env ''LOG_LEVEL'' (u ''INFO'')) \<notin> {u ''BASIC_FORMAT'', u ''_STYLES''})) \<and>
   (case lifespan env has_handlers of
      Inl e \<Rightarrow> e = ValueError \<or> e = TypeError
    | Inr (level, rt) \<Rightarrow>
        entries (rt_cache rt) = [] \<and> can_attempt 0 (rt_omega rt) \<and>
        connector_fail_mode (rt_settings rt) \<in> set verdicts \<and>
        list_all (\<lambda>k. k \<noteq> [] \<and> strip k = k) (api_keys (rt_auth rt)))"
proof
  show "(\<exists>level rt. lifespan env has_handlers = Inr (level, rt)) =
     (list_all (\<lambda>(v, d). case env v of None \<Rightarrow> True | Some raw \<Rightarrow> strip raw = [] \<or> py_int_str raw \<noteq> None) int_vars \<and>
      (has_handlers \<or> upper_name (getenv_or env ''LOG_LEVEL'' (u ''INFO'')) \<notin> {u ''BASIC_FORMAT'', u ''_STYLES''}))"
    unfolding int_vars_parse [symmetric]
    by (cases "load_settings env")
      (auto simp: lifespan_def exn_simps basic_config_Inr get_logging_attr_cases load_settings_log_level)
  show "case lifespan env has_handlers of
      Inl e \<Rightarrow> e = ValueError \<or> e = TypeError
    | Inr (level, rt) \<Rightarrow>
        entries (rt_cache rt) = [] \<and> can_attempt 0 (rt_omega rt) \<and>
        connector_fail_mode (rt_settings rt) \<in> set verdicts \<and>
        list_all (\<lambda>k. k \<noteq> [] \<and> strip k = k) (api_keys (rt_auth rt))"
  proof (cases "lifespan env has_handlers")
    case (Inl e)
    then show ?thesis
      by (auto simp: lifespan_def bindE_eq_Inl basic_config_def dest: load_settings_Inl(1) split: if_splits logging_attr.splits)
  next
    case (Inr x)
    then obtain s level where s: "load_settings env = Inr s" "x = (level, new_runtime s)"
      by (auto simp: lifespan_def exn_simps)
    show ?thesis
      using parse_fail_mode_verdict parse_api_keys_facts
      by (simp add: Inr s(2) new_runtime_def new_cache_def new_omega_client_def can_attempt_def new_circuit_def
          load_settings_fields [OF s(1)] list_all_iff)
  qed
qed

theorem startup_iff_witness:
  "lifespan demo_vars False = Inr (Some 20, demo_rt) \<and> can_attempt 0 (rt_omega demo_rt) \<and>
   connector_fail_mode (rt_settings demo_rt) \<in> set verdicts \<and>
   upper_name (getenv_or demo_vars ''LOG_LEVEL'' (u ''INFO'')) \<noteq> u ''BASIC_FORMAT''"
  using startup_iff [of demo_vars False] demo_startup(1) by (simp del: demo_rt_facts)

end
