(* ===== verification/Script_Http.thy ===== *)
theory Script_Http
  imports SGraph_Client
begin

text \<open>
  What the scripts under \<open>scripts/\<close> share: a run of a script as a function on the list of the
  requests it has sent, which may raise; the network as a function from that list to the answer
  of its last request (so a server may remember everything it has received); and the HTTP helpers
  \<open>_http_json\<close>, \<open>_http_bytes\<close> and \<open>_post_json\<close> over it.  \<open>bytes.decode("utf-8", errors="replace")\<close>,
  which they apply to error bodies, is modelled in full.
\<close>

section \<open>Decoding with replacement\<close>

text \<open>The length of the longest prefix of \<open>bs\<close> that starts a well-formed sequence: what one U+FFFD
  stands for where strict decoding fails.\<close>

definition second_ok :: "int \<Rightarrow> int \<Rightarrow> bool" where
  "second_ok a b \<longleftrightarrow>
     (if a = 224 then 160 \<le> b \<and> b < 192
      else if a = 237 then 128 \<le> b \<and> b < 160
      else if a = 240 then 144 \<le> b \<and> b < 192
      else if a = 244 then 128 \<le> b \<and> b < 144
      else cont b)"

definition bad_length :: "bytes \<Rightarrow> nat" where
  "bad_length bs =
     (case bs of
        a # b # r \<Rightarrow>
          if 224 \<le> uint a \<and> uint a < 245 \<and> second_ok (uint a) (uint b) then
            (case r of
               c # _ \<Rightarrow> if 240 \<le> uint a \<and> cont (uint c) then 3 else 2
             | [] \<Rightarrow> 2)
          else 1
      | _ \<Rightarrow> 1)"

lemma bad_length_pos [simp]: "0 < bad_length bs"
  by (simp add: bad_length_def split: list.splits)

function utf8_replace :: "bytes \<Rightarrow> pystr" where
  "utf8_replace bs =
     (if bs = [] then []
      else (case utf8_next bs of
              None \<Rightarrow> 65533 # utf8_replace (drop (bad_length bs) bs)
            | Some (c, r) \<Rightarrow> c # utf8_replace r))"
  by pat_completeness auto
termination
  by (relation "measure length") (auto dest: utf8_next_shorter)

declare utf8_replace.simps [simp del]

lemma utf8_replace_decode: "utf8_decode bs = Some s \<Longrightarrow> utf8_replace bs = s"
proof (induction bs arbitrary: s rule: utf8_decode.induct)
  case (1 bs)
  then show ?case
    by (subst utf8_replace.simps, subst (asm) utf8_decode.simps) (auto split: if_splits option.splits)
qed

lemma text_ok_utf8_replace: "text_ok (utf8_replace bs)"
proof (induction bs rule: utf8_replace.induct)
  case (1 bs)
  have "scalar 65533" by (simp add: scalar_def)
  with 1 show ?case
    by (subst utf8_replace.simps) (auto simp: text_ok_def dest: utf8_next_scalar split: option.splits)
qed

section \<open>Runs\<close>

record out_request =
  or_method :: pystr
  or_url :: pystr
  or_headers :: headers
  or_body :: "bytes option"

text \<open>The answer to one request: \<open>urlopen\<close> returns, raises \<open>HTTPError\<close>, or raises something else.\<close>

datatype wire = Reply int bytes | HttpErr int bytes | NoReply exn

type_synonym network = "out_request list \<Rightarrow> wire"
type_synonym 'a script = "out_request list \<Rightarrow> (exn + 'a) \<times> out_request list"

definition bindS :: "'a script \<Rightarrow> ('a \<Rightarrow> 'b script) \<Rightarrow> 'b script" where
  "bindS m f sent = (case m sent of (Inl e, sent') \<Rightarrow> (Inl e, sent') | (Inr x, sent') \<Rightarrow> f x sent')"

definition liftE :: "exn + 'a \<Rightarrow> 'a script" where
  "liftE r sent = (r, sent)"

definition send :: "network \<Rightarrow> out_request \<Rightarrow> wire script" where
  "send net req sent = (Inr (net (sent @ [req])), sent @ [req])"

text \<open>A loop that collects one result per item and stops at the first exception.\<close>

fun for_each :: "('a \<Rightarrow> 'b script) \<Rightarrow> 'a list \<Rightarrow> 'b list script" where
  "for_each f [] = liftE (Inr [])"
| "for_each f (x # xs) = bindS (f x) (\<lambda>y. bindS (for_each f xs) (\<lambda>ys. liftE (Inr (y # ys))))"

lemma bindS_eq_Inr [exn_simps]:
  "bindS m f s = (Inr y, s2) \<longleftrightarrow> (\<exists>x s1. m s = (Inr x, s1) \<and> f x s1 = (Inr y, s2))"
  by (auto simp: bindS_def split: prod.splits sum.splits)

lemma bindS_eq_Inl [exn_simps]:
  "bindS m f s = (Inl e, s2) \<longleftrightarrow>
     m s = (Inl e, s2) \<or> (\<exists>x s1. m s = (Inr x, s1) \<and> f x s1 = (Inl e, s2))"
  by (auto simp: bindS_def split: prod.splits sum.splits)

lemma liftE_eq [exn_simps]: "liftE r s = (r', s') \<longleftrightarrow> r = r' \<and> s = s'"
  by (auto simp: liftE_def)

lemma send_eq [exn_simps]: "send net req s = (r, s') \<longleftrightarrow> r = Inr (net s') \<and> s' = s @ [req]"
  by (auto simp: send_def)

lemma for_each_Inr:
  "for_each f xs s = (Inr ys, s') \<Longrightarrow>
     list_all2 (\<lambda>x y. \<exists>s1 s2. f x s1 = (Inr y, s2)) xs ys"
proof (induction xs arbitrary: ys s)
  case (Cons x xs)
  then show ?case by (fastforce simp: exn_simps)
qed (auto simp: exn_simps)

text \<open>A loop whose body sends one request per item.\<close>

lemma for_each_steps:
  assumes "for_each f xs s = (Inr ys, s')"
    and "\<And>x y s s'. x \<in> set xs \<Longrightarrow> f x s = (Inr y, s') \<Longrightarrow> \<exists>q. s' = s @ [q] \<and> R x y (s @ [q])"
  shows "\<exists>qs. s' = s @ qs \<and> length qs = length xs \<and> length ys = length xs \<and>
    (\<forall>i<length xs. R (xs ! i) (ys ! i) (s @ take (Suc i) qs))"
  using assms
proof (induction xs arbitrary: s ys)
  case (Cons x xs)
  then obtain y ys' s1 where st: "f x s = (Inr y, s1)" "for_each f xs s1 = (Inr ys', s')" "ys = y # ys'"
    by (auto simp: exn_simps)
  obtain q where q: "s1 = s @ [q]" "R x y (s @ [q])" using Cons.prems(2) [OF _ st(1)] by auto
  obtain qs where "s' = s1 @ qs" "length qs = length xs" "length ys' = length xs"
    "\<forall>i<length xs. R (xs ! i) (ys' ! i) (s1 @ take (Suc i) qs)"
    using Cons.IH [OF st(2) Cons.prems(2)] by auto
  then show ?case using q st(3) by (intro exI [of _ "q # qs"]) (auto simp: less_Suc_eq_0_disj)
qed (auto simp: exn_simps)

lemma for_each_ok:
  "(\<And>x s. x \<in> set xs \<Longrightarrow> \<exists>y s'. f x s = (Inr y, s')) \<Longrightarrow> \<exists>ys s'. for_each f xs s = (Inr ys, s')"
proof (induction xs arbitrary: s)
  case (Cons x xs)
  obtain y s1 where y: "f x s = (Inr y, s1)" using Cons.prems by force
  obtain ys s2 where "for_each f xs s1 = (Inr ys, s2)" using Cons by force
  with y show ?case by (simp add: bindS_def liftE_def)
qed (simp add: liftE_def)

text \<open>A run only ever adds to what was sent.\<close>

definition extends :: "'a script \<Rightarrow> bool" where
  "extends m \<longleftrightarrow> (\<forall>s. \<exists>more. snd (m s) = s @ more)"

lemma extends_bindS [intro]: "extends m \<Longrightarrow> (\<And>x. extends (f x)) \<Longrightarrow> extends (bindS m f)"
  unfolding extends_def bindS_def by (clarsimp split: prod.splits sum.splits) (metis append.assoc snd_conv)

lemma extends_liftE [intro]: "extends (liftE r)" and extends_send [intro]: "extends (send net req)"
  by (auto simp: extends_def liftE_def send_def)

lemma extends_case_prod [intro]: "(\<And>a b. extends (f a b)) \<Longrightarrow> extends (case p of (a, b) \<Rightarrow> f a b)"
  by (cases p) simp

lemma extends_for_each: "(\<And>x. extends (f x)) \<Longrightarrow> extends (for_each f xs)"
  by (induction xs) auto

section \<open>HTTP helpers\<close>

definition json_bytes :: "json \<Rightarrow> exn + bytes" where
  "json_bytes data = encodeE (json_dumps data)"

definition loads_or_empty :: "pystr \<Rightarrow> exn + json" where
  "loads_or_empty raw = (if raw = [] then Inr (JObj []) else loadsE raw)"

definition error_json :: "bytes \<Rightarrow> json" where
  "error_json bs =
     (let raw = utf8_replace bs in
      case loads_or_empty raw of Inl _ \<Rightarrow> JObj [(u ''raw'', JStr raw)] | Inr parsed \<Rightarrow> parsed)"

definition json_reply :: "wire \<Rightarrow> exn + (int \<times> json)" where
  "json_reply w =
     (case w of
        Reply status bs \<Rightarrow>
          bindE (decodeE bs) (\<lambda>raw. bindE (loads_or_empty raw) (\<lambda>v. Inr (status, v)))
      | HttpErr code bs \<Rightarrow> Inr (code, error_json bs)
      | NoReply e \<Rightarrow> Inl e)"

definition http_json ::
  "network \<Rightarrow> pystr \<Rightarrow> pystr \<Rightarrow> json option \<Rightarrow> headers \<Rightarrow> (int \<times> json) script" where
  "http_json net method url body hs =
     bindS (liftE (case body of None \<Rightarrow> Inr None | Some b \<Rightarrow> bindE (json_bytes b) (\<lambda>bs. Inr (Some bs))))
       (\<lambda>data.
     bindS (send net \<lparr>or_method = upper method, or_url = url, or_headers = hs, or_body = data\<rparr>) (\<lambda>w.
       liftE (json_reply w)))"

definition bytes_reply :: "wire \<Rightarrow> exn + (int \<times> bytes)" where
  "bytes_reply w =
     (case w of
        Reply status bs \<Rightarrow> Inr (status, bs)
      | HttpErr code bs \<Rightarrow> Inr (code, bs)
      | NoReply e \<Rightarrow> Inl e)"

definition http_bytes ::
  "network \<Rightarrow> pystr \<Rightarrow> pystr \<Rightarrow> bytes option \<Rightarrow> headers \<Rightarrow> (int \<times> bytes) script" where
  "http_bytes net method url body hs =
     bindS (send net \<lparr>or_method = upper method, or_url = url, or_headers = hs, or_body = body\<rparr>) (\<lambda>w.
       liftE (bytes_reply w))"

text \<open>\<open>_post_json\<close> of the probes: a success body is decoded with replacement too, and the length of
  the posted body is returned.\<close>

definition probe_reply :: "wire \<Rightarrow> exn + (int \<times> json)" where
  "probe_reply w =
     (case w of
        Reply status bs \<Rightarrow> bindE (loads_or_empty (utf8_replace bs)) (\<lambda>v. Inr (status, v))
      | HttpErr code bs \<Rightarrow> Inr (code, error_json bs)
      | NoReply e \<Rightarrow> Inl e)"

definition post_json_len ::
  "network \<Rightarrow> pystr \<Rightarrow> json \<Rightarrow> headers \<Rightarrow> (int \<times> json \<times> int) script" where
  "post_json_len net url payload hs =
     bindS (liftE (json_bytes payload)) (\<lambda>body.
     bindS (send net \<lparr>or_method = u ''POST'', or_url = url, or_headers = hs, or_body = Some body\<rparr>) (\<lambda>w.
     bindS (liftE (probe_reply w)) (\<lambda>(status, parsed). liftE (Inr (status, parsed, int (length body))))))"

text \<open>\<open>x.get(k, default)\<close> on a parsed value: only a dict has \<open>get\<close>.\<close>

definition py_get :: "json \<Rightarrow> string \<Rightarrow> json \<Rightarrow> exn + json" where
  "py_get v k d =
     (case v of
        JObj kvs \<Rightarrow> Inr (case map_of kvs (u k) of None \<Rightarrow> d | Some x \<Rightarrow> x)
      | _ \<Rightarrow> Inl AttributeError)"

text \<open>\<open>given\<close> are the options on the command line, each with its default.\<close>

definition opt_default :: "(string \<Rightarrow> pystr option) \<Rightarrow> string \<Rightarrow> string \<Rightarrow> pystr" where
  "opt_default given name d = (case given name of None \<Rightarrow> u d | Some v \<Rightarrow> v)"

lemmas script_defs = http_json_def http_bytes_def post_json_len_def json_reply_def bytes_reply_def
  probe_reply_def

lemma upper_methods [simp]: "upper (u ''POST'') = u ''POST''" "upper (u ''GET'') = u ''GET''"
  by code_simp+

lemma extends_http: "extends (http_json net m url b hs)" "extends (http_bytes net m url bs hs)"
    "extends (post_json_len net url v hs)"
  unfolding script_defs by blast+

lemma http_json_Inr:
  "http_json net m url (Some b) hs s = (Inr r, s') \<longleftrightarrow>
     (\<exists>bs. json_bytes b = Inr bs \<and>
       s' = s @ [\<lparr>or_method = upper m, or_url = url, or_headers = hs, or_body = Some bs\<rparr>] \<and>
       json_reply (net s') = Inr r)"
  by (auto simp: http_json_def exn_simps)

lemma http_bytes_Inr:
  "http_bytes net m url b hs s = (Inr r, s') \<longleftrightarrow>
     s' = s @ [\<lparr>or_method = upper m, or_url = url, or_headers = hs, or_body = b\<rparr>] \<and>
     bytes_reply (net s') = Inr r"
  by (auto simp: http_bytes_def exn_simps)

text \<open>A JSON body that a server renders canonically is what the helper returns.\<close>

lemma json_reply_rendered:
  assumes "json_bytes v = Inr bs" "json_plain v"
  shows "json_reply (Reply status bs) = Inr (status, v)"
proof -
  have "decodeE bs = Inr (json_dumps v)"
    using utf8_decode_encode assms(1) by (simp add: json_bytes_def decodeE_def encodeE_Inr del: json_dumps.simps)
  moreover have "json_dumps v \<noteq> []" using json_dumps_nonempty [OF assms(2)] by auto
  moreover have "loadsE (json_dumps v) = Inr v" using json_loads_dumps [OF assms(2)] by (simp add: loadsE_Inr)
  ultimately show ?thesis by (simp add: json_reply_def loads_or_empty_def del: json_dumps.simps)
qed

section \<open>JSON values of encodable text\<close>

fun json_text_ok :: "json \<Rightarrow> bool" where
  "json_text_ok (JStr s) = text_ok s"
| "json_text_ok (JFloat f) = float_plain f"
| "json_text_ok (JArr xs) = (\<forall>x\<in>set xs. json_text_ok x)"
| "json_text_ok (JObj kvs) = (\<forall>(k, v)\<in>set kvs. text_ok k \<and> json_text_ok v)"
| "json_text_ok _ = True"

lemma text_ok_append [simp]: "text_ok (s @ t) \<longleftrightarrow> text_ok s \<and> text_ok t"
  by (auto simp: text_ok_def)

lemma text_ok_Cons [simp]: "text_ok (c # s) \<longleftrightarrow> scalar c \<and> text_ok s"
  by (simp add: text_ok_def)

lemma text_ok_Nil [simp]: "text_ok []"
  by (simp add: text_ok_def)

lemma scalar_ascii: "0 \<le> c \<Longrightarrow> c < 128 \<Longrightarrow> scalar c"
  by (simp add: scalar_def)

lemma text_ok_u [simp]: "text_ok (u s)"
proof -
  have "scalar (of_char c)" for c :: char
  proof -
    have "of_char c < (256 :: int)" by (cases c) (simp add: of_char_def)
    moreover have "0 \<le> (of_char c :: int)" by (cases c) (simp add: of_char_def)
    ultimately show ?thesis by (simp add: scalar_def)
  qed
  then show ?thesis by (simp add: text_ok_def set_u)
qed

lemma scalar_hex_digit: "0 \<le> n \<Longrightarrow> n < 16 \<Longrightarrow> scalar (hex_digit n)"
  using hex_digit_range [of n] by (auto simp: scalar_def)

lemma text_ok_esc: "scalar c \<Longrightarrow> text_ok (esc_json c)"
proof -
  have "0 \<le> c \<Longrightarrow> c < 32 \<Longrightarrow> scalar (hex_digit (c div 16)) \<and> scalar (hex_digit (c mod 16))"
    by (intro conjI scalar_hex_digit) simp_all
  then show "scalar c \<Longrightarrow> text_ok (esc_json c)"
    unfolding esc_json_def by (simp add: scalar_ascii)
qed

lemma text_ok_json_string: "text_ok s \<Longrightarrow> text_ok (json_string s)"
  unfolding json_string_def by (induction s) (auto simp: text_ok_esc scalar_ascii)

lemma text_ok_commas: "(\<forall>s\<in>set ss. text_ok s) \<Longrightarrow> text_ok (commas ss)"
  by (induction ss rule: commas.induct) (auto simp: scalar_ascii)

lemma text_ok_digits: "list_all is_digit ds \<Longrightarrow> text_ok ds"
  by (auto simp: text_ok_def list_all_iff is_digit_def scalar_def)

lemma text_ok_json_float: "float_plain f \<Longrightarrow> text_ok (json_float f)"
proof (cases f)
  case (Dec neg m e)
  assume "float_plain f"
  with Dec have "float_plain (Dec neg m e)" by simp
  then have "text_ok (float_digits_str m e)"
    by (cases rule: float_text_cases) (auto simp: whole_def text_ok_digits scalar_ascii)
  with Dec show ?thesis by (simp add: sign_str_def scalar_ascii)
qed (auto simp: sign_str_def scalar_ascii)

lemma text_ok_print:
  assumes "\<And>n. text_ok (w n)" "text_ok k"
  shows "json_text_ok v \<Longrightarrow> text_ok (json_print w k n v)"
proof (induction v arbitrary: n)
  case (JArr xs)
  then have "\<forall>s\<in>set (map (\<lambda>x. w (Suc n) @ json_print w k (Suc n) x) xs). text_ok s" using assms by auto
  then show ?case using assms by (simp add: text_ok_commas scalar_ascii)
next
  case (JObj kvs)
  then have "\<forall>s\<in>set (map (\<lambda>(q, v). w (Suc n) @ json_string q @ 58 # k @ json_print w k (Suc n) v) kvs). text_ok s"
    using assms by (fastforce simp: scalar_ascii intro: text_ok_json_string)
  then show ?case using assms by (simp add: text_ok_commas scalar_ascii)
qed (auto simp: text_ok_py_str_int text_ok_json_string text_ok_json_float)

lemma text_ok_dumps: "json_text_ok v \<Longrightarrow> text_ok (json_dumps v)"
  unfolding json_dumps_print [of v 0] by (rule text_ok_print) simp_all

lemma text_ok_pretty: "json_text_ok v \<Longrightarrow> text_ok (json_pretty v)"
  unfolding json_pretty_def by (rule text_ok_print) (simp_all add: scalar_ascii text_ok_def)

lemma json_bytes_ok: "json_text_ok v \<Longrightarrow> \<exists>bs. json_bytes v = Inr bs"
  using text_ok_dumps encodeE_scalar unfolding json_bytes_def text_ok_def by blast

lemma text_ok_b64 [simp]: "text_ok (b64_encode url bs)"
proof -
  obtain body k where b: "b64_encode url bs = body @ replicate k 61" "set body \<subseteq> b64_alphabet url"
    using b64_encode_shape by blast
  have "\<forall>c\<in>b64_alphabet url. scalar c" by (auto simp: b64_alphabet_def scalar_def)
  then show ?thesis using b by (auto simp: text_ok_def scalar_def)
qed

lemma json_bytes_parse:
  assumes "json_bytes v = Inr bs" "json_plain v"
  shows "bindE (decodeE bs) loadsE = Inr v"
proof -
  have "decodeE bs = Inr (json_dumps v)"
    using utf8_decode_encode assms(1) by (simp add: json_bytes_def decodeE_def encodeE_Inr del: json_dumps.simps)
  moreover have "loadsE (json_dumps v) = Inr v"
    using json_loads_dumps [OF assms(2)] by (simp add: loadsE_Inr del: json_dumps.simps)
  ultimately show ?thesis by (simp del: json_dumps.simps)
qed

section \<open>What the scripts sign, the connector accepts\<close>

text \<open>\<open>signed_post\<close>: a body and headers that a connector with the same secret parses as the request
  \<open>r\<close> and whose HMAC check lets it through to the nonce cache.\<close>

definition signed_post :: "pystr \<Rightarrow> pystr \<Rightarrow> real \<Rightarrow> pystr \<Rightarrow> bytes \<Rightarrow> headers \<Rightarrow> scan_request \<Rightarrow> bool" where
  "signed_post secret path now nonce body hs r \<longleftrightarrow>
     (\<exists>v. bindE (decodeE body) loadsE = Inr v \<and> declared_request v = Some r) \<and>
     (\<forall>cfg key now_srv.
        hmac_secret cfg = secret \<and> \<bar>trunc now_srv - trunc now\<bar> \<le> auth_skew_sec cfg \<longrightarrow>
        hmac_gate cfg (posted path body hs) r key now_srv = make_replay_key (rq_tenant_id r) key (strip nonce))"

text \<open>Strings the helper signs as the connector does: without white space around them.\<close>

definition plain_text :: "pystr \<Rightarrow> bool" where
  "plain_text s \<longleftrightarrow> s \<noteq> [] \<and> text_ok s \<and> strip s = s"

lemma helper_sign_ok:
  assumes "plain_text path" "plain_text tenant" "plain_text rid" "plain_text nonce" "text_ok secret"
  shows "\<exists>hs. helper_sign secret api_key path body tenant rid now nonce = Inr hs"
proof -
  let ?ts = "py_str_int (trunc now)"
  have "build_canonical (u ''POST'') path body tenant rid ?ts nonce =
      build_canonical_string (u ''POST'') path (sha256_hex body) tenant rid ?ts nonce"
    using assms unfolding plain_text_def by (intro build_canonical_eq strip_POST) auto
  moreover have "text_ok (build_canonical_string (u ''POST'') path (sha256_hex body) tenant rid ?ts nonce)"
    using assms unfolding plain_text_def by (intro text_ok_canonical) (simp_all add: text_ok_py_str_int)
  ultimately obtain s where "sign_canonical (build_canonical (u ''POST'') path body tenant rid ?ts nonce) secret = Inr s"
    using sign_canonical_ok assms(5) unfolding text_ok_def by metis
  then show ?thesis by (simp add: helper_sign_def)
qed

lemma helper_post:
  assumes kvs: "declared_request (JObj kvs) = Some r" "json_text_ok (JObj kvs)" "json_plain (JObj kvs)"
    and plain: "plain_text path" "plain_text (rq_tenant_id r)" "plain_text (opt_or (rq_request_id r) [])"
      "plain_text nonce" "text_ok secret" "secret \<noteq> []" and now: "\<bar>trunc now\<bar> < 10 ^ 20"
  obtains body hs where "json_bytes (JObj kvs) = Inr body" "build_headers secret api_key path kvs now nonce = Inr hs"
    "signed_post secret path now nonce body hs r"
proof -
  obtain body where body: "json_bytes (JObj kvs) = Inr body" using json_bytes_ok [OF kvs(2)] by blast
  note f = str_field_tenant [OF kvs(1)] str_field_request_id [OF kvs(1)]
  obtain hs where hs: "helper_sign secret api_key path body (rq_tenant_id r) (opt_or (rq_request_id r) []) now nonce = Inr hs"
    using helper_sign_ok [OF plain(1-5)] by blast
  have "hmac_gate cfg (posted path body hs) r key now_srv = make_replay_key (rq_tenant_id r) key (strip nonce)"
    if "hmac_secret cfg = secret \<and> \<bar>trunc now_srv - trunc now\<bar> \<le> auth_skew_sec cfg" for cfg key now_srv
    by (rule helper_signer.gate_accepts [OF hs]) (use that plain now in \<open>auto simp: plain_text_def\<close>)
  then have "signed_post secret path now nonce body hs r"
    using json_bytes_parse [OF body kvs(3)] kvs(1) by (auto simp: signed_post_def)
  moreover have "build_headers secret api_key path kvs now nonce = Inr hs"
    using body hs by (simp add: build_headers_def json_bytes_def f del: json_dumps.simps)
  ultimately show ?thesis using body that by blast
qed

text \<open>The payload dict of the four scripts that send a file.\<close>

lemma file_payload:
  assumes "t \<noteq> []" "text_ok t" "text_ok rid" "text_ok f" "text_ok m" "json_text_ok (JObj md)" "json_plain (JObj md)"
  shows "declared_request (JObj (hook_payload t rid f m content md)) =
      Some \<lparr>rq_tenant_id = t, rq_request_id = Some rid, rq_filename = Some f, rq_mime = Some m,
        rq_file_base64 = Some (b64_encode False content), rq_extracted_text = None, rq_metadata = md\<rparr>"
    and "json_text_ok (JObj (hook_payload t rid f m content md))" "json_plain (JObj (hook_payload t rid f m content md))"
proof -
  have "list_all text_ok (map fst md)" using assms(6) by (auto simp: list_all_iff)
  then show "declared_request (JObj (hook_payload t rid f m content md)) =
      Some \<lparr>rq_tenant_id = t, rq_request_id = Some rid, rq_filename = Some f, rq_mime = Some m,
        rq_file_base64 = Some (b64_encode False content), rq_extracted_text = None, rq_metadata = md\<rparr>"
    using assms(1-5)
    by (simp add: declared_request_def hook_payload_def tenant_field_def opt_str_field_def metadata_field_def request_keys_def)
qed (use assms in \<open>simp_all add: hook_payload_def\<close>)

text \<open>Request ids made of a prefix, a name and part of a UUID.\<close>

lemma plain_request_id:
  assumes "\<forall>c\<in>set ds. \<not> is_space c \<and> scalar c" "text_ok n" and pre: "pre \<noteq> []" "\<not> is_space (hd pre)" "text_ok pre"
  shows "plain_text (pre @ n @ u ''-'' @ take k ds)"
proof -
  have "\<not> is_space (last (pre @ n @ u ''-'' @ take k ds))"
  proof (cases "take k ds = []")
    case True
    then show ?thesis by (simp add: u_def is_space_def)
  next
    case False
    then have "last (take k ds) \<in> set ds" by (meson in_set_takeD last_in_set)
    with False show ?thesis using assms(1) by simp
  qed
  moreover have "text_ok (take k ds)" using assms(1) by (auto simp: text_ok_def dest: in_set_takeD)
  ultimately show ?thesis
    using assms(2) pre unfolding plain_text_def by (auto intro!: strip_stripped simp: stripped_def)
qed

lemma uuid_text:
  "\<not> is_space (hd (u (CHR ''s'' # cs)))" "\<not> is_space (hd (u (CHR ''b'' # cs)))" "\<not> is_space (hd (u (CHR ''f'' # cs)))"
  by (simp_all add: u_def is_space_def)

section \<open>Saved results\<close>

text \<open>\<open>json.dumps(result, ensure_ascii=False, indent=2)\<close> in UTF-8, as every script saves its result.\<close>

definition saved :: "json \<Rightarrow> exn + bytes" where
  "saved result = encodeE (json_pretty result)"

lemma saved_reads_back:
  assumes "saved v = Inr content" "json_plain v"
  shows "bindE (decodeE content) loadsE = Inr v"
proof -
  have "decodeE content = Inr (json_pretty v)"
    using utf8_decode_encode assms(1) by (simp add: saved_def decodeE_def encodeE_Inr)
  moreover have "loadsE (json_pretty v) = Inr v" using json_loads_pretty [OF assms(2)] by (simp add: loadsE_Inr)
  ultimately show ?thesis by simp
qed

lemma loadsE_plain: "loadsE s = Inr v \<Longrightarrow> json_plain v"
  by (simp add: loadsE_Inr json_loads_plain)

lemma loads_or_empty_plain: "loads_or_empty s = Inr v \<Longrightarrow> json_plain v"
  by (auto simp: loads_or_empty_def loadsE_plain split: if_splits)

lemma error_json_plain: "json_plain (error_json bs)"
  by (auto simp: error_json_def Let_def loads_or_empty_plain split: sum.splits)

lemma reply_plain:
  "json_reply w = Inr (status, v) \<Longrightarrow> json_plain v"
  "probe_reply w = Inr (status, v) \<Longrightarrow> json_plain v"
  by (auto simp: json_reply_def probe_reply_def error_json_plain loads_or_empty_plain exn_simps split: wire.splits)

lemma small_plain: "\<bar>n\<bar> < 10 ^ 18 \<Longrightarrow> json_plain (JInt n)"
  using length_nat_digits [of "nat \<bar>n\<bar>" 18] by (simp add: nat_less_iff)

end
