(* ===== verification/Sgmeta.thy ===== *)
theory Sgmeta
  imports Script_Http
begin

text \<open>
  The file format half of \<open>scripts/e2e_sgraph_real_path.py\<close>: the SGMETA container around a file,
  the AES-GCM envelope of the SGraph browser client, and the HTML and PDF documents the script
  sends.  AES-GCM and \<open>python-docx\<close> are parameters; the bytes of \<open>os.urandom\<close> are arguments.
\<close>

definition ascii :: "pystr \<Rightarrow> bytes" where
  "ascii s = map byte_of s"

section \<open>SGMETA container\<close>

definition sgmeta_magic :: bytes where
  "sgmeta_magic = ascii (u ''SGMETA'') @ [0]"

text \<open>\<open>int.to_bytes(4, "big")\<close> and \<open>int.from_bytes(_, "big")\<close>.\<close>

definition to_be4 :: "nat \<Rightarrow> exn + bytes" where
  "to_be4 n =
     (if n < 2 ^ 32
      then Inr [byte_of (int n div 2 ^ 24), byte_of (int n div 2 ^ 16 mod 256),
                byte_of (int n div 2 ^ 8 mod 256), byte_of (int n mod 256)]
      else Inl OverflowError)"

definition of_be :: "bytes \<Rightarrow> nat" where
  "of_be bs = nat (foldl (\<lambda>n b. n * 256 + uint b) 0 bs)"

definition package_with_sgmeta :: "bytes \<Rightarrow> pystr \<Rightarrow> exn + bytes" where
  "package_with_sgmeta content filename =
     bindE (json_bytes (JObj [(u ''filename'', JStr filename)])) (\<lambda>meta_bytes.
     bindE (to_be4 (length meta_bytes)) (\<lambda>len.
       Inr (sgmeta_magic @ len @ meta_bytes @ content)))"

text \<open>Python's \<open>None\<close> and JSON's \<open>null\<close> are the same value here, \<open>JNull\<close>.\<close>

definition extract_sgmeta_or_raw :: "bytes \<Rightarrow> json \<times> bytes" where
  "extract_sgmeta_or_raw decrypted =
     (if length decrypted < length sgmeta_magic + 4 then (JNull, decrypted)
      else if take (length sgmeta_magic) decrypted \<noteq> sgmeta_magic then (JNull, decrypted)
      else
        (let meta_len_start = length sgmeta_magic;
             meta_len = of_be (take 4 (drop meta_len_start decrypted));
             meta_start = meta_len_start + 4;
             meta_end = meta_start + meta_len
         in if length decrypted < meta_end then (JNull, decrypted)
            else (case bindE (decodeE (take (meta_end - meta_start) (drop meta_start decrypted))) loadsE of
                    Inl _ \<Rightarrow> (JNull, decrypted)
                  | Inr metadata \<Rightarrow> (metadata, drop meta_end decrypted))))"

lemma length_to_be4: "to_be4 n = Inr bs \<Longrightarrow> length bs = 4"
  by (auto simp: to_be4_def split: if_splits)

lemma of_be_four:
  assumes "a \<in> {0..<256}" "b \<in> {0..<256}" "c \<in> {0..<256}" "d \<in> {0..<256}"
  shows "of_be [byte_of a, byte_of b, byte_of c, byte_of d] = nat (((a * 256 + b) * 256 + c) * 256 + d)"
  using assms by (simp add: of_be_def bytes_simps)

lemma join_be4: "((n div 2 ^ 24 * 256 + n div 2 ^ 16 mod 256) * 256 + n div 2 ^ 8 mod 256) * 256 + n mod 256 = (n :: int)"
proof -
  have "n div 2 ^ 24 = n div 2 ^ 16 div 256" "n div 2 ^ 16 = n div 2 ^ 8 div 256" "n div 2 ^ 8 = n div 256"
    by (simp_all add: zdiv_zmult2_eq [symmetric])
  then show ?thesis by (simp only: div_mult_mod_eq)
qed

lemma of_be_to_be4:
  assumes "to_be4 n = Inr bs"
  shows "of_be bs = n"
proof -
  have n: "n < 2 ^ 32" and bs: "bs = [byte_of (int n div 2 ^ 24), byte_of (int n div 2 ^ 16 mod 256),
      byte_of (int n div 2 ^ 8 mod 256), byte_of (int n mod 256)]"
    using assms by (auto simp: to_be4_def split: if_splits)
  have "int n div 2 ^ 24 \<in> {0..<256}" using n by auto
  then show ?thesis unfolding bs by (subst of_be_four) (simp_all only: join_be4 nat_int, auto)
qed

lemma package_with_sgmeta_Inr:
  "package_with_sgmeta content filename = Inr p \<longleftrightarrow>
     (\<exists>meta len. json_bytes (JObj [(u ''filename'', JStr filename)]) = Inr meta \<and>
        to_be4 (length meta) = Inr len \<and> p = sgmeta_magic @ len @ meta @ content)"
  by (auto simp: package_with_sgmeta_def bindE_eq_Inr)

text \<open>A container whose metadata bytes parse gives back the metadata and the content.\<close>

lemma extract_container:
  assumes len: "to_be4 (length meta) = Inr len" and meta: "bindE (decodeE meta) loadsE = Inr v"
  shows "extract_sgmeta_or_raw (sgmeta_magic @ len @ meta @ content) = (v, content)"
proof -
  have l: "length len = 4" "of_be len = length meta"
    using length_to_be4 [OF len] of_be_to_be4 [OF len] by simp_all
  then show ?thesis
    using meta by (simp add: extract_sgmeta_or_raw_def Let_def)
qed

lemma extract_package:
  assumes "package_with_sgmeta content filename = Inr p"
  shows "extract_sgmeta_or_raw p = (JObj [(u ''filename'', JStr filename)], content)"
proof -
  obtain meta len where p: "json_bytes (JObj [(u ''filename'', JStr filename)]) = Inr meta"
    "to_be4 (length meta) = Inr len" "p = sgmeta_magic @ len @ meta @ content"
    using assms unfolding package_with_sgmeta_Inr by blast
  have "bindE (decodeE meta) loadsE = Inr (JObj [(u ''filename'', JStr filename)])"
    by (rule json_bytes_parse [OF p(1)]) simp
  from extract_container [OF p(2) this] show ?thesis by (simp add: p(3))
qed

text \<open>What is not a container comes back as it is.\<close>

lemma extract_raw:
  "\<not> (\<exists>rest. d = sgmeta_magic @ rest) \<Longrightarrow> extract_sgmeta_or_raw d = (JNull, d)"
  unfolding extract_sgmeta_or_raw_def by (metis append_take_drop_id)

section \<open>Encryption envelope\<close>

record aead =
  aead_encrypt :: "bytes \<Rightarrow> bytes \<Rightarrow> bytes \<Rightarrow> exn + bytes"
  aead_decrypt :: "bytes \<Rightarrow> bytes \<Rightarrow> bytes \<Rightarrow> exn + bytes"

text \<open>What AES-GCM promises: decryption under the same key and nonce inverts encryption, and the
  ciphertext carries a 16-byte tag.\<close>

definition aead_ok :: "aead \<Rightarrow> bool" where
  "aead_ok A \<longleftrightarrow>
     (\<forall>key iv p c. aead_encrypt A key iv p = Inr c \<longrightarrow>
        length c = length p + 16 \<and> aead_decrypt A key iv c = Inr p)"

definition encrypt_like_sgraph_ui :: "aead \<Rightarrow> bytes \<Rightarrow> bytes \<Rightarrow> bytes \<Rightarrow> exn + (bytes \<times> bytes)" where
  "encrypt_like_sgraph_ui A key iv plaintext =
     bindE (aead_encrypt A key iv plaintext) (\<lambda>cipher. Inr (key, iv @ cipher))"

definition decrypt_like_sgraph_ui :: "aead \<Rightarrow> bytes \<Rightarrow> bytes \<Rightarrow> exn + bytes" where
  "decrypt_like_sgraph_ui A key encrypted =
     (if length encrypted < 13 then Inl ValueError
      else aead_decrypt A key (take 12 encrypted) (drop 12 encrypted))"

lemma decrypt_encrypt:
  assumes "aead_ok A" "length iv = 12" "encrypt_like_sgraph_ui A key iv p = Inr (key', enc)"
  shows "key' = key \<and> decrypt_like_sgraph_ui A key enc = Inr p"
  using assms unfolding aead_ok_def
  by (auto simp: encrypt_like_sgraph_ui_def decrypt_like_sgraph_ui_def bindE_eq_Inr)

definition aead_total :: "aead \<Rightarrow> bool" where
  "aead_total A \<longleftrightarrow> (\<forall>key iv p. \<exists>c. aead_encrypt A key iv p = Inr c)"

text \<open>A cipher that only appends a tag.\<close>

definition demo_aead :: aead where
  "demo_aead =
     \<lparr>aead_encrypt = (\<lambda>key iv p. Inr (p @ replicate 16 0)),
      aead_decrypt = (\<lambda>key iv c. if drop (length c - 16) c = replicate 16 0 then Inr (take (length c - 16) c) else Inl (LibraryError []))\<rparr>"

lemma demo_aead: "aead_ok demo_aead" "aead_total demo_aead"
  by (simp_all add: aead_ok_def aead_total_def demo_aead_def)

section \<open>Properties\<close>

text \<open>C29: Round trip of the whole envelope: what is packed with its name and encrypted under a 12-byte
  nonce decrypts and unpacks to exactly that name and content; plaintext that does not start with
  the SGMETA magic is passed through unchanged, without metadata.\<close>

theorem sgmeta_roundtrip:
  assumes "aead_ok A" "length iv = 12"
    and "package_with_sgmeta content filename = Inr p" "encrypt_like_sgraph_ui A key iv p = Inr (k, enc)"
  shows "decrypt_like_sgraph_ui A k enc = Inr p \<and>
    extract_sgmeta_or_raw p = (JObj [(u ''filename'', JStr filename)], content) \<and>
    (take 7 d \<noteq> sgmeta_magic \<longrightarrow> extract_sgmeta_or_raw d = (JNull, d))"
proof -
  have "length sgmeta_magic = 7" by (simp add: sgmeta_magic_def ascii_def)
  then have "take 7 d \<noteq> sgmeta_magic \<longrightarrow> extract_sgmeta_or_raw d = (JNull, d)"
    by (auto simp: extract_sgmeta_or_raw_def)
  then show ?thesis using decrypt_encrypt [OF assms(1,2,4)] extract_package [OF assms(3)] by simp
qed

theorem sgmeta_roundtrip_witness:
  "\<exists>p enc. encrypt_like_sgraph_ui demo_aead [9] (replicate 12 7) p = Inr ([9], enc) \<and>
     package_with_sgmeta [1, 2, 3] (u ''f.txt'') = Inr p \<and>
     extract_sgmeta_or_raw p = (JObj [(u ''filename'', JStr (u ''f.txt''))], [1, 2, 3])"
proof -
  have "case json_bytes (JObj [(u ''filename'', JStr (u ''f.txt''))]) of Inl e \<Rightarrow> False | Inr m \<Rightarrow> length m = 20"
    by code_simp
  then obtain m where "json_bytes (JObj [(u ''filename'', JStr (u ''f.txt''))]) = Inr m" "length m = 20"
    by (auto split: sum.splits simp del: json_dumps.simps)
  then obtain p where p: "package_with_sgmeta [1, 2, 3] (u ''f.txt'') = Inr p"
    by (simp add: package_with_sgmeta_def to_be4_def del: json_dumps.simps)
  have e: "encrypt_like_sgraph_ui demo_aead [9] (replicate 12 7) p = Inr ([9], replicate 12 7 @ p @ replicate 16 0)"
    by (simp add: encrypt_like_sgraph_ui_def demo_aead_def)
  show ?thesis
    using sgmeta_roundtrip [OF demo_aead(1) _ p e, of "[]"] p e by auto
qed

end
