(* ===== verification/Sgraph_Transfer.thy ===== *)
theory Sgraph_Transfer
  imports Sgraph_Documents
begin

text \<open>
  The two end-to-end scripts that send files through the SGraph transfer API:
  \<open>scripts/e2e_sgraph_real_path.py\<close> (decrypt, then call the connector) and
  \<open>scripts/e2e_sgraph_upstream_connector_path.py\<close> (decrypt, then call SGraph's own scan route).  Both
  start with the same transfer, the definition \<open>transfer\<close>.  The network answers from everything
  sent so far; random bytes, clock, UUIDs and \<open>python-docx\<close> are arguments.
\<close>

record transfer_env =
  te_key :: bytes
  te_iv :: bytes
  te_uuid_hex :: pystr
  te_now :: real
  te_nonce :: pystr

record transferred =
  tr_id :: pystr
  tr_encrypted :: bytes
  tr_downloaded :: bytes
  tr_meta :: json
  tr_content :: bytes

definition fail :: "pystr \<Rightarrow> 'a script" where
  "fail msg = liftE (Inl (RuntimeError msg))"

section \<open>The transfer\<close>

definition json_headers :: "pystr \<Rightarrow> headers" where
  "json_headers token =
     [(''Content-Type'', u ''application/json''), (''x-sgraph-access-token'', token)]"

definition bytes_headers :: "pystr \<Rightarrow> headers" where
  "bytes_headers token =
     [(''Content-Type'', u ''application/octet-stream''), (''x-sgraph-access-token'', token)]"

definition transfer_id_of :: "json \<Rightarrow> exn + pystr" where
  "transfer_id_of body =
     (case body of JObj kvs \<Rightarrow> Inr (str_field kvs ''transfer_id'') | _ \<Rightarrow> Inl AttributeError)"

definition create_transfer :: "network \<Rightarrow> pystr \<Rightarrow> pystr \<Rightarrow> scenario \<Rightarrow> nat \<Rightarrow> pystr script" where
  "create_transfer net sgraph_base token scn nbytes =
     bindS (http_json net (u ''POST'') (sgraph_base @ u ''/api/transfers/create'')
              (Some (JObj [(u ''file_size_bytes'', JInt (int nbytes)),
                           (u ''content_type_hint'', JStr (sc_mime scn))])) (json_headers token))
       (\<lambda>(status, body).
         if status \<noteq> 200 then
           fail (u ''sgraph create failed for '' @ sc_name scn @ u '': '' @ py_str_int status @ u '' '' @ py_str body)
         else bindS (liftE (transfer_id_of body)) (\<lambda>transfer_id.
           if transfer_id = [] then
             fail (u ''sgraph create missing transfer_id for '' @ sc_name scn @ u '': '' @ py_str body)
           else liftE (Inr transfer_id)))"

definition upload_transfer :: "network \<Rightarrow> pystr \<Rightarrow> pystr \<Rightarrow> scenario \<Rightarrow> pystr \<Rightarrow> bytes \<Rightarrow> unit script" where
  "upload_transfer net sgraph_base token scn transfer_id payload =
     bindS (http_bytes net (u ''POST'') (sgraph_base @ u ''/api/transfers/upload/'' @ transfer_id)
              (Some payload) (bytes_headers token)) (\<lambda>(status, raw).
       if status \<noteq> 200 then
         fail (u ''sgraph upload failed for '' @ sc_name scn @ u '': '' @ py_str_int status @ u '' '' @ utf8_replace raw)
       else liftE (Inr ()))"

definition complete_transfer :: "network \<Rightarrow> pystr \<Rightarrow> pystr \<Rightarrow> scenario \<Rightarrow> pystr \<Rightarrow> unit script" where
  "complete_transfer net sgraph_base token scn transfer_id =
     bindS (http_json net (u ''POST'') (sgraph_base @ u ''/api/transfers/complete/'' @ transfer_id)
              (Some (JObj [])) (json_headers token)) (\<lambda>(status, body).
       if status \<noteq> 200 then
         fail (u ''sgraph complete failed for '' @ sc_name scn @ u '': '' @ py_str_int status @ u '' '' @ py_str body)
       else liftE (Inr ()))"

definition download_transfer :: "network \<Rightarrow> pystr \<Rightarrow> pystr \<Rightarrow> scenario \<Rightarrow> pystr \<Rightarrow> bytes script" where
  "download_transfer net sgraph_base token scn transfer_id =
     bindS (http_bytes net (u ''GET'') (sgraph_base @ u ''/api/transfers/download/'' @ transfer_id)
              None [(''x-sgraph-access-token'', token)]) (\<lambda>(status, raw).
       if status \<noteq> 200 then
         fail (u ''sgraph download failed for '' @ sc_name scn @ u '': '' @ py_str_int status @ u '' '' @ utf8_replace raw)
       else liftE (Inr raw))"

definition transfer ::
  "network \<Rightarrow> aead \<Rightarrow> pystr \<Rightarrow> pystr \<Rightarrow> transfer_env \<Rightarrow> scenario \<Rightarrow> transferred script" where
  "transfer net A sgraph_base token env scn =
     bindS (liftE (package_with_sgmeta (sc_content scn) (sc_filename scn))) (\<lambda>packaged_plain.
     bindS (liftE (encrypt_like_sgraph_ui A (te_key env) (te_iv env) packaged_plain))
       (\<lambda>(key, encrypted_payload).
     bindS (create_transfer net sgraph_base token scn (length packaged_plain)) (\<lambda>transfer_id.
     bindS (upload_transfer net sgraph_base token scn transfer_id encrypted_payload) (\<lambda>_.
     bindS (complete_transfer net sgraph_base token scn transfer_id) (\<lambda>_.
     bindS (download_transfer net sgraph_base token scn transfer_id) (\<lambda>downloaded_encrypted.
     bindS (liftE (decrypt_like_sgraph_ui A key downloaded_encrypted)) (\<lambda>decrypted.
       (let (meta, decrypted_content) = extract_sgmeta_or_raw decrypted in
        liftE (Inr \<lparr>tr_id = transfer_id, tr_encrypted = encrypted_payload,
                    tr_downloaded = downloaded_encrypted, tr_meta = meta,
                    tr_content = decrypted_content\<rparr>)))))))))"

section \<open>Scan and report\<close>

definition filename_of :: "json \<Rightarrow> scenario \<Rightarrow> exn + pystr" where
  "filename_of meta scn =
     bindE (if truthy meta then py_get meta ''filename'' JNull else Inr JNull) (\<lambda>v.
       Inr (if truthy v then py_str v else sc_filename scn))"

definition scan_payload ::
  "string \<Rightarrow> string \<Rightarrow> pystr \<Rightarrow> transfer_env \<Rightarrow> scenario \<Rightarrow> transferred \<Rightarrow> exn + jobj" where
  "scan_payload prefix flow tenant_id env scn tr =
     bindE (filename_of (tr_meta tr) scn) (\<lambda>filename.
       Inr (hook_payload tenant_id (u prefix @ sc_name scn @ u ''-'' @ take 10 (te_uuid_hex env)) filename
              (sc_mime scn) (tr_content tr)
              [(u ''flow'', JStr (u flow)), (u ''sgraph_transfer_id'', JStr (tr_id tr)),
               (u ''scenario'', JStr (sc_name scn))]))"

definition fallback_reason :: "pystr \<Rightarrow> bool" where
  "fallback_reason r \<longleftrightarrow>
     startswith r (u ''omega_'') \<or> r \<in> {u ''omega_timeout'', u ''omega_unavailable''}"

definition reply_reasons :: "json \<Rightarrow> exn + pystr list" where
  "reply_reasons body =
     bindE (py_get body ''reasons'' (JArr [])) (\<lambda>v. bindE (py_iter v) (\<lambda>xs. Inr (map py_str xs)))"

definition check_fallback :: "bool \<Rightarrow> scenario \<Rightarrow> json \<Rightarrow> exn + unit" where
  "check_fallback strict scn body =
     bindE (reply_reasons body) (\<lambda>reasons.
       (let fallback_reasons = filter fallback_reason reasons in
        if strict \<and> fallback_reasons \<noteq> [] then
          Inl (RuntimeError (u ''fallback detected for '' @ sc_name scn @ u '': '' @
                 py_str (JArr (map JStr fallback_reasons))))
        else Inr ()))"

definition scenario_report :: "string \<Rightarrow> scenario \<Rightarrow> transferred \<Rightarrow> json \<Rightarrow> json" where
  "scenario_report response_key scn tr body =
     JObj [(u ''scenario'', JStr (sc_name scn)),
       (u ''sgraph'', JObj [(u ''transfer_id'', JStr (tr_id tr)),
          (u ''uploaded_encrypted_sha256'', JStr (sha256_hex (tr_encrypted tr))),
          (u ''downloaded_encrypted_sha256'', JStr (sha256_hex (tr_downloaded tr))),
          (u ''encrypted_roundtrip_match'', JBool (tr_encrypted tr = tr_downloaded tr))]),
       (u ''decrypt'', JObj [(u ''sgmeta_metadata'', tr_meta tr),
          (u ''decrypted_content_sha256'', JStr (sha256_hex (tr_content tr))),
          (u ''decrypted_content_size'', JInt (int (length (tr_content tr))))]),
       (u response_key, body)]"

text \<open>What follows the reply of the scan in both scripts.\<close>

definition finish_scan :: "string \<Rightarrow> string \<Rightarrow> bool \<Rightarrow> scenario \<Rightarrow> transferred \<Rightarrow> int \<times> json \<Rightarrow> json script" where
  "finish_scan what response_key strict scn tr reply =
     (case reply of (status, body) \<Rightarrow>
        if status \<noteq> 200 then
          fail (u what @ u '' scan failed for '' @ sc_name scn @ u '': '' @ py_str_int status @ u '' '' @ py_str body)
        else bindS (liftE (check_fallback strict scn body)) (\<lambda>_.
          liftE (Inr (scenario_report response_key scn tr body))))"

section \<open>The script over the connector\<close>

record e2e_args =
  ea_base_url :: pystr
  ea_connector_path :: pystr
  ea_token :: pystr
  ea_api_key :: pystr
  ea_hmac_secret :: pystr
  ea_tenant_id :: pystr
  ea_strict :: bool

text \<open>\<open>--strict-no-fallback\<close> is on by default, so only \<open>--allow-fallback\<close> matters.\<close>

definition parse_real_args :: "(string \<Rightarrow> pystr option) \<Rightarrow> bool \<Rightarrow> e2e_args" where
  "parse_real_args given allow_fallback =
     \<lparr>ea_base_url = opt_default given ''--base-url'' ''https://localhost:8088'',
      ea_connector_path = opt_default given ''--connector-path'' ''/v1/scan/attachment'',
      ea_token = opt_default given ''--sgraph-access-token'' ''dev-local-token'',
      ea_api_key = opt_default given ''--connector-api-key'' ''local-connector-key'',
      ea_hmac_secret = opt_default given ''--connector-hmac-secret'' ''local-connector-hmac'',
      ea_tenant_id = opt_default given ''--tenant-id'' ''tenant-sgraph-real-e2e'',
      ea_strict = \<not> allow_fallback\<rparr>"

definition sgraph_base :: "pystr \<Rightarrow> pystr" where
  "sgraph_base base_url = rstrip_char 47 base_url @ u ''/sgraph''"

definition connector_url :: "e2e_args \<Rightarrow> pystr" where
  "connector_url args = rstrip_char 47 (ea_base_url args) @ ea_connector_path args"

definition real_scan :: "network \<Rightarrow> e2e_args \<Rightarrow> transfer_env \<Rightarrow> scenario \<Rightarrow> transferred \<Rightarrow> json script" where
  "real_scan net args env scn tr =
     bindS (liftE (scan_payload ''sgraph-real-'' ''sgraph-decrypt-to-connector'' (ea_tenant_id args) env scn tr))
       (\<lambda>connector_payload.
     bindS (liftE (build_headers (ea_hmac_secret args) (ea_api_key args) (ea_connector_path args)
              connector_payload (te_now env) (te_nonce env))) (\<lambda>connector_headers.
     bindS (http_json net (u ''POST'') (connector_url args) (Some (JObj connector_payload)) connector_headers)
       (finish_scan ''connector'' ''connector_response'' (ea_strict args) scn tr)))"

definition real_scenario :: "network \<Rightarrow> aead \<Rightarrow> e2e_args \<Rightarrow> transfer_env \<Rightarrow> scenario \<Rightarrow> json script" where
  "real_scenario net A args env scn =
     bindS (transfer net A (sgraph_base (ea_base_url args)) (ea_token args) env scn)
       (real_scan net args env scn)"

definition real_run ::
  "network \<Rightarrow> aead \<Rightarrow> (pystr list \<Rightarrow> bytes) \<Rightarrow> e2e_args \<Rightarrow> (nat \<Rightarrow> transfer_env) \<Rightarrow> json script" where
  "real_run net A docx args envs =
     bindS (liftE (build_scenarios docx)) (\<lambda>scenarios.
     bindS (for_each (\<lambda>(i, scn). real_scenario net A args (envs i) scn) (enumerate 0 scenarios)) (\<lambda>results.
       liftE (Inr (JObj [(u ''base_url'', JStr (rstrip_char 47 (ea_base_url args))),
         (u ''tenant_id'', JStr (ea_tenant_id args)), (u ''connector_path'', JStr (ea_connector_path args)),
         (u ''sgraph_prefix'', JStr (u ''/sgraph'')), (u ''scenarios'', JArr results)]))))"

section \<open>The script over SGraph's scan route\<close>

record upstream_args =
  ua_base_url :: pystr
  ua_token :: pystr
  ua_tenant_id :: pystr
  ua_scan_path :: pystr
  ua_strict :: bool

definition parse_upstream_args :: "(string \<Rightarrow> pystr option) \<Rightarrow> bool \<Rightarrow> upstream_args" where
  "parse_upstream_args given allow_fallback =
     \<lparr>ua_base_url = opt_default given ''--base-url'' ''https://localhost:8088'',
      ua_token = opt_default given ''--sgraph-access-token'' ''dev-local-token'',
      ua_tenant_id = opt_default given ''--tenant-id'' ''tenant-sgraph-upstream-connector-e2e'',
      ua_scan_path = opt_default given ''--sgraph-scan-path'' ''/api/integrations/connector/scan-attachment'',
      ua_strict = \<not> allow_fallback\<rparr>"

definition upstream_scan :: "network \<Rightarrow> upstream_args \<Rightarrow> transfer_env \<Rightarrow> scenario \<Rightarrow> transferred \<Rightarrow> json script" where
  "upstream_scan net args env scn tr =
     bindS (liftE (scan_payload ''sgraph-upstream-'' ''sgraph-route-to-connector'' (ua_tenant_id args) env scn tr))
       (\<lambda>scan_payload.
     bindS (http_json net (u ''POST'') (sgraph_base (ua_base_url args) @ ua_scan_path args)
              (Some (JObj scan_payload)) (json_headers (ua_token args)))
       (finish_scan ''sgraph connector'' ''sgraph_connector_response'' (ua_strict args) scn tr))"

definition upstream_scenario ::
  "network \<Rightarrow> aead \<Rightarrow> upstream_args \<Rightarrow> transfer_env \<Rightarrow> scenario \<Rightarrow> json script" where
  "upstream_scenario net A args env scn =
     bindS (transfer net A (sgraph_base (ua_base_url args)) (ua_token args) env scn)
       (upstream_scan net args env scn)"

definition upstream_run ::
  "network \<Rightarrow> aead \<Rightarrow> (pystr list \<Rightarrow> bytes) \<Rightarrow> upstream_args \<Rightarrow> (nat \<Rightarrow> transfer_env) \<Rightarrow> json script" where
  "upstream_run net A docx args envs =
     bindS (liftE (build_scenarios docx)) (\<lambda>scenarios.
     bindS (for_each (\<lambda>(i, scn). upstream_scenario net A args (envs i) scn) (enumerate 0 scenarios)) (\<lambda>results.
       liftE (Inr (JObj [(u ''base_url'', JStr (rstrip_char 47 (ua_base_url args))),
         (u ''tenant_id'', JStr (ua_tenant_id args)), (u ''sgraph_scan_path'', JStr (ua_scan_path args)),
         (u ''sgraph_prefix'', JStr (u ''/sgraph'')), (u ''scenarios'', JArr results)]))))"

end
