(* ===== verification/Sgraph_Transfer_Properties.thy ===== *)
theory Sgraph_Transfer_Properties
  imports Sgraph_Transfer
begin

text \<open>
  What the end-to-end scripts show when they pass: with a server that stores what is uploaded, the
  connector receives the scenario's own file, signed so that the connector accepts it, and the
  report says what happened; in strict mode no report contains a fallback answer.
\<close>

section \<open>A server that keeps its promises\<close>

text \<open>The body of the last request sent to a URL.\<close>

definition last_body :: "pystr \<Rightarrow> out_request list \<Rightarrow> bytes option" where
  "last_body url h =
     (case filter (\<lambda>r. or_url r = url) (rev h) of [] \<Rightarrow> None | r # _ \<Rightarrow> or_body r)"

text \<open>The transfer API: it hands out an id, accepts uploads and completions, and gives back on
  download what was last uploaded under the id.\<close>

definition honest_server :: "network \<Rightarrow> pystr \<Rightarrow> bool" where
  "honest_server net base \<longleftrightarrow>
     (\<forall>h r. or_url r = base @ u ''/api/transfers/create'' \<longrightarrow>
        (\<exists>kvs. json_reply (net (h @ [r])) = Inr (200, JObj kvs) \<and>
           str_field kvs ''transfer_id'' \<noteq> [] \<and> text_ok (str_field kvs ''transfer_id''))) \<and>
     (\<forall>h r tid. or_url r = base @ u ''/api/transfers/upload/'' @ tid \<longrightarrow>
        (\<exists>bs. net (h @ [r]) = Reply 200 bs)) \<and>
     (\<forall>h r tid. or_url r = base @ u ''/api/transfers/complete/'' @ tid \<longrightarrow>
        (\<exists>v. json_reply (net (h @ [r])) = Inr (200, v))) \<and>
     (\<forall>h r tid body. or_url r = base @ u ''/api/transfers/download/'' @ tid \<longrightarrow>
        last_body (base @ u ''/api/transfers/upload/'' @ tid) h = Some body \<longrightarrow>
        net (h @ [r]) = Reply 200 body)"

lemma honest_serverD:
  assumes "honest_server net base"
  shows honest_create: "or_url r = base @ u ''/api/transfers/create'' \<Longrightarrow>
      \<exists>kvs. json_reply (net (h @ [r])) = Inr (200, JObj kvs) \<and>
        str_field kvs ''transfer_id'' \<noteq> [] \<and> text_ok (str_field kvs ''transfer_id'')"
    and honest_upload: "or_url r = base @ u ''/api/transfers/upload/'' @ tid \<Longrightarrow> \<exists>bs. net (h @ [r]) = Reply 200 bs"
    and honest_complete: "or_url r = base @ u ''/api/transfers/complete/'' @ tid \<Longrightarrow>
      \<exists>v. json_reply (net (h @ [r])) = Inr (200, v)"
    and honest_download: "or_url r = base @ u ''/api/transfers/download/'' @ tid \<Longrightarrow>
      last_body (base @ u ''/api/transfers/upload/'' @ tid) h = Some body \<Longrightarrow> net (h @ [r]) = Reply 200 body"
proof -
  note h = assms [unfolded honest_server_def]
  note h1 = conjunct1 [OF h] and h2 = conjunct1 [OF conjunct2 [OF h]]
    and h3 = conjunct1 [OF conjunct2 [OF conjunct2 [OF h]]] and h4 = conjunct2 [OF conjunct2 [OF conjunct2 [OF h]]]
  show "or_url r = base @ u ''/api/transfers/create'' \<Longrightarrow>
      \<exists>kvs. json_reply (net (h @ [r])) = Inr (200, JObj kvs) \<and>
        str_field kvs ''transfer_id'' \<noteq> [] \<and> text_ok (str_field kvs ''transfer_id'')"
    by (rule h1 [rule_format])
  show "or_url r = base @ u ''/api/transfers/upload/'' @ tid \<Longrightarrow> \<exists>bs. net (h @ [r]) = Reply 200 bs"
    by (rule h2 [rule_format])
  show "or_url r = base @ u ''/api/transfers/complete/'' @ tid \<Longrightarrow> \<exists>v. json_reply (net (h @ [r])) = Inr (200, v)"
    by (rule h3 [rule_format])
  show "or_url r = base @ u ''/api/transfers/download/'' @ tid \<Longrightarrow>
      last_body (base @ u ''/api/transfers/upload/'' @ tid) h = Some body \<Longrightarrow> net (h @ [r]) = Reply 200 body"
    by (rule h4 [rule_format])
qed

lemma take_u: "take n (u s) = u (take n s)"
  by (simp add: u_def take_map)

text \<open>URLs that differ within the first \<open>n\<close> characters.\<close>

lemma u_append_neq:
  assumes "n \<le> length a" "n \<le> length b" "take n a \<noteq> take n b"
  shows "u a @ s \<noteq> u b @ t"
proof
  assume "u a @ s = u b @ t"
  then have "take n (u a @ s) = take n (u b @ t)" by simp
  then show False using assms by (simp add: take_u)
qed

lemma api_urls: "u ''/api/transfers/complete/'' @ s \<noteq> u ''/api/transfers/upload/'' @ t"
  by (rule u_append_neq [of 16]) simp_all

text \<open>The four requests of a transfer.\<close>

definition transfer_requests ::
  "pystr \<Rightarrow> pystr \<Rightarrow> bytes \<Rightarrow> pystr \<Rightarrow> bytes \<Rightarrow> out_request list" where
  "transfer_requests base token create_body tid encrypted =
     [\<lparr>or_method = u ''POST'', or_url = base @ u ''/api/transfers/create'', or_headers = json_headers token,
       or_body = Some create_body\<rparr>,
      \<lparr>or_method = u ''POST'', or_url = base @ u ''/api/transfers/upload/'' @ tid,
       or_headers = bytes_headers token, or_body = Some encrypted\<rparr>,
      \<lparr>or_method = u ''POST'', or_url = base @ u ''/api/transfers/complete/'' @ tid,
       or_headers = json_headers token, or_body = Some (ascii (u ''{}''))\<rparr>,
      \<lparr>or_method = u ''GET'', or_url = base @ u ''/api/transfers/download/'' @ tid,
       or_headers = [(''x-sgraph-access-token'', token)], or_body = None\<rparr>]"

lemma json_bytes_empty: "json_bytes (JObj []) = Inr (ascii (u ''{}''))"
  by code_simp

lemma transfer_honest:
  assumes honest: "honest_server net base" and aead: "aead_ok A" "length (te_iv env) = 12"
    and pack: "package_with_sgmeta (sc_content scn) (sc_filename scn) = Inr packed"
    and enc: "encrypt_like_sgraph_ui A (te_key env) (te_iv env) packed = Inr (key, encrypted)"
    and body: "json_bytes (JObj [(u ''file_size_bytes'', JInt (int (length packed))),
        (u ''content_type_hint'', JStr (sc_mime scn))]) = Inr create_body"
  obtains tid where "tid \<noteq> []" "text_ok tid"
    "transfer net A base token env scn s =
       (Inr \<lparr>tr_id = tid, tr_encrypted = encrypted, tr_downloaded = encrypted,
             tr_meta = JObj [(u ''filename'', JStr (sc_filename scn))], tr_content = sc_content scn\<rparr>,
        s @ transfer_requests base token create_body tid encrypted)"
proof -
  define q where "q = transfer_requests base token create_body"
  have url: "or_url (q t e ! 0) = base @ u ''/api/transfers/create''"
    "or_url (q t e ! 1) = base @ u ''/api/transfers/upload/'' @ t"
    "or_url (q t e ! 2) = base @ u ''/api/transfers/complete/'' @ t"
    "or_url (q t e ! 3) = base @ u ''/api/transfers/download/'' @ t" for t e
    by (simp_all add: q_def transfer_requests_def)
  obtain kvs where c: "json_reply (net (s @ [q [] [] ! 0])) = Inr (200, JObj kvs)"
    "str_field kvs ''transfer_id'' \<noteq> []" "text_ok (str_field kvs ''transfer_id'')"
    using honest_create [OF honest url(1)] by blast
  define tid where "tid = str_field kvs ''transfer_id''"
  let ?q = "q tid encrypted"
  obtain bs where up: "net ((s @ [?q ! 0]) @ [?q ! 1]) = Reply 200 bs"
    using honest_upload [OF honest url(2)] by blast
  obtain v where co: "json_reply (net ((s @ [?q ! 0, ?q ! 1]) @ [?q ! 2])) = Inr (200, v)"
    using honest_complete [OF honest url(3)] by blast
  have last: "last_body (base @ u ''/api/transfers/upload/'' @ tid) (s @ [?q ! 0, ?q ! 1, ?q ! 2]) = Some encrypted"
    unfolding last_body_def using api_urls by (simp add: q_def transfer_requests_def)
  have down: "net ((s @ [?q ! 0, ?q ! 1, ?q ! 2]) @ [?q ! 3]) = Reply 200 encrypted"
    by (rule honest_download [OF honest url(4) last])
  note d = decrypt_encrypt [OF aead enc]
  have s1: "create_transfer net base token scn (length packed) s = (Inr tid, s @ [?q ! 0])"
    using c unfolding tid_def create_transfer_def bindS_eq_Inr
    by (intro exI [of _ "(200, JObj kvs)"] exI [of _ "s @ [?q ! 0]"])
      (simp add: http_json_Inr body q_def transfer_requests_def transfer_id_of_def exn_simps)
  have s2: "upload_transfer net base token scn tid encrypted (s @ [?q ! 0]) = (Inr (), s @ [?q ! 0, ?q ! 1])"
    using up unfolding upload_transfer_def bindS_eq_Inr
    by (intro exI [of _ "(200, bs)"] exI [of _ "s @ [?q ! 0, ?q ! 1]"])
      (simp add: http_bytes_Inr bytes_reply_def q_def transfer_requests_def exn_simps)
  have s3: "complete_transfer net base token scn tid (s @ [?q ! 0, ?q ! 1]) = (Inr (), s @ [?q ! 0, ?q ! 1, ?q ! 2])"
    using co unfolding complete_transfer_def bindS_eq_Inr
    by (intro exI [of _ "(200, v)"] exI [of _ "s @ [?q ! 0, ?q ! 1, ?q ! 2]"])
      (simp add: http_json_Inr json_bytes_empty q_def transfer_requests_def exn_simps)
  have s4: "download_transfer net base token scn tid (s @ [?q ! 0, ?q ! 1, ?q ! 2]) = (Inr encrypted, s @ ?q)"
    using down unfolding download_transfer_def bindS_eq_Inr
    by (intro exI [of _ "(200, encrypted)"] exI [of _ "s @ ?q"])
      (simp add: http_bytes_Inr bytes_reply_def q_def transfer_requests_def exn_simps)
  have "transfer net A base token env scn s =
       (Inr \<lparr>tr_id = tid, tr_encrypted = encrypted, tr_downloaded = encrypted,
             tr_meta = JObj [(u ''filename'', JStr (sc_filename scn))], tr_content = sc_content scn\<rparr>, s @ ?q)"
    by (simp add: transfer_def bindS_def liftE_def pack enc s1 s2 s3 s4 d extract_package [OF pack] del: One_nat_def)
  then show ?thesis using c(2,3) that unfolding q_def tid_def by blast
qed

section \<open>The scenarios\<close>

lemma build_scenarios_member:
  assumes "build_scenarios docx = Inr scns" "scn \<in> set scns"
  shows "(sc_name scn, sc_filename scn) \<in>
      {(u ''html_benign'', u ''benign.html''), (u ''docx_attack_like'', u ''attack.docx''),
       (u ''pdf_scan_like'', u ''scan_like.pdf'')} \<and> text_ok (sc_mime scn)"
  using assms by (auto simp: build_scenarios_def bindE_eq_Inr)

lemma package_scenario:
  assumes "f \<in> {u ''benign.html'', u ''attack.docx'', u ''scan_like.pdf''}"
  shows "\<exists>p. package_with_sgmeta content f = Inr p"
proof -
  have "\<forall>f\<in>{u ''benign.html'', u ''attack.docx'', u ''scan_like.pdf''}.
      (case json_bytes (JObj [(u ''filename'', JStr f)]) of Inl e \<Rightarrow> False | Inr m \<Rightarrow> length m < 99)"
    by code_simp
  then have "case json_bytes (JObj [(u ''filename'', JStr f)]) of Inl e \<Rightarrow> False | Inr m \<Rightarrow> length m < 99"
    using assms by blast
  then obtain m where "json_bytes (JObj [(u ''filename'', JStr f)]) = Inr m" "length m < 99"
    by (auto split: sum.splits simp del: json_dumps.simps)
  then show ?thesis by (simp add: package_with_sgmeta_def to_be4_def del: json_dumps.simps)
qed

text \<open>Arguments and random values of an ordinary run.\<close>

definition args_ok :: "e2e_args \<Rightarrow> bool" where
  "args_ok args \<longleftrightarrow>
     plain_text (ea_connector_path args) \<and> plain_text (ea_tenant_id args) \<and>
     ea_hmac_secret args \<noteq> [] \<and> text_ok (ea_hmac_secret args)"

definition env_plain :: "transfer_env \<Rightarrow> bool" where
  "env_plain env \<longleftrightarrow>
     length (te_iv env) = 12 \<and> plain_text (te_nonce env) \<and> \<bar>trunc (te_now env)\<bar> < 10 ^ 20 \<and>
     (\<forall>c\<in>set (te_uuid_hex env). \<not> is_space c \<and> scalar c)"

definition connector_post :: "e2e_args \<Rightarrow> headers \<Rightarrow> bytes \<Rightarrow> out_request" where
  "connector_post args hs body =
     \<lparr>or_method = u ''POST'', or_url = connector_url args, or_headers = hs, or_body = Some body\<rparr>"

lemma filename_of_package: "filename_of (JObj [(u ''filename'', JStr (sc_filename scn))]) scn = Inr (sc_filename scn)"
  by (auto simp: filename_of_def py_get_def)

lemma real_scan_posts:
  assumes args: "args_ok args" and env: "env_plain env"
    and tr: "filename_of (tr_meta tr) scn = Inr (sc_filename scn)" "text_ok (tr_id tr)"
    and scn: "text_ok (sc_name scn)" "text_ok (sc_filename scn)" "text_ok (sc_mime scn)"
  obtains body hs r where "signed_post (ea_hmac_secret args) (ea_connector_path args) (te_now env) (te_nonce env) body hs r"
    "rq_tenant_id r = ea_tenant_id args" "rq_filename r = Some (sc_filename scn)"
    "rq_file_base64 r = Some (b64_encode False (tr_content tr))"
    "real_scan net args env scn tr s =
       bindS (liftE (json_reply (net (s @ [connector_post args hs body]))))
         (finish_scan ''connector'' ''connector_response'' (ea_strict args) scn tr) (s @ [connector_post args hs body])"
proof -
  let ?rid = "u ''sgraph-real-'' @ sc_name scn @ u ''-'' @ take 10 (te_uuid_hex env)"
  let ?md = "[(u ''flow'', JStr (u ''sgraph-decrypt-to-connector'')), (u ''sgraph_transfer_id'', JStr (tr_id tr)),
      (u ''scenario'', JStr (sc_name scn))]"
  let ?kvs = "hook_payload (ea_tenant_id args) ?rid (sc_filename scn) (sc_mime scn) (tr_content tr) ?md"
  have rid: "plain_text ?rid"
    by (rule plain_request_id) (use env scn(1) in \<open>simp_all add: env_plain_def uuid_text\<close>)
  have md: "json_text_ok (JObj ?md)" "json_plain (JObj ?md)" using tr(2) scn(1) by simp_all
  have t: "ea_tenant_id args \<noteq> []" "text_ok (ea_tenant_id args)" "text_ok ?rid"
    using args rid by (auto simp: args_ok_def plain_text_def)
  note fp = file_payload [OF t scn(2,3) md]
  have side: "plain_text (ea_connector_path args)" "plain_text (te_nonce env)" "text_ok (ea_hmac_secret args)"
    "ea_hmac_secret args \<noteq> []" "\<bar>trunc (te_now env)\<bar> < 10 ^ 20" "plain_text (ea_tenant_id args)"
    using args env by (simp_all add: args_ok_def env_plain_def)
  obtain body hs where post: "json_bytes (JObj ?kvs) = Inr body"
    "build_headers (ea_hmac_secret args) (ea_api_key args) (ea_connector_path args) ?kvs (te_now env) (te_nonce env) = Inr hs"
    "signed_post (ea_hmac_secret args) (ea_connector_path args) (te_now env) (te_nonce env) body hs
      \<lparr>rq_tenant_id = ea_tenant_id args, rq_request_id = Some ?rid, rq_filename = Some (sc_filename scn),
       rq_mime = Some (sc_mime scn), rq_file_base64 = Some (b64_encode False (tr_content tr)),
       rq_extracted_text = None, rq_metadata = ?md\<rparr>"
    by (rule helper_post [OF fp side(1) _ _ side(2-5)]) (use rid side(6) in \<open>auto simp: plain_text_def opt_or_def\<close>)
  have "scan_payload ''sgraph-real-'' ''sgraph-decrypt-to-connector'' (ea_tenant_id args) env scn tr = Inr ?kvs"
    by (simp add: scan_payload_def tr(1))
  then have "real_scan net args env scn tr s =
       bindS (liftE (json_reply (net (s @ [connector_post args hs body]))))
         (finish_scan ''connector'' ''connector_response'' (ea_strict args) scn tr) (s @ [connector_post args hs body])"
    by (simp add: real_scan_def bindS_def liftE_def http_json_def post(1,2) send_def connector_post_def del: json_dumps.simps)
  then show ?thesis using that [OF post(3)] by simp
qed

section \<open>Strict runs\<close>

lemma finish_scan_Inr:
  assumes "finish_scan what key strict scn tr (status, body) s = (Inr rep, s')"
  shows "status = 200 \<and> s' = s \<and> rep = scenario_report key scn tr body \<and>
    (\<exists>reasons. reply_reasons body = Inr reasons \<and> (strict \<longrightarrow> (\<forall>r\<in>set reasons. \<not> fallback_reason r)))"
  using assms unfolding finish_scan_def fail_def check_fallback_def
  by (auto simp: exn_simps Let_def filter_empty_conv split: if_splits)

text \<open>A scenario's report that shows a reply of the scan without fallback reasons.\<close>

definition reports_decision :: "string \<Rightarrow> json \<Rightarrow> bool" where
  "reports_decision key rep \<longleftrightarrow>
     (case rep of
        JObj kvs \<Rightarrow>
          (case map_of kvs (u key) of
             None \<Rightarrow> False
           | Some body \<Rightarrow>
               (case reply_reasons body of
                  Inl e \<Rightarrow> False
                | Inr reasons \<Rightarrow> list_all (\<lambda>r. \<not> startswith r (u ''omega_'')) reasons))
      | _ \<Rightarrow> False)"

lemma reports_decision_report:
  assumes "reply_reasons body = Inr reasons" "\<forall>r\<in>set reasons. \<not> fallback_reason r"
    and "key \<in> {''connector_response'', ''sgraph_connector_response''}"
  shows "reports_decision key (scenario_report key scn tr body)"
  using assms by (auto simp: reports_decision_def scenario_report_def fallback_reason_def list_all_iff)

text \<open>The contract of a scenario of a strict script: what it returns is a report that shows a decision.\<close>

locale strict_script =
  fixes run_one :: "transfer_env \<Rightarrow> scenario \<Rightarrow> json script"
    and key :: string
  assumes decides: "run_one env scn s = (Inr rep, s') \<Longrightarrow> reports_decision key rep"
begin

lemma all_decide:
  assumes "for_each (\<lambda>(i, scn). run_one (envs i) scn) (enumerate 0 scns) s = (Inr reps, s')"
  shows "length reps = length scns \<and> list_all (reports_decision key) reps"
proof -
  have steps: "list_all2 (\<lambda>x rep. \<exists>s1 s2. (case x of (i, scn) \<Rightarrow> run_one (envs i) scn) s1 = (Inr rep, s2)) (enumerate 0 scns) reps"
    by (rule for_each_Inr [OF assms])
  then have "list_all2 (\<lambda>x rep. reports_decision key rep) (enumerate 0 scns) reps"
    by (rule list_all2_mono) (auto dest: decides split: prod.splits)
  then have "length (enumerate 0 scns) = length reps" "list_all (reports_decision key) reps"
    by (auto simp: list_all2_conv_all_nth list_all_length)
  then show ?thesis by simp
qed

end

interpretation real_script: strict_script "real_scenario net A (args\<lparr>ea_strict := True\<rparr>)" "''connector_response''"
  for net A args
proof unfold_locales
  fix env scn s rep s'
  assume "real_scenario net A (args\<lparr>ea_strict := True\<rparr>) env scn s = (Inr rep, s')"
  then obtain tr x b s1 where "finish_scan ''connector'' ''connector_response'' True scn tr (x, b) s1 = (Inr rep, s')"
    by (auto simp: real_scenario_def real_scan_def exn_simps)
  from finish_scan_Inr [OF this] show "reports_decision ''connector_response'' rep"
    using reports_decision_report [of b _ "''connector_response''"] by auto
qed

interpretation upstream_script: strict_script "upstream_scenario net A (args\<lparr>ua_strict := True\<rparr>)" "''sgraph_connector_response''"
  for net A args
proof unfold_locales
  fix env scn s rep s'
  assume "upstream_scenario net A (args\<lparr>ua_strict := True\<rparr>) env scn s = (Inr rep, s')"
  then obtain tr x b s1 where "finish_scan ''sgraph connector'' ''sgraph_connector_response'' True scn tr (x, b) s1 = (Inr rep, s')"
    by (auto simp: upstream_scenario_def upstream_scan_def exn_simps)
  from finish_scan_Inr [OF this] show "reports_decision ''sgraph_connector_response'' rep"
    using reports_decision_report [of b _ "''sgraph_connector_response''"] by auto
qed

lemma length_build_scenarios: "build_scenarios docx = Inr scns \<Longrightarrow> length scns = 3"
  by (auto simp: build_scenarios_def bindE_eq_Inr)

section \<open>A whole run against an honest server\<close>

text \<open>The URLs of a transfer's requests.\<close>

definition transfer_urls :: "pystr \<Rightarrow> pystr \<Rightarrow> pystr list" where
  "transfer_urls base tid =
     map ((@) base) [u ''/api/transfers/create'', u ''/api/transfers/upload/'' @ tid,
       u ''/api/transfers/complete/'' @ tid, u ''/api/transfers/download/'' @ tid]"

lemma scenario_transfer:
  assumes honest: "honest_server net base" and aead: "aead_ok A" "aead_total A" and iv: "length (te_iv env) = 12"
    and scn: "build_scenarios docx = Inr scns" "scn \<in> set scns"
  obtains tr reqs where "transfer net A base token env scn s = (Inr tr, s @ reqs)" "text_ok (tr_id tr)"
    "map or_url reqs = transfer_urls base (tr_id tr)" "tr_downloaded tr = tr_encrypted tr"
    "tr_meta tr = JObj [(u ''filename'', JStr (sc_filename scn))]" "tr_content tr = sc_content scn"
proof -
  note m = build_scenarios_member [OF scn]
  obtain packed where packed: "package_with_sgmeta (sc_content scn) (sc_filename scn) = Inr packed"
    using package_scenario m by blast
  obtain c where "aead_encrypt A (te_key env) (te_iv env) packed = Inr c" using aead(2) unfolding aead_total_def by blast
  then have enc: "encrypt_like_sgraph_ui A (te_key env) (te_iv env) packed = Inr (te_key env, te_iv env @ c)"
    by (simp add: encrypt_like_sgraph_ui_def)
  have "json_text_ok (JObj [(u ''file_size_bytes'', JInt (int (length packed))), (u ''content_type_hint'', JStr (sc_mime scn))])"
    using m by simp
  then obtain cb where cb: "json_bytes (JObj [(u ''file_size_bytes'', JInt (int (length packed))),
      (u ''content_type_hint'', JStr (sc_mime scn))]) = Inr cb"
    using json_bytes_ok by blast
  obtain tid where tid: "text_ok tid" and t: "transfer net A base token env scn s =
       (Inr \<lparr>tr_id = tid, tr_encrypted = te_iv env @ c, tr_downloaded = te_iv env @ c,
             tr_meta = JObj [(u ''filename'', JStr (sc_filename scn))], tr_content = sc_content scn\<rparr>,
        s @ transfer_requests base token cb tid (te_iv env @ c))"
    using transfer_honest [OF honest aead(1) iv packed enc cb] by blast
  show ?thesis
    using that [OF t] tid by (simp add: transfer_requests_def transfer_urls_def)
qed

lemma scenario_texts:
  assumes "build_scenarios docx = Inr scns" "scn \<in> set scns"
  shows "text_ok (sc_name scn)" "text_ok (sc_filename scn)" "text_ok (sc_mime scn)"
  using build_scenarios_member [OF assms] by auto

lemma real_scenario_posts:
  assumes honest: "honest_server net (sgraph_base (ea_base_url args))" and aead: "aead_ok A" "aead_total A"
    and ok: "args_ok args" "env_plain env" and scn: "build_scenarios docx = Inr scns" "scn \<in> set scns"
  obtains body hs r tr reqs where
    "signed_post (ea_hmac_secret args) (ea_connector_path args) (te_now env) (te_nonce env) body hs r"
    "rq_tenant_id r = ea_tenant_id args" "rq_filename r = Some (sc_filename scn)"
    "rq_file_base64 r = Some (b64_encode False (sc_content scn))"
    "map or_url reqs = transfer_urls (sgraph_base (ea_base_url args)) (tr_id tr)" "tr_downloaded tr = tr_encrypted tr"
    "real_scenario net A args env scn s =
       bindS (liftE (json_reply (net (s @ reqs @ [connector_post args hs body]))))
         (finish_scan ''connector'' ''connector_response'' (ea_strict args) scn tr) (s @ reqs @ [connector_post args hs body])"
proof -
  have iv: "length (te_iv env) = 12" using ok(2) by (simp add: env_plain_def)
  obtain tr reqs where t: "transfer net A (sgraph_base (ea_base_url args)) (ea_token args) env scn s = (Inr tr, s @ reqs)"
    "text_ok (tr_id tr)" "map or_url reqs = transfer_urls (sgraph_base (ea_base_url args)) (tr_id tr)"
    "tr_downloaded tr = tr_encrypted tr" "tr_meta tr = JObj [(u ''filename'', JStr (sc_filename scn))]"
    "tr_content tr = sc_content scn"
    by (rule scenario_transfer [OF honest aead iv scn])
  obtain body hs r where post: "signed_post (ea_hmac_secret args) (ea_connector_path args) (te_now env) (te_nonce env) body hs r"
    "rq_tenant_id r = ea_tenant_id args" "rq_filename r = Some (sc_filename scn)"
    "rq_file_base64 r = Some (b64_encode False (tr_content tr))"
    "real_scan net args env scn tr (s @ reqs) =
       bindS (liftE (json_reply (net ((s @ reqs) @ [connector_post args hs body]))))
         (finish_scan ''connector'' ''connector_response'' (ea_strict args) scn tr) ((s @ reqs) @ [connector_post args hs body])"
    by (rule real_scan_posts [OF ok _ t(2) scenario_texts [OF scn]])
      (rule t(5) [THEN arg_cong, of "\<lambda>m. filename_of m scn", unfolded filename_of_package])
  have "real_scenario net A args env scn s = real_scan net args env scn tr (s @ reqs)"
    by (simp add: real_scenario_def bindS_def t(1))
  then show ?thesis using that [OF post(1-3) _ t(3,4)] post(4,5) t(6) by simp
qed

text \<open>The same for the script over SGraph's own route, whose request is not signed.\<close>

lemma upstream_scenario_posts:
  assumes honest: "honest_server net (sgraph_base (ua_base_url args))" and aead: "aead_ok A" "aead_total A"
    and ok: "plain_text (ua_tenant_id args)" "env_plain env" and scn: "build_scenarios docx = Inr scns" "scn \<in> set scns"
  obtains q tr s' where "or_url q = sgraph_base (ua_base_url args) @ ua_scan_path args"
    "upstream_scenario net A args env scn s =
       bindS (liftE (json_reply (net (s' @ [q]))))
         (finish_scan ''sgraph connector'' ''sgraph_connector_response'' (ua_strict args) scn tr) (s' @ [q])"
proof -
  have iv: "length (te_iv env) = 12" using ok(2) by (simp add: env_plain_def)
  obtain tr reqs where t: "transfer net A (sgraph_base (ua_base_url args)) (ua_token args) env scn s = (Inr tr, s @ reqs)"
    "text_ok (tr_id tr)" "tr_meta tr = JObj [(u ''filename'', JStr (sc_filename scn))]"
    by (rule scenario_transfer [OF honest aead iv scn])
  note texts = scenario_texts [OF scn]
  let ?rid = "u ''sgraph-upstream-'' @ sc_name scn @ u ''-'' @ take 10 (te_uuid_hex env)"
  let ?md = "[(u ''flow'', JStr (u ''sgraph-route-to-connector'')), (u ''sgraph_transfer_id'', JStr (tr_id tr)),
      (u ''scenario'', JStr (sc_name scn))]"
  let ?kvs = "hook_payload (ua_tenant_id args) ?rid (sc_filename scn) (sc_mime scn) (tr_content tr) ?md"
  have "plain_text ?rid"
    by (rule plain_request_id) (use ok(2) texts(1) in \<open>simp_all add: env_plain_def uuid_text\<close>)
  then have "ua_tenant_id args \<noteq> []" "text_ok (ua_tenant_id args)" "text_ok ?rid"
    using ok(1) by (auto simp: plain_text_def)
  then have "json_text_ok (JObj ?kvs)" by (intro file_payload texts) (use t(2) texts in simp_all)
  then obtain body where body: "json_bytes (JObj ?kvs) = Inr body" using json_bytes_ok by blast
  let ?q = "\<lparr>or_method = u ''POST'', or_url = sgraph_base (ua_base_url args) @ ua_scan_path args,
      or_headers = json_headers (ua_token args), or_body = Some body\<rparr>"
  have "scan_payload ''sgraph-upstream-'' ''sgraph-route-to-connector'' (ua_tenant_id args) env scn tr = Inr ?kvs"
    by (simp add: scan_payload_def t(3) filename_of_package)
  then have "upstream_scenario net A args env scn s =
       bindS (liftE (json_reply (net ((s @ reqs) @ [?q]))))
         (finish_scan ''sgraph connector'' ''sgraph_connector_response'' (ua_strict args) scn tr) ((s @ reqs) @ [?q])"
    by (simp add: upstream_scenario_def upstream_scan_def bindS_def liftE_def http_json_def t(1) body send_def
        del: json_dumps.simps append_assoc)
  then show ?thesis by (rule that [rotated]) simp
qed

text \<open>A server that answers every scan with 200 and a decision without fallback reasons.\<close>

definition answers_scans :: "network \<Rightarrow> pystr \<Rightarrow> bool" where
  "answers_scans net url \<longleftrightarrow>
     (\<forall>h r. or_url r = url \<longrightarrow>
        (\<exists>body reasons. json_reply (net (h @ [r])) = Inr (200, body) \<and> reply_reasons body = Inr reasons \<and>
           (\<forall>x\<in>set reasons. \<not> fallback_reason x)))"

lemma finish_scan_ok:
  assumes "reply_reasons body = Inr reasons" "\<forall>x\<in>set reasons. \<not> fallback_reason x"
  shows "finish_scan what key strict scn tr (200, body) s = (Inr (scenario_report key scn tr body), s)"
  using assms by (simp add: finish_scan_def check_fallback_def bindS_def liftE_def filter_False)

lemma finish_answered:
  assumes "answers_scans net url" "or_url q = url"
  shows "\<exists>rep s'. bindS (liftE (json_reply (net (s @ [q])))) (finish_scan what key strict scn tr) s'' = (Inr rep, s')"
proof -
  obtain b reasons where "json_reply (net (s @ [q])) = Inr (200, b)"
    "reply_reasons b = Inr reasons" "\<forall>x\<in>set reasons. \<not> fallback_reason x"
    using assms unfolding answers_scans_def by blast
  then show ?thesis using finish_scan_ok by (simp add: bindS_def liftE_def)
qed

lemma real_scenario_passes:
  assumes "honest_server net (sgraph_base (ea_base_url args))" "aead_ok A" "aead_total A" "args_ok args" "env_plain env"
    "build_scenarios docx = Inr scns" "scn \<in> set scns" and answers: "answers_scans net (connector_url args)"
  shows "\<exists>rep s'. real_scenario net A args env scn s = (Inr rep, s')"
proof -
  obtain body hs tr reqs where r: "real_scenario net A args env scn s =
       bindS (liftE (json_reply (net (s @ reqs @ [connector_post args hs body]))))
         (finish_scan ''connector'' ''connector_response'' (ea_strict args) scn tr) (s @ reqs @ [connector_post args hs body])"
    using real_scenario_posts [OF assms(1-7)] by metis
  have "or_url (connector_post args hs body) = connector_url args" by (simp add: connector_post_def)
  from finish_answered [OF answers this] show ?thesis unfolding r append_assoc [symmetric] by blast
qed

lemma upstream_scenario_passes:
  assumes "honest_server net (sgraph_base (ua_base_url args))" "aead_ok A" "aead_total A"
    "plain_text (ua_tenant_id args)" "env_plain env" "build_scenarios docx = Inr scns" "scn \<in> set scns"
    and answers: "answers_scans net (sgraph_base (ua_base_url args) @ ua_scan_path args)"
  shows "\<exists>rep s'. upstream_scenario net A args env scn s = (Inr rep, s')"
proof -
  obtain q tr s' where r: "or_url q = sgraph_base (ua_base_url args) @ ua_scan_path args"
    "upstream_scenario net A args env scn s =
       bindS (liftE (json_reply (net (s' @ [q]))))
         (finish_scan ''sgraph connector'' ''sgraph_connector_response'' (ua_strict args) scn tr) (s' @ [q])"
    by (rule upstream_scenario_posts [OF assms(1-7)])
  show ?thesis using finish_answered [OF answers r(1)] unfolding r(2) by blast
qed


lemma build_scenarios_ok: "\<exists>scns. build_scenarios docx = Inr scns"
  using encodeE_scalar [of "u ''<!doctype html><html><head><meta charset='utf-8'><title>SGraph E2E</title></head>'' @
      u ''<body><h1>Sample</h1><p>'' @ u ''Project status: green. Next steps: sync roadmap and publish release notes.'' @ u ''</p></body></html>''"]
    text_ok_u by (simp add: build_scenarios_def build_html_bytes_def text_ok_def ball_Un bindE_eq_Inr)

lemma for_scenarios_ok:
  assumes "\<And>i scn s. scn \<in> set scns \<Longrightarrow> \<exists>rep s'. f i scn s = (Inr rep, s')"
  shows "\<exists>ys s'. for_each (\<lambda>(i, scn). f i scn) (enumerate 0 scns) s = (Inr ys, s')"
proof (rule for_each_ok)
  fix x s
  assume mem: "x \<in> set (enumerate 0 scns)"
  obtain i scn where x: "x = (i, scn)" by (cases x)
  have "scn \<in> set scns" using mem unfolding x enumerate_eq_zip by (rule set_zip_rightD)
  then show "\<exists>y s'. (case x of (i, scn) \<Rightarrow> f i scn) s = (Inr y, s')" using assms x by simp
qed

lemma real_run_ok:
  assumes "honest_server net (sgraph_base (ea_base_url args))" "aead_ok A" "aead_total A" "args_ok args"
    and "\<And>i. env_plain (envs i)" "answers_scans net (connector_url args)"
  shows "\<exists>rep s'. real_run net A docx args envs s = (Inr rep, s')"
proof -
  obtain scns where scns: "build_scenarios docx = Inr scns" using build_scenarios_ok by blast
  obtain ys s' where "for_each (\<lambda>(i, scn). real_scenario net A args (envs i) scn) (enumerate 0 scns) s = (Inr ys, s')"
    using for_scenarios_ok [of scns "\<lambda>i. real_scenario net A args (envs i)" s] real_scenario_passes [OF assms(1-5) scns _ assms(6)] by blast
  then show ?thesis by (simp add: real_run_def bindS_def liftE_def scns)
qed

lemma upstream_run_ok:
  assumes "honest_server net (sgraph_base (ua_base_url args))" "aead_ok A" "aead_total A" "plain_text (ua_tenant_id args)"
    and "\<And>i. env_plain (envs i)" "answers_scans net (sgraph_base (ua_base_url args) @ ua_scan_path args)"
  shows "\<exists>rep s'. upstream_run net A docx args envs s = (Inr rep, s')"
proof -
  obtain scns where scns: "build_scenarios docx = Inr scns" using build_scenarios_ok by blast
  obtain ys s' where "for_each (\<lambda>(i, scn). upstream_scenario net A args (envs i) scn) (enumerate 0 scns) s = (Inr ys, s')"
    using for_scenarios_ok [of scns "\<lambda>i. upstream_scenario net A args (envs i)" s] upstream_scenario_passes [OF assms(1-5) scns _ assms(6)] by blast
  then show ?thesis by (simp add: upstream_run_def bindS_def liftE_def scns)
qed

section \<open>A concrete network\<close>

text \<open>A server that keeps what it is sent.\<close>

definition demo_created :: bytes where
  "demo_created = ascii (u ''{\"transfer_id\":\"t1\"}'')"

definition demo_decision :: bytes where
  "demo_decision = ascii (u ''{\"verdict\":\"block\",\"reasons\":[\"exfiltration\"]}'')"

definition demo_net :: "pystr \<Rightarrow> network" where
  "demo_net base h =
     (let url = or_url (last h); stored = u ''/api/transfers/download/'' in
      if url = base @ u ''/api/transfers/create'' then Reply 200 demo_created
      else if startswith url (base @ stored) then
        (case last_body (base @ u ''/api/transfers/upload/'' @ drop (length (base @ stored)) url) (butlast h) of
           None \<Rightarrow> HttpErr 404 [] | Some b \<Rightarrow> Reply 200 b)
      else if startswith url (base @ u ''/api/transfers/'') then Reply 200 []
      else Reply 200 demo_decision)"

lemma startswith_same: "startswith (base @ s) (base @ p) \<longleftrightarrow> startswith s p"
  by (induction base) auto

lemma u_append_Cons: "u (c # cs) @ s = of_char c # (u cs @ s)"
  by (simp add: u_Cons)

lemma demo_created: "json_reply (Reply 200 demo_created) = Inr (200, JObj [(u ''transfer_id'', JStr (u ''t1''))])"
  by code_simp

lemma demo_decision: "json_reply (Reply 200 demo_decision) =
    Inr (200, JObj [(u ''verdict'', JStr (u ''block'')), (u ''reasons'', JArr [JStr (u ''exfiltration'')])])"
  by code_simp

lemma startswith_u:
  assumes "n \<le> length a" "n \<le> length b" "take n a \<noteq> take n b"
  shows "\<not> startswith (u a @ s) (u b)"
  using u_append_neq [OF assms] by (auto simp: startswith_iff)

lemma startswith_api: "startswith (u ''/api/transfers/'' @ s) (u ''/api/transfers/'')"
  by simp

lemma demo_honest: "honest_server (demo_net base) base"
proof -
  have no: "\<not> startswith (u ''/api/transfers/upload/'' @ t) (u ''/api/transfers/download/'')"
    "\<not> startswith (u ''/api/transfers/complete/'' @ t) (u ''/api/transfers/download/'')" for t
    by (rule startswith_u [of 16]; simp)+
  have api: "startswith (u ''/api/transfers/upload/'' @ t) (u ''/api/transfers/'')"
    "startswith (u ''/api/transfers/complete/'' @ t) (u ''/api/transfers/'')" for t
    using startswith_api [of "u ''upload/'' @ t"] startswith_api [of "u ''complete/'' @ t"]
    by (simp_all flip: append_assoc u_append)
  have ne: "u ''/api/transfers/upload/'' @ t \<noteq> u ''/api/transfers/create''"
    "u ''/api/transfers/complete/'' @ t \<noteq> u ''/api/transfers/create''"
    "u ''/api/transfers/download/'' @ t \<noteq> u ''/api/transfers/create''" for t
    using u_append_neq [of 17 "''/api/transfers/upload/''" "''/api/transfers/create''" t "[]"]
      u_append_neq [of 17 "''/api/transfers/complete/''" "''/api/transfers/create''" t "[]"]
      u_append_neq [of 17 "''/api/transfers/download/''" "''/api/transfers/create''" t "[]"]
    by simp_all
  have empty: "json_reply (Reply 200 []) = Inr (200, JObj [])" by code_simp
  have tid: "str_field [(u ''transfer_id'', JStr (u ''t1''))] ''transfer_id'' = u ''t1''" by code_simp
  show ?thesis
    unfolding honest_server_def demo_net_def
    by (auto simp: Let_def startswith_same no api ne empty demo_created tid)
qed

definition demo_args :: e2e_args where
  "demo_args = parse_real_args (\<lambda>_. None) False"

definition demo_upstream_args :: upstream_args where
  "demo_upstream_args = parse_upstream_args (\<lambda>_. None) False"

definition demo_tenv :: transfer_env where
  "demo_tenv = \<lparr>te_key = [1, 2, 3], te_iv = replicate 12 7, te_uuid_hex = u ''0123456789abcdef'', te_now = 1000, te_nonce = u ''n1''\<rparr>"

lemma demo_args_ok: "args_ok demo_args"
  by code_simp

lemma demo_tenv_plain: "env_plain demo_tenv"
proof -
  have "plain_text (u ''n1'')" "\<forall>c\<in>set (u ''0123456789abcdef''). \<not> is_space c \<and> scalar c" by code_simp+
  then show ?thesis by (simp add: env_plain_def demo_tenv_def trunc_nonneg)
qed

abbreviation demo_base :: pystr where
  "demo_base \<equiv> sgraph_base (ea_base_url demo_args)"

lemma demo_answers_url:
  assumes url: "url \<noteq> demo_base @ u ''/api/transfers/create''"
    "\<not> startswith url (demo_base @ u ''/api/transfers/download/'')" "\<not> startswith url (demo_base @ u ''/api/transfers/'')"
  shows "answers_scans (demo_net demo_base) url"
proof -
  have r: "reply_reasons (JObj [(u ''verdict'', JStr (u ''block'')), (u ''reasons'', JArr [JStr (u ''exfiltration'')])]) =
      Inr [u ''exfiltration'']" "\<not> fallback_reason (u ''exfiltration'')" by code_simp+
  have "json_reply (demo_net demo_base (h @ [x])) =
      Inr (200, JObj [(u ''verdict'', JStr (u ''block'')), (u ''reasons'', JArr [JStr (u ''exfiltration'')])])"
    if "or_url x = url" for h x
    using url that demo_decision by (simp add: demo_net_def Let_def)
  with r show ?thesis unfolding answers_scans_def by fastforce
qed

lemma demo_answers: "answers_scans (demo_net demo_base) (connector_url demo_args)"
  by (rule demo_answers_url; code_simp)

lemma demo_upstream_facts:
  "sgraph_base (ua_base_url demo_upstream_args) = demo_base" "plain_text (ua_tenant_id demo_upstream_args)"
  by code_simp+

lemma demo_answers_upstream: "answers_scans (demo_net demo_base) (demo_base @ ua_scan_path demo_upstream_args)"
  by (rule demo_answers_url; code_simp)

lemma demo_real_run:
  "\<exists>rep s'. real_run (demo_net demo_base) demo_aead docx demo_args (\<lambda>_. demo_tenv) s = (Inr rep, s')"
  by (rule real_run_ok [OF demo_honest demo_aead demo_args_ok demo_tenv_plain demo_answers])

lemma demo_upstream_run:
  "\<exists>rep s'. upstream_run (demo_net demo_base) demo_aead docx demo_upstream_args (\<lambda>_. demo_tenv) s = (Inr rep, s')"
  by (rule upstream_run_ok)
    (simp_all add: demo_upstream_facts demo_honest demo_aead demo_tenv_plain demo_answers_upstream)

section \<open>Properties\<close>



text \<open>The scripts pass when they should: against such a server and a connector that answers every
  scan with 200 and no fallback reason, the whole run over the three scenarios returns a report,
  strict or not.\<close>

theorem real_run_returns:
  assumes "honest_server net (sgraph_base (ea_base_url args))" "aead_ok A" "aead_total A" "args_ok args"
    and "\<forall>i. env_plain (envs i)" "answers_scans net (connector_url args)"
  shows "\<exists>rep. fst (real_run net A docx args envs s) = Inr rep"
  using real_run_ok [OF assms(1-4) _ assms(6)] assms(5) by (metis fst_conv)

theorem real_run_returns_witness:
  "\<exists>rep. fst (real_run (demo_net demo_base) demo_aead (\<lambda>_. []) demo_args (\<lambda>_. demo_tenv) []) = Inr rep"
  by (rule real_run_returns [OF demo_honest demo_aead demo_args_ok _ demo_answers]) (simp add: demo_tenv_plain)

text \<open>Strict runs hide no fallback: when either script returns a report with \<open>--allow-fallback\<close> not
  given, the report has one entry per scenario, and each shows the reply of a scan none of whose
  reasons starts with \<open>omega_\<close>, the prefix of every fallback reason of the connector.\<close>

theorem strict_runs_report_decisions:
  assumes "ea_strict rargs" "ua_strict uargs"
    and "fst (real_run net A docx rargs envs s) = Inr rrep" "fst (upstream_run net A docx uargs envs s) = Inr urep"
  shows "(\<exists>kvs reps. rrep = JObj kvs \<and> map_of kvs (u ''scenarios'') = Some (JArr reps) \<and> length reps = 3 \<and>
      list_all (reports_decision ''connector_response'') reps) \<and>
    (\<exists>kvs reps. urep = JObj kvs \<and> map_of kvs (u ''scenarios'') = Some (JArr reps) \<and> length reps = 3 \<and>
      list_all (reports_decision ''sgraph_connector_response'') reps)"
proof -
  obtain rs us where runs: "real_run net A docx rargs envs s = (Inr rrep, rs)"
    "upstream_run net A docx uargs envs s = (Inr urep, us)"
    using assms(3,4) by (metis prod.collapse)
  obtain scns reps s1 where r: "build_scenarios docx = Inr scns"
    "for_each (\<lambda>(i, scn). real_scenario net A rargs (envs i) scn) (enumerate 0 scns) s = (Inr reps, s1)"
    "map_of (case rrep of JObj kvs \<Rightarrow> kvs | _ \<Rightarrow> []) (u ''scenarios'') = Some (JArr reps)" "\<exists>kvs. rrep = JObj kvs"
    using runs(1) by (auto simp: real_run_def exn_simps)
  obtain scns' reps' s2 where q: "build_scenarios docx = Inr scns'"
    "for_each (\<lambda>(i, scn). upstream_scenario net A uargs (envs i) scn) (enumerate 0 scns') s = (Inr reps', s2)"
    "map_of (case urep of JObj kvs \<Rightarrow> kvs | _ \<Rightarrow> []) (u ''scenarios'') = Some (JArr reps')" "\<exists>kvs. urep = JObj kvs"
    using runs(2) by (auto simp: upstream_run_def exn_simps)
  have strict: "rargs = rargs\<lparr>ea_strict := True\<rparr>" "uargs = uargs\<lparr>ua_strict := True\<rparr>" using assms(1,2) by simp_all
  have "length reps = 3 \<and> list_all (reports_decision ''connector_response'') reps"
    using real_script.all_decide [of net A rargs envs scns s reps s1] r(2) strict(1) length_build_scenarios [OF r(1)] by simp
  moreover have "length reps' = 3 \<and> list_all (reports_decision ''sgraph_connector_response'') reps'"
    using upstream_script.all_decide [of net A uargs envs scns' s reps' s2] q(2) strict(2) length_build_scenarios [OF q(1)] by simp
  ultimately show ?thesis using r(3,4) q(3,4) by auto
qed

theorem strict_runs_report_decisions_witness:
  "\<exists>rrep urep reps. fst (real_run (demo_net demo_base) demo_aead (\<lambda>_. []) demo_args (\<lambda>_. demo_tenv) []) = Inr rrep \<and>
     fst (upstream_run (demo_net demo_base) demo_aead (\<lambda>_. []) demo_upstream_args (\<lambda>_. demo_tenv) []) = Inr urep \<and>
     list_all (reports_decision ''connector_response'') reps \<and> length reps = 3"
proof -
  have flags: "ea_strict demo_args" "ua_strict demo_upstream_args" by code_simp+
  obtain rrep urep where "fst (real_run (demo_net demo_base) demo_aead (\<lambda>_. []) demo_args (\<lambda>_. demo_tenv) []) = Inr rrep"
    "fst (upstream_run (demo_net demo_base) demo_aead (\<lambda>_. []) demo_upstream_args (\<lambda>_. demo_tenv) []) = Inr urep"
    using demo_real_run demo_upstream_run by (metis fst_conv)
  with strict_runs_report_decisions [OF flags this] show ?thesis by blast
qed

end
