(* ===== verification/Body_Probes.thy ===== *)
theory Body_Probes
  imports Script_Http "HOL-Library.While_Combinator"
begin

text \<open>
  The two scripts that probe the size limit of the connector's entry:
  \<open>scripts/e2e_connector_body_limit_probe.py\<close> (a list of sizes from the command line) and
  \<open>scripts/e2e_connector_boundary_20mb.py\<close> (three sizes around 20 MB).  Both post a generated file
  signed by \<open>signature_helper.py\<close> and tabulate the answers.
\<close>

record probe_args =
  pa_base_url :: pystr
  pa_path :: pystr
  pa_api_key :: pystr
  pa_hmac_secret :: pystr
  pa_tenant_id :: pystr
  pa_sizes :: pystr

record probe_env =
  pe_uuid_hex :: pystr
  pe_now :: real
  pe_nonce :: pystr

section \<open>Generated files\<close>

text \<open>The loop of \<open>_mk_bytes\<close>: append the seed until there are enough bytes.\<close>

definition fill_loop :: "bytes \<Rightarrow> int \<Rightarrow> bytes option" where
  "fill_loop seed sz = while_option (\<lambda>out. int (length out) < sz) (\<lambda>out. out @ seed) []"

definition mk_bytes :: "bytes \<Rightarrow> int \<Rightarrow> bytes" where
  "mk_bytes seed sz =
     take (nat sz) (while (\<lambda>out. int (length out) < sz) (\<lambda>out. out @ seed) [])"

definition probe_seed :: bytes where
  "probe_seed = map byte_of (u ''SGraphOmegaConnectorBodyLimitProbe'')"

definition boundary_seed :: bytes where
  "boundary_seed = map byte_of (u ''SGraphOmegaConnectorBoundary20MB'')"

definition probe_mk_bytes :: "int \<Rightarrow> bytes" where
  "probe_mk_bytes = mk_bytes probe_seed"

definition boundary_mk_bytes :: "int \<Rightarrow> bytes" where
  "boundary_mk_bytes = mk_bytes boundary_seed"

section \<open>The body limit probe\<close>

definition looks_like_nginx_413 :: "json \<Rightarrow> exn + bool" where
  "looks_like_nginx_413 response =
     bindE (py_get response ''raw'' (JStr [])) (\<lambda>v.
       (let raw = py_str v in
        Inr (contains raw (u ''413 Request Entity Too Large'') \<and> contains raw (u ''nginx/''))))"

fun int_chunks :: "pystr list \<Rightarrow> exn + int list" where
  "int_chunks [] = Inr []"
| "int_chunks (chunk # chunks) =
     (let item = strip chunk in
      if item = [] then int_chunks chunks
      else (case py_int_str item of
              None \<Rightarrow> Inl ValueError
            | Some n \<Rightarrow> bindE (int_chunks chunks) (\<lambda>ns. Inr (n # ns))))"

definition parse_sizes :: "pystr \<Rightarrow> exn + int list" where
  "parse_sizes raw =
     bindE (int_chunks (split_on 44 raw)) (\<lambda>values. if values = [] then Inl ValueError else Inr values)"

definition parse_limit_args :: "(string \<Rightarrow> pystr option) \<Rightarrow> probe_args" where
  "parse_limit_args given =
     \<lparr>pa_base_url = opt_default given ''--base-url'' ''https://localhost:8088'',
      pa_path = opt_default given ''--path'' ''/v1/scan/attachment'',
      pa_api_key = opt_default given ''--api-key'' ''local-connector-key'',
      pa_hmac_secret = opt_default given ''--hmac-secret'' ''local-connector-hmac'',
      pa_tenant_id = opt_default given ''--tenant-id'' ''tenant-body-limit-probe'',
      pa_sizes = opt_default given ''--sizes'' ''655360,786432,1048576,2097152,5242880''\<rparr>"

text \<open>One signed post; both scripts build their payload and send it this way.\<close>

definition post_signed_file ::
  "network \<Rightarrow> probe_args \<Rightarrow> probe_env \<Rightarrow> jobj \<Rightarrow> (int \<times> json \<times> int) script" where
  "post_signed_file net args env payload =
     bindS (liftE (build_headers (pa_hmac_secret args) (pa_api_key args) (pa_path args) payload
              (pe_now env) (pe_nonce env))) (\<lambda>hs.
       post_json_len net (rstrip_char 47 (pa_base_url args) @ pa_path args) (JObj payload) hs)"

definition limit_payload :: "probe_args \<Rightarrow> probe_env \<Rightarrow> int \<Rightarrow> jobj" where
  "limit_payload args env file_size =
     hook_payload (pa_tenant_id args)
       (u ''body-limit-'' @ py_str_int file_size @ u ''-'' @ take 8 (pe_uuid_hex env))
       (u ''probe-'' @ py_str_int file_size @ u ''.bin'') (u ''application/octet-stream'')
       (probe_mk_bytes file_size) [(u ''suite'', JStr (u ''body_limit_probe''))]"

definition limit_probe :: "network \<Rightarrow> probe_args \<Rightarrow> probe_env \<Rightarrow> int \<Rightarrow> json script" where
  "limit_probe net args env file_size =
     bindS (post_signed_file net args env (limit_payload args env file_size)) (\<lambda>(status, response, body_len).
     bindS (liftE (if status = 413 then looks_like_nginx_413 response else Inr False)) (\<lambda>nginx.
       liftE (Inr (JObj [(u ''file_size_bytes'', JInt file_size), (u ''request_body_bytes'', JInt body_len),
         (u ''http_status'', JInt status), (u ''looks_like_nginx_413'', JBool nginx),
         (u ''response'', response)]))))"

definition limit_run :: "network \<Rightarrow> probe_args \<Rightarrow> (nat \<Rightarrow> probe_env) \<Rightarrow> json list script" where
  "limit_run net args envs =
     bindS (liftE (parse_sizes (pa_sizes args))) (\<lambda>sizes.
       for_each (\<lambda>(i, sz). limit_probe net args (envs i) sz) (enumerate 0 sizes))"

section \<open>The 20 MB boundary\<close>

definition boundary_post_json :: "network \<Rightarrow> pystr \<Rightarrow> json \<Rightarrow> headers \<Rightarrow> (int \<times> json \<times> int) script" where
  "boundary_post_json = post_json_len"

definition file_sizes :: "(pystr \<times> int) list" where
  "file_sizes =
     (let mb20 = 20 * 1024 * 1024 in
      [(u ''file_boundary_minus_1k'', mb20 - 1024), (u ''file_boundary_exact_20mb'', mb20),
       (u ''file_boundary_plus_1k'', mb20 + 1024)])"

definition parse_boundary_args :: "(string \<Rightarrow> pystr option) \<Rightarrow> probe_args" where
  "parse_boundary_args given =
     \<lparr>pa_base_url = opt_default given ''--base-url'' ''https://localhost:8088'',
      pa_path = opt_default given ''--path'' ''/v1/scan/attachment'',
      pa_api_key = opt_default given ''--api-key'' ''local-connector-key'',
      pa_hmac_secret = opt_default given ''--hmac-secret'' ''local-connector-hmac'',
      pa_tenant_id = opt_default given ''--tenant-id'' ''tenant-boundary-20mb'', pa_sizes = []\<rparr>"

definition boundary_payload :: "probe_args \<Rightarrow> probe_env \<Rightarrow> pystr \<Rightarrow> int \<Rightarrow> jobj" where
  "boundary_payload args env name sz =
     hook_payload (pa_tenant_id args) (name @ u ''-'' @ take 8 (pe_uuid_hex env)) (name @ u ''.bin'')
       (u ''application/octet-stream'') (boundary_mk_bytes sz)
       [(u ''suite'', JStr (u ''boundary_20mb_via_connector''))]"

definition boundary_probe :: "network \<Rightarrow> probe_args \<Rightarrow> probe_env \<Rightarrow> pystr \<times> int \<Rightarrow> json script" where
  "boundary_probe net args env scenario =
     (case scenario of (name, sz) \<Rightarrow>
        (let payload = boundary_payload args env name sz in
         bindS (liftE (build_headers (pa_hmac_secret args) (pa_api_key args) (pa_path args) payload
                  (pe_now env) (pe_nonce env))) (\<lambda>hs.
         bindS (boundary_post_json net (rstrip_char 47 (pa_base_url args) @ pa_path args) (JObj payload) hs)
           (\<lambda>(status, response, body_len).
             liftE (Inr (JObj [(u ''scenario'', JStr name), (u ''file_size_bytes'', JInt sz),
               (u ''request_body_bytes'', JInt body_len), (u ''http_status'', JInt status),
               (u ''response'', response)]))))))"

definition boundary_run :: "network \<Rightarrow> probe_args \<Rightarrow> (nat \<Rightarrow> probe_env) \<Rightarrow> json list script" where
  "boundary_run net args envs =
     for_each (\<lambda>(i, scenario). boundary_probe net args (envs i) scenario) (enumerate 0 file_sizes)"

section \<open>Facts about the generated files\<close>

text \<open>The reference: the bytes of the seed over and over.\<close>

definition cycled :: "bytes \<Rightarrow> nat \<Rightarrow> bytes" where
  "cycled seed n = map (\<lambda>i. seed ! (i mod length seed)) [0..<n]"

definition copies :: "bytes \<Rightarrow> nat \<Rightarrow> bytes" where
  "copies seed k = concat (replicate k seed)"

lemma length_copies [simp]: "length (copies seed k) = k * length seed"
  by (simp add: copies_def length_concat sum_list_replicate)

lemma copies_Suc: "copies seed (Suc k) = copies seed k @ seed"
  unfolding copies_def by (induction k) simp_all

lemma nth_copies: "i < k * length seed \<Longrightarrow> copies seed k ! i = seed ! (i mod length seed)"
proof (induction k arbitrary: i)
  case (Suc k)
  show ?case
  proof (cases "i < k * length seed")
    case True
    then show ?thesis using Suc.IH by (simp add: copies_Suc nth_append)
  next
    case False
    then obtain j where j: "i = k * length seed + j" "j < length seed"
      using Suc.prems by (metis add.commute le_Suc_ex linorder_not_less mult_Suc nat_add_left_cancel_less)
    then show ?thesis by (simp add: copies_Suc nth_append)
  qed
qed simp

lemma take_copies:
  assumes "n \<le> k * length seed"
  shows "take n (copies seed k) = cycled seed n"
  by (rule nth_equalityI) (use assms in \<open>auto simp: cycled_def nth_copies\<close>)

text \<open>The loop ends after \<open>k\<close> rounds, the least number that gives enough bytes.\<close>

lemma fill_loop_copies:
  assumes "seed \<noteq> []"
  shows "\<exists>k. fill_loop seed sz = Some (copies seed k) \<and> sz \<le> int (k * length seed) \<and>
    (k \<noteq> 0 \<longrightarrow> int ((k - 1) * length seed) < sz)"
proof -
  let ?b = "\<lambda>out :: bytes. int (length out) < sz" and ?c = "\<lambda>out. out @ seed"
  define P where "P out \<longleftrightarrow> (\<exists>k. out = copies seed k \<and> (k \<noteq> 0 \<longrightarrow> int ((k - 1) * length seed) < sz))" for out
  have step: "P out \<Longrightarrow> ?b out \<Longrightarrow> P (?c out)" for out
    unfolding P_def by (metis copies_Suc diff_Suc_1 length_copies)
  have init: "P []" unfolding P_def by (intro exI [of _ 0]) (simp add: copies_def)
  have "length (?c out) > length out" for out using assms by simp
  then have "\<exists>out. while_option ?b ?c [] = Some out"
    by (intro measure_while_option_Some [of P ?b ?c "\<lambda>out. nat (sz - int (length out))"] init conjI step) auto
  then obtain out where out: "while_option ?b ?c [] = Some out" by blast
  from while_option_rule [OF step out init] obtain k where k: "out = copies seed k"
    "k \<noteq> 0 \<longrightarrow> int ((k - 1) * length seed) < sz" unfolding P_def by blast
  moreover have "\<not> ?b out" by (rule while_option_stop [OF out])
  ultimately show ?thesis using out by (auto simp: fill_loop_def)
qed

lemma mk_bytes_cycled:
  assumes "seed \<noteq> []"
  shows "mk_bytes seed sz = cycled seed (nat sz)"
proof -
  obtain k where k: "fill_loop seed sz = Some (copies seed k)" "sz \<le> int (k * length seed)"
    using fill_loop_copies [OF assms] by blast
  then have "mk_bytes seed sz = take (nat sz) (copies seed k)"
    by (simp add: mk_bytes_def while_def fill_loop_def)
  then show ?thesis using k(2) by (simp add: take_copies nat_le_iff)
qed

lemma seeds [simp]: "probe_seed \<noteq> []" "boundary_seed \<noteq> []"
  by (simp_all add: probe_seed_def boundary_seed_def)

lemma fill_loop_empty_seed: "fill_loop [] sz = None \<longleftrightarrow> 0 < sz"
proof (cases "0 < sz")
  case True
  have "fill_loop [] sz \<noteq> Some out" for out
  proof
    assume "fill_loop [] sz = Some out"
    then have o: "while_option (\<lambda>out :: bytes. int (length out) < sz) (\<lambda>out. out @ []) [] = Some out"
      by (simp add: fill_loop_def)
    have "out = []" by (rule while_option_rule [OF _ o]) simp_all
    moreover have "\<not> int (length out) < sz" by (rule while_option_stop [OF o])
    ultimately show False using True by simp
  qed
  with True show ?thesis by (cases "fill_loop [] sz") auto
next
  case False
  then have "fill_loop [] sz = Some []" unfolding fill_loop_def by (subst while_option_unfold) simp
  with False show ?thesis by simp
qed

section \<open>Facts about the sizes\<close>

lemma split_commas:
  "ss \<noteq> [] \<Longrightarrow> (\<forall>s\<in>set ss. 44 \<notin> set s) \<Longrightarrow> split_on 44 (commas ss) = ss"
  by (induction ss rule: commas.induct) (auto simp: split_on_id split_on_append)

lemma int_chunks_ok:
  "list_all2 (\<lambda>s n. strip s = py_str_int n \<and> \<bar>n\<bar> < 10 ^ 18) ss ns \<Longrightarrow> int_chunks ss = Inr ns"
proof (induction rule: list_all2_induct)
  case (Cons s ss n ns)
  then have "py_int_str (strip s) = Some n" using py_int_str_of_int [of n 18] by simp
  with Cons show ?case by (simp add: Let_def)
qed simp

lemma int_chunks_Inl: "int_chunks ss = Inl e \<Longrightarrow> e = ValueError"
  by (induction ss) (auto simp: Let_def exn_simps split: if_splits option.splits)

section \<open>Facts about the posts\<close>

lemma post_json_len_Inr:
  "post_json_len net url payload hs s = (Inr (status, response, n), s') \<longleftrightarrow>
     (\<exists>body. json_bytes payload = Inr body \<and> n = int (length body) \<and>
        s' = s @ [\<lparr>or_method = u ''POST'', or_url = url, or_headers = hs, or_body = Some body\<rparr>] \<and>
        probe_reply (net s') = Inr (status, response))"
  by (auto simp: post_json_len_def exn_simps split: prod.splits)

text \<open>Arguments and random values of an ordinary run.\<close>

definition probe_ok :: "probe_args \<Rightarrow> probe_env \<Rightarrow> bool" where
  "probe_ok args env \<longleftrightarrow>
     plain_text (pa_path args) \<and> plain_text (pa_tenant_id args) \<and> pa_hmac_secret args \<noteq> [] \<and>
     text_ok (pa_hmac_secret args) \<and> plain_text (pe_nonce env) \<and> \<bar>trunc (pe_now env)\<bar> < 10 ^ 20 \<and>
     (\<forall>c\<in>set (pe_uuid_hex env). \<not> is_space c \<and> scalar c)"

text \<open>The request \<open>q\<close> carries \<open>content\<close> to the connector under a signature it accepts.\<close>

definition carries :: "probe_args \<Rightarrow> probe_env \<Rightarrow> bytes \<Rightarrow> out_request \<Rightarrow> bool" where
  "carries args env content q \<longleftrightarrow>
     (\<exists>body r. or_method q = u ''POST'' \<and> or_url q = rstrip_char 47 (pa_base_url args) @ pa_path args \<and>
        or_body q = Some body \<and>
        signed_post (pa_hmac_secret args) (pa_path args) (pe_now env) (pe_nonce env) body (or_headers q) r \<and>
        rq_tenant_id r = pa_tenant_id args \<and>
        map_option (b64_decode False) (rq_file_base64 r) = Some (Some content))"

lemma signed_file_carries:
  assumes ok: "probe_ok args env" and rid: "plain_text rid" and f: "text_ok f"
    and kvs: "kvs = hook_payload (pa_tenant_id args) rid f (u ''application/octet-stream'') content [(u ''suite'', JStr (u suite))]"
    and hs: "build_headers (pa_hmac_secret args) (pa_api_key args) (pa_path args) kvs (pe_now env) (pe_nonce env) = Inr hs"
    and body: "json_bytes (JObj kvs) = Inr body"
  shows "carries args env content \<lparr>or_method = u ''POST'', or_url = rstrip_char 47 (pa_base_url args) @ pa_path args,
    or_headers = hs, or_body = Some body\<rparr>"
proof -
  have t: "pa_tenant_id args \<noteq> []" "text_ok (pa_tenant_id args)" "text_ok rid" "text_ok (u ''application/octet-stream'')"
    "json_text_ok (JObj [(u ''suite'', JStr (u suite))])" "json_plain (JObj [(u ''suite'', JStr (u suite))])"
    using ok rid by (auto simp: probe_ok_def plain_text_def)
  note fp = file_payload [OF t(1-3) f t(4-6), of content, folded kvs]
  have side: "plain_text (pa_path args)" "plain_text (pe_nonce env)" "text_ok (pa_hmac_secret args)"
    "pa_hmac_secret args \<noteq> []" "\<bar>trunc (pe_now env)\<bar> < 10 ^ 20" "plain_text (pa_tenant_id args)"
    using ok by (simp_all add: probe_ok_def)
  obtain body' hs' where p: "json_bytes (JObj kvs) = Inr body'"
    "build_headers (pa_hmac_secret args) (pa_api_key args) (pa_path args) kvs (pe_now env) (pe_nonce env) = Inr hs'"
    "signed_post (pa_hmac_secret args) (pa_path args) (pe_now env) (pe_nonce env) body' hs'
      \<lparr>rq_tenant_id = pa_tenant_id args, rq_request_id = Some rid, rq_filename = Some f,
       rq_mime = Some (u ''application/octet-stream''), rq_file_base64 = Some (b64_encode False content),
       rq_extracted_text = None, rq_metadata = [(u ''suite'', JStr (u suite))]\<rparr>"
    by (rule helper_post [OF fp side(1) _ _ side(2-5)]) (use rid side(6) in \<open>auto simp: plain_text_def opt_or_def\<close>)
  with hs body have "body' = body" "hs' = hs" by simp_all
  with p(3) show ?thesis unfolding carries_def by (auto simp: b64_decode_encode intro!: exI)
qed

definition limit_row :: "network \<Rightarrow> probe_args \<Rightarrow> probe_env \<Rightarrow> int \<Rightarrow> json \<Rightarrow> out_request list \<Rightarrow> bool" where
  "limit_row net args env sz row sent \<longleftrightarrow>
     carries args env (cycled probe_seed (nat sz)) (last sent) \<and>
     (\<exists>body status response nginx. or_body (last sent) = Some body \<and> probe_reply (net sent) = Inr (status, response) \<and>
        (nginx \<longrightarrow> status = 413) \<and>
        row = JObj [(u ''file_size_bytes'', JInt sz), (u ''request_body_bytes'', JInt (int (length body))),
          (u ''http_status'', JInt status), (u ''looks_like_nginx_413'', JBool nginx), (u ''response'', response)])"

definition boundary_row :: "network \<Rightarrow> probe_args \<Rightarrow> probe_env \<Rightarrow> pystr \<times> int \<Rightarrow> json \<Rightarrow> out_request list \<Rightarrow> bool" where
  "boundary_row net args env scenario row sent \<longleftrightarrow>
     carries args env (cycled boundary_seed (nat (snd scenario))) (last sent) \<and>
     (\<exists>body status response. or_body (last sent) = Some body \<and> probe_reply (net sent) = Inr (status, response) \<and>
        row = JObj [(u ''scenario'', JStr (fst scenario)), (u ''file_size_bytes'', JInt (snd scenario)),
          (u ''request_body_bytes'', JInt (int (length body))), (u ''http_status'', JInt status),
          (u ''response'', response)])"

lemma limit_probe_row:
  assumes "probe_ok args env" "limit_probe net args env sz s = (Inr row, s')"
  shows "\<exists>q. s' = s @ [q] \<and> limit_row net args env sz row (s @ [q])"
proof -
  obtain hs body status response n nginx where
    hs: "build_headers (pa_hmac_secret args) (pa_api_key args) (pa_path args) (limit_payload args env sz) (pe_now env) (pe_nonce env) = Inr hs"
    and body: "json_bytes (JObj (limit_payload args env sz)) = Inr body"
    and s': "s' = s @ [\<lparr>or_method = u ''POST'', or_url = rstrip_char 47 (pa_base_url args) @ pa_path args,
        or_headers = hs, or_body = Some body\<rparr>]"
    and reply: "probe_reply (net s') = Inr (status, response)"
    and nginx: "(if status = 413 then looks_like_nginx_413 response else Inr False) = Inr nginx"
    and row: "row = JObj [(u ''file_size_bytes'', JInt sz), (u ''request_body_bytes'', JInt (int (length body))),
          (u ''http_status'', JInt status), (u ''looks_like_nginx_413'', JBool nginx), (u ''response'', response)]"
    using assms(2)
    by (auto simp: limit_probe_def post_signed_file_def post_json_len_Inr bindS_eq_Inr liftE_eq split: prod.splits)
  have "plain_text (u ''body-limit-'' @ py_str_int sz @ u ''-'' @ take 8 (pe_uuid_hex env))"
    by (rule plain_request_id) (use assms(1) in \<open>simp_all add: probe_ok_def uuid_text text_ok_py_str_int\<close>)
  from signed_file_carries [OF assms(1) this _ _ hs body, of "u ''probe-'' @ py_str_int sz @ u ''.bin''"]
  have "carries args env (cycled probe_seed (nat sz)) (last s')"
    by (simp add: limit_payload_def text_ok_py_str_int probe_mk_bytes_def mk_bytes_cycled s')
  then show ?thesis using s' reply nginx row unfolding limit_row_def by (auto split: if_splits)
qed

lemma boundary_probe_row:
  assumes "probe_ok args env" "boundary_probe net args env scenario s = (Inr row, s')"
    and "fst scenario \<in> {u ''file_boundary_minus_1k'', u ''file_boundary_exact_20mb'', u ''file_boundary_plus_1k''}"
  shows "\<exists>q. s' = s @ [q] \<and> boundary_row net args env scenario row (s @ [q])"
proof -
  obtain name sz where sc: "scenario = (name, sz)" by (cases scenario)
  obtain hs body status response where
    hs: "build_headers (pa_hmac_secret args) (pa_api_key args) (pa_path args) (boundary_payload args env name sz) (pe_now env) (pe_nonce env) = Inr hs"
    and body: "json_bytes (JObj (boundary_payload args env name sz)) = Inr body"
    and s': "s' = s @ [\<lparr>or_method = u ''POST'', or_url = rstrip_char 47 (pa_base_url args) @ pa_path args,
        or_headers = hs, or_body = Some body\<rparr>]"
    and reply: "probe_reply (net s') = Inr (status, response)"
    and row: "row = JObj [(u ''scenario'', JStr name), (u ''file_size_bytes'', JInt sz),
          (u ''request_body_bytes'', JInt (int (length body))), (u ''http_status'', JInt status), (u ''response'', response)]"
    using assms(2)
    by (auto simp: boundary_probe_def boundary_post_json_def post_json_len_Inr bindS_eq_Inr liftE_eq sc Let_def split: prod.splits)
  have name: "text_ok name" "name \<noteq> []" "\<not> is_space (hd name)" using assms(3) sc by (auto simp: uuid_text)
  then have "plain_text (name @ [] @ u ''-'' @ take 8 (pe_uuid_hex env))"
    by (intro plain_request_id) (use assms(1) in \<open>simp_all add: probe_ok_def\<close>)
  then have "plain_text (name @ u ''-'' @ take 8 (pe_uuid_hex env))" by simp
  from signed_file_carries [OF assms(1) this _ _ hs body, of "name @ u ''.bin''"]
  have "carries args env (cycled boundary_seed (nat sz)) (last s')"
    by (simp add: boundary_payload_def name boundary_mk_bytes_def mk_bytes_cycled s')
  then show ?thesis using s' reply row sc unfolding boundary_row_def by auto
qed

section \<open>Properties\<close>

text \<open>C40: The loop that generates a file ends for every size, negative ones included, because its seed
  is not empty (an empty seed would loop for ever on any positive size), and less than one seed
  past the size; the file has exactly the requested length and repeats the seed.\<close>

theorem mk_bytes_terminates:
  assumes "seed \<noteq> []"
  shows "(\<exists>out. fill_loop seed sz = Some out \<and> mk_bytes seed sz = take (nat sz) out \<and> sz \<le> int (length out) \<and>
      int (length out) < max 0 sz + int (length seed)) \<and>
    length (mk_bytes seed sz) = nat sz \<and> mk_bytes seed sz = cycled seed (nat sz) \<and>
    (fill_loop [] sz = None \<longleftrightarrow> 0 < sz)"
proof -
  obtain k where k: "fill_loop seed sz = Some (copies seed k)" "sz \<le> int (k * length seed)"
    "k \<noteq> 0 \<longrightarrow> int ((k - 1) * length seed) < sz"
    using fill_loop_copies [OF assms] by blast
  then have mk: "mk_bytes seed sz = take (nat sz) (copies seed k)"
    by (simp add: mk_bytes_def while_def fill_loop_def)
  have "0 < length seed" using assms by simp
  have "int (length (copies seed k)) < max 0 sz + int (length seed)"
  proof (cases k)
    case 0
    have "0 < max 0 sz + int (length seed)" using \<open>0 < length seed\<close> by linarith
    then show ?thesis by (simp add: 0)
  next
    case (Suc j)
    then show ?thesis using k(3) by (simp add: algebra_simps max_def)
  qed
  then have "\<exists>out. fill_loop seed sz = Some out \<and> mk_bytes seed sz = take (nat sz) out \<and> sz \<le> int (length out) \<and>
      int (length out) < max 0 sz + int (length seed)"
    using k mk by (metis length_copies)
  then show ?thesis
    using mk_bytes_cycled [OF assms] fill_loop_empty_seed by (simp add: cycled_def)
qed

theorem mk_bytes_terminates_witness:
  "(\<exists>out. fill_loop probe_seed 100 = Some out \<and> int (length out) < 134) \<and>
   length (probe_mk_bytes 100) = 100 \<and> probe_mk_bytes 100 = cycled probe_seed 100"
proof -
  have l: "int (length probe_seed) = 34" by code_simp
  show ?thesis
    using mk_bytes_terminates [OF seeds(1), of 100] unfolding l by (auto simp: probe_mk_bytes_def)
qed

text \<open>Round trip of the size list: numbers written in decimal with any white space around them
  and separated by commas are read back in order; the only error of the parser is a
  \<open>ValueError\<close>, and a list of blanks only is one.\<close>

theorem parse_sizes_roundtrip:
  assumes "list_all2 (\<lambda>s n. strip s = py_str_int n \<and> \<bar>n\<bar> < 10 ^ 18) ss ns" "\<forall>s\<in>set ss. 44 \<notin> set s" "ns \<noteq> []"
  shows "parse_sizes (commas ss) = Inr ns \<and> (parse_sizes raw = Inl e \<longrightarrow> e = ValueError) \<and>
    ((\<forall>c\<in>set (split_on 44 raw). strip c = []) \<longrightarrow> parse_sizes raw = Inl ValueError)"
proof -
  have "ss \<noteq> []" using assms(1,3) by auto
  then have "parse_sizes (commas ss) = Inr ns"
    using assms(3) int_chunks_ok [OF assms(1)] by (simp add: parse_sizes_def split_commas [OF _ assms(2)])
  moreover have "(\<forall>c\<in>set cs. strip c = []) \<longrightarrow> int_chunks cs = Inr []" for cs
    by (induction cs) (auto simp: Let_def)
  ultimately show ?thesis
    using int_chunks_Inl by (auto simp: parse_sizes_def exn_simps split: if_splits)
qed

theorem parse_sizes_roundtrip_witness:
  "parse_sizes (commas [u '' 655'', u ''-3 '']) = Inr [655, -3] \<and> parse_sizes (u '' ,'') = Inl ValueError"
proof -
  have l: "list_all2 (\<lambda>s n. strip s = py_str_int n \<and> \<bar>n\<bar> < 10 ^ 18) [u '' 655'', u ''-3 ''] [655, -3 :: int]"
    by code_simp
  have "\<forall>s\<in>set [u '' 655'', u ''-3 '']. 44 \<notin> set s" "\<forall>c\<in>set (split_on 44 (u '' ,'')). strip c = []" by code_simp+
  then show ?thesis using parse_sizes_roundtrip [OF l, of "u '' ,''"] by simp
qed

text \<open>C35: What the probes measure: when a run returns, it has sent one request per size, in order; the
  \<open>i\<close>-th carries the generated file of the \<open>i\<close>-th size, whole, under a signature that a connector
  with the same secret accepts, and the \<open>i\<close>-th row of the report shows that size, the length of
  the body sent and the status and body of its own reply.  A row is marked as nginx's only
  with status 413.  Both scripts.\<close>

theorem probe_rows_truthful:
  assumes "\<forall>i. probe_ok args (envs i)"
    and "limit_run net args envs [] = (Inr lrows, lsent)" "boundary_run net args envs [] = (Inr brows, bsent)"
  shows "(\<exists>sizes. parse_sizes (pa_sizes args) = Inr sizes \<and> length lsent = length sizes \<and> length lrows = length sizes \<and>
      (\<forall>i<length sizes. limit_row net args (envs i) (sizes ! i) (lrows ! i) (take (Suc i) lsent))) \<and>
    length bsent = 3 \<and> length brows = 3 \<and>
    (\<forall>i<3. boundary_row net args (envs i) (file_sizes ! i) (brows ! i) (take (Suc i) bsent))"
proof -
  obtain sizes where sizes: "parse_sizes (pa_sizes args) = Inr sizes"
    "for_each (\<lambda>(i, sz). limit_probe net args (envs i) sz) (enumerate 0 sizes) [] = (Inr lrows, lsent)"
    using assms(2) by (auto simp: limit_run_def exn_simps)
  have "\<exists>qs. lsent = [] @ qs \<and> length qs = length (enumerate 0 sizes) \<and> length lrows = length (enumerate 0 sizes) \<and>
    (\<forall>i<length (enumerate 0 sizes). (case enumerate 0 sizes ! i of (i, sz) \<Rightarrow> limit_row net args (envs i) sz)
       (lrows ! i) ([] @ take (Suc i) qs))"
    by (rule for_each_steps [OF sizes(2)]) (use assms(1) limit_probe_row in \<open>auto split: prod.splits\<close>)
  then have l: "length lsent = length sizes" "length lrows = length sizes"
    "\<forall>i<length sizes. limit_row net args (envs i) (sizes ! i) (lrows ! i) (take (Suc i) lsent)"
    by (auto simp: nth_enumerate_eq)
  have names: "fst scenario \<in> {u ''file_boundary_minus_1k'', u ''file_boundary_exact_20mb'', u ''file_boundary_plus_1k''}"
    if "scenario \<in> set file_sizes" for scenario
    using that by (auto simp: file_sizes_def Let_def)
  have n: "length file_sizes = 3" by (simp add: file_sizes_def Let_def)
  have "\<exists>qs. bsent = [] @ qs \<and> length qs = length (enumerate 0 file_sizes) \<and> length brows = length (enumerate 0 file_sizes) \<and>
    (\<forall>i<length (enumerate 0 file_sizes). (case enumerate 0 file_sizes ! i of (i, scenario) \<Rightarrow> boundary_row net args (envs i) scenario)
       (brows ! i) ([] @ take (Suc i) qs))"
  proof (rule for_each_steps [OF assms(3) [unfolded boundary_run_def]])
    fix x y s s'
    assume x: "x \<in> set (enumerate 0 file_sizes)"
      and st: "(case x of (i, scenario) \<Rightarrow> boundary_probe net args (envs i) scenario) s = (Inr y, s')"
    obtain i scenario where e: "x = (i, scenario)" by (cases x)
    have "scenario \<in> set file_sizes" using x unfolding e enumerate_eq_zip by (rule set_zip_rightD)
    then show "\<exists>q. s' = s @ [q] \<and> (case x of (i, scenario) \<Rightarrow> boundary_row net args (envs i) scenario) y (s @ [q])"
      using boundary_probe_row [OF _ _ names] assms(1) st by (simp add: e)
  qed
  then have "length bsent = 3" "length brows = 3"
    "\<forall>i<3. boundary_row net args (envs i) (file_sizes ! i) (brows ! i) (take (Suc i) bsent)"
    using n by (auto simp: nth_enumerate_eq)
  with sizes(1) l show ?thesis by blast
qed

text \<open>A network that answers every request with an empty 200.\<close>

lemma build_headers_ok:
  assumes "probe_ok args env" "plain_text rid" "text_ok f"
  shows "\<exists>hs body. build_headers (pa_hmac_secret args) (pa_api_key args) (pa_path args)
      (hook_payload (pa_tenant_id args) rid f (u ''application/octet-stream'') content [(u ''suite'', JStr (u suite))])
      (pe_now env) (pe_nonce env) = Inr hs \<and>
    json_bytes (JObj (hook_payload (pa_tenant_id args) rid f (u ''application/octet-stream'') content [(u ''suite'', JStr (u suite))])) = Inr body"
proof -
  have t: "pa_tenant_id args \<noteq> []" "text_ok (pa_tenant_id args)" "text_ok rid" "text_ok (u ''application/octet-stream'')"
    "json_text_ok (JObj [(u ''suite'', JStr (u suite))])" "json_plain (JObj [(u ''suite'', JStr (u suite))])"
    using assms by (auto simp: probe_ok_def plain_text_def)
  note fp = file_payload [OF t(1-3) assms(3) t(4-6), of content]
  show ?thesis
    by (rule helper_post [OF fp, of "pa_path args" "pe_nonce env" "pa_hmac_secret args" "pe_now env" "pa_api_key args"])
      (use assms in \<open>auto simp: probe_ok_def plain_text_def opt_or_def\<close>)
qed

definition empty_net :: network where
  "empty_net sent = Reply 200 []"

lemma empty_net: "probe_reply (empty_net sent) = Inr (200, JObj [])"
  by (simp add: empty_net_def probe_reply_def utf8_replace.simps loads_or_empty_def)

lemma limit_probe_returns:
  assumes "probe_ok args env"
  shows "\<exists>row s'. limit_probe empty_net args env sz s = (Inr row, s')"
proof -
  have "plain_text (u ''body-limit-'' @ py_str_int sz @ u ''-'' @ take 8 (pe_uuid_hex env))"
    by (rule plain_request_id) (use assms in \<open>simp_all add: probe_ok_def uuid_text text_ok_py_str_int\<close>)
  from build_headers_ok [OF assms this, of "u ''probe-'' @ py_str_int sz @ u ''.bin''" "probe_mk_bytes sz" "''body_limit_probe''"]
  show ?thesis
    by (auto simp: limit_probe_def post_signed_file_def post_json_len_def bindS_def liftE_def send_def limit_payload_def
        empty_net text_ok_py_str_int)
qed

lemma boundary_probe_returns:
  assumes "probe_ok args env" "scenario \<in> set file_sizes"
  shows "\<exists>row s'. boundary_probe empty_net args env scenario s = (Inr row, s')"
proof -
  obtain name sz where sc: "scenario = (name, sz)" by (cases scenario)
  have name: "text_ok name" "name \<noteq> []" "\<not> is_space (hd name)"
    using assms(2) by (auto simp: sc file_sizes_def Let_def uuid_text)
  then have "plain_text (name @ [] @ u ''-'' @ take 8 (pe_uuid_hex env))"
    by (intro plain_request_id) (use assms(1) in \<open>simp_all add: probe_ok_def\<close>)
  then have "plain_text (name @ u ''-'' @ take 8 (pe_uuid_hex env))" by simp
  from build_headers_ok [OF assms(1) this, of "name @ u ''.bin''" "boundary_mk_bytes sz" "''boundary_20mb_via_connector''"]
  show ?thesis
    by (auto simp: sc boundary_probe_def boundary_post_json_def post_json_len_def bindS_def liftE_def send_def
        boundary_payload_def empty_net name Let_def)
qed

definition demo_probe_args :: probe_args where
  "demo_probe_args = parse_limit_args [''--sizes'' \<mapsto> u ''5, 70'']"

definition demo_probe_env :: probe_env where
  "demo_probe_env = \<lparr>pe_uuid_hex = u ''0123456789abcdef'', pe_now = 1000, pe_nonce = u ''n1''\<rparr>"

lemma demo_probe_ok: "probe_ok demo_probe_args demo_probe_env"
proof -
  have "plain_text (pa_path demo_probe_args)" "plain_text (pa_tenant_id demo_probe_args)"
    "pa_hmac_secret demo_probe_args \<noteq> []" "text_ok (pa_hmac_secret demo_probe_args)" "plain_text (u ''n1'')"
    "\<forall>c\<in>set (u ''0123456789abcdef''). \<not> is_space c \<and> scalar c" by code_simp+
  then show ?thesis by (simp add: probe_ok_def demo_probe_env_def trunc_nonneg)
qed

theorem probe_rows_truthful_witness:
  "\<exists>lrows lsent. limit_run empty_net demo_probe_args (\<lambda>_. demo_probe_env) [] = (Inr lrows, lsent) \<and> length lsent = 2 \<and>
     limit_row empty_net demo_probe_args demo_probe_env 70 (lrows ! 1) lsent"
proof -
  have sizes: "parse_sizes (pa_sizes demo_probe_args) = Inr [5, 70]" by code_simp
  have "\<exists>ys s'. for_each (\<lambda>(i :: nat, sz). limit_probe empty_net demo_probe_args demo_probe_env sz) (enumerate 0 [5, 70]) [] = (Inr ys, s')"
    by (rule for_each_ok) (auto intro: limit_probe_returns [OF demo_probe_ok])
  then obtain lrows lsent where l: "limit_run empty_net demo_probe_args (\<lambda>_. demo_probe_env) [] = (Inr lrows, lsent)"
    by (auto simp: limit_run_def bindS_def liftE_def sizes)
  have "\<exists>ys s'. for_each (\<lambda>(i :: nat, scenario). boundary_probe empty_net demo_probe_args demo_probe_env scenario) (enumerate 0 file_sizes) [] = (Inr ys, s')"
    by (rule for_each_ok) (auto intro: boundary_probe_returns [OF demo_probe_ok] dest: set_zip_rightD simp: enumerate_eq_zip)
  then obtain brows bsent where b: "boundary_run empty_net demo_probe_args (\<lambda>_. demo_probe_env) [] = (Inr brows, bsent)"
    by (auto simp: boundary_run_def)
  have ok: "\<forall>i :: nat. probe_ok demo_probe_args demo_probe_env" using demo_probe_ok by simp
  note t = probe_rows_truthful [OF ok l b]
  then have n: "length lsent = 2" and r: "\<forall>i<2. limit_row empty_net demo_probe_args demo_probe_env ([5, 70] ! i) (lrows ! i) (take (Suc i) lsent)"
    by (auto simp: sizes)
  from r have "limit_row empty_net demo_probe_args demo_probe_env ([5, 70] ! 1) (lrows ! 1) (take (Suc 1) lsent)"
    by (rule allE [of _ 1]) simp
  with l n show ?thesis by auto
qed

end
