(* ===== verification/Script_Mains.thy ===== *)
theory Script_Mains
  imports Sgraph_Transfer_Properties Body_Probes
begin

text \<open>
  The \<open>main\<close> functions of the end-to-end scripts and the probes, which save the result of \<open>run\<close>.  What
  is saved reads back as the result.  Making directories and echoing the saved text are left out.
\<close>

section \<open>Saving a result\<close>

text \<open>What the four \<open>main\<close> functions do with the result of \<open>run\<close>: the path and the content of the file.\<close>

definition save_result :: "pystr \<Rightarrow> json script \<Rightarrow> (pystr \<times> bytes) script" where
  "save_result out_path run =
     bindS run (\<lambda>result. bindS (liftE (saved result)) (\<lambda>content. liftE (Inr (out_path, content))))"

definition real_main ::
  "network \<Rightarrow> aead \<Rightarrow> (pystr list \<Rightarrow> bytes) \<Rightarrow> (string \<Rightarrow> pystr option) \<Rightarrow> bool \<Rightarrow> (nat \<Rightarrow> transfer_env) \<Rightarrow>
     (pystr \<times> bytes) script" where
  "real_main net A docx given allow_fallback envs =
     save_result (opt_default given ''--out'' ''artifacts/qualification/sgraph_real_path_decisions.json'')
       (real_run net A docx (parse_real_args given allow_fallback) envs)"

definition upstream_main ::
  "network \<Rightarrow> aead \<Rightarrow> (pystr list \<Rightarrow> bytes) \<Rightarrow> (string \<Rightarrow> pystr option) \<Rightarrow> bool \<Rightarrow> (nat \<Rightarrow> transfer_env) \<Rightarrow>
     (pystr \<times> bytes) script" where
  "upstream_main net A docx given allow_fallback envs =
     save_result (opt_default given ''--out'' ''artifacts/qualification/sgraph_upstream_connector_path_decisions.json'')
       (upstream_run net A docx (parse_upstream_args given allow_fallback) envs)"

text \<open>The probes save the list of their rows.\<close>

definition rows :: "json list script \<Rightarrow> json script" where
  "rows run = bindS run (\<lambda>out. liftE (Inr (JArr out)))"

definition limit_main :: "network \<Rightarrow> (string \<Rightarrow> pystr option) \<Rightarrow> (nat \<Rightarrow> probe_env) \<Rightarrow> (pystr \<times> bytes) script" where
  "limit_main net given envs =
     save_result (opt_default given ''--out'' ''artifacts/qualification/body_limit_probe_live.json'')
       (rows (limit_run net (parse_limit_args given) envs))"

definition boundary_main :: "network \<Rightarrow> (string \<Rightarrow> pystr option) \<Rightarrow> (nat \<Rightarrow> probe_env) \<Rightarrow> (pystr \<times> bytes) script" where
  "boundary_main net given envs =
     save_result (opt_default given ''--out'' ''artifacts/qualification/boundary_20mb_via_connector_after_proxy_limit.json'')
       (rows (boundary_run net (parse_boundary_args given) envs))"

section \<open>Facts\<close>

lemma extract_plain: "json_plain (fst (extract_sgmeta_or_raw d))" "length (snd (extract_sgmeta_or_raw d)) \<le> length d"
  by (auto simp: extract_sgmeta_or_raw_def Let_def loadsE_plain exn_simps split: sum.splits)

text \<open>Answers and files of a size below \<open>10 ^ 18\<close>: Python refuses to read back numbers of more than 4300
  digits, so some bound is needed.\<close>

definition small_wire :: "wire \<Rightarrow> bool" where
  "small_wire w \<longleftrightarrow>
     (case w of
        Reply status bs \<Rightarrow> \<bar>status\<bar> < 10 ^ 18 \<and> length bs < 10 ^ 18
      | HttpErr code bs \<Rightarrow> \<bar>code\<bar> < 10 ^ 18 \<and> length bs < 10 ^ 18
      | NoReply e \<Rightarrow> True)"

text \<open>A cipher text is never shorter than the plain text.\<close>

definition aead_shrinks :: "aead \<Rightarrow> bool" where
  "aead_shrinks A \<longleftrightarrow> (\<forall>key iv c p. aead_decrypt A key iv c = Inr p \<longrightarrow> length p \<le> length c)"

lemma status_small: "small_wire w \<Longrightarrow> probe_reply w = Inr (status, v) \<Longrightarrow> \<bar>status\<bar> < 10 ^ 18"
  by (auto simp: small_wire_def probe_reply_def exn_simps split: wire.splits)

lemma transfer_small:
  assumes net: "\<And>h. small_wire (net h)" and "aead_shrinks A"
    and run: "transfer net A base token env scn s = (Inr tr, s')"
  shows "json_plain (tr_meta tr) \<and> length (tr_content tr) < 10 ^ 18"
proof -
  obtain tid raw key dec s1 s2 where d: "download_transfer net base token scn tid s1 = (Inr raw, s2)"
    "decrypt_like_sgraph_ui A key raw = Inr dec"
    and tr: "tr_meta tr = fst (extract_sgmeta_or_raw dec)" "tr_content tr = snd (extract_sgmeta_or_raw dec)"
    using run by (auto simp: transfer_def exn_simps Let_def case_prod_beta)
  obtain status where "bytes_reply (net s2) = Inr (status, raw)"
    using d(1) by (auto simp: download_transfer_def exn_simps http_bytes_Inr fail_def split: if_splits)
  then have "length raw < 10 ^ 18" using net [of s2] by (auto simp: bytes_reply_def small_wire_def split: wire.splits)
  moreover have "length dec \<le> length (drop 12 raw)"
    using d(2) assms(2) unfolding aead_shrinks_def by (auto simp: decrypt_like_sgraph_ui_def simp del: length_drop split: if_splits)
  ultimately show ?thesis using extract_plain [of dec] unfolding tr by simp
qed

lemma scenario_report_plain:
  assumes "json_plain (tr_meta tr)" "length (tr_content tr) < 10 ^ 18" "json_plain body"
    and "key \<in> {''connector_response'', ''sgraph_connector_response''}"
  shows "json_plain (scenario_report key scn tr body)"
  using assms small_plain [of "int (length (tr_content tr))"] by (auto simp: scenario_report_def)

lemma scenario_plain:
  assumes net: "\<And>h. small_wire (net h)" and "aead_shrinks A"
  shows "real_scenario net A args env scn s = (Inr rep, s') \<Longrightarrow> json_plain rep"
    and "upstream_scenario net A uargs env scn s = (Inr rep, s') \<Longrightarrow> json_plain rep"
proof -
  assume "real_scenario net A args env scn s = (Inr rep, s')"
  then obtain tr s1 w x b s2 where t: "transfer net A (sgraph_base (ea_base_url args)) (ea_token args) env scn s = (Inr tr, s1)"
    and w: "json_reply w = Inr (x, b)" and f: "finish_scan ''connector'' ''connector_response'' (ea_strict args) scn tr (x, b) s2 = (Inr rep, s')"
    by (auto simp: real_scenario_def real_scan_def exn_simps http_json_Inr)
  show "json_plain rep"
    using transfer_small [OF assms t] finish_scan_Inr [OF f] reply_plain(1) [OF w] by (auto intro: scenario_report_plain)
next
  assume "upstream_scenario net A uargs env scn s = (Inr rep, s')"
  then obtain tr s1 w x b s2 where t: "transfer net A (sgraph_base (ua_base_url uargs)) (ua_token uargs) env scn s = (Inr tr, s1)"
    and w: "json_reply w = Inr (x, b)" and f: "finish_scan ''sgraph connector'' ''sgraph_connector_response'' (ua_strict uargs) scn tr (x, b) s2 = (Inr rep, s')"
    by (auto simp: upstream_scenario_def upstream_scan_def exn_simps http_json_Inr)
  show "json_plain rep"
    using transfer_small [OF assms t] finish_scan_Inr [OF f] reply_plain(1) [OF w] by (auto intro: scenario_report_plain)
qed

lemma for_each_all:
  assumes "for_each f xs s = (Inr ys, s')" "\<And>x s y s'. x \<in> set xs \<Longrightarrow> f x s = (Inr y, s') \<Longrightarrow> P y"
  shows "\<forall>y\<in>set ys. P y"
proof -
  have "list_all2 (\<lambda>x y. P y) xs ys"
    by (rule list.rel_mono_strong [OF for_each_Inr [OF assms(1)]]) (auto dest: assms(2))
  then show ?thesis by (induction rule: list_all2_induct) auto
qed

text \<open>The contract of a script whose report is saved: its result can be printed and read back, if the
  requests it sent are \<open>good\<close>.\<close>

locale saving_script =
  fixes run :: "json script"
    and good :: "out_request list \<Rightarrow> bool"
  assumes plain_result: "run s = (Inr v, s') \<Longrightarrow> good s' \<Longrightarrow> json_plain v"
begin

lemma file_reads_back:
  assumes "save_result out_path run s = (Inr (path, content), s')" "good s'"
  shows "path = out_path \<and> (\<exists>v. run s = (Inr v, s') \<and> bindE (decodeE content) loadsE = Inr v)"
proof -
  obtain v where v: "run s = (Inr v, s')" "saved v = Inr content" "path = out_path"
    using assms(1) by (auto simp: save_result_def exn_simps)
  with saved_reads_back [OF v(2) plain_result [OF v(1) assms(2)]] show ?thesis by blast
qed

end

interpretation real_saving: saving_script "real_run net A docx args envs"
  "\<lambda>_. (\<forall>h. small_wire (net h)) \<and> aead_shrinks A" for net A docx args envs
proof unfold_locales
  fix s v s'
  assume run: "real_run net A docx args envs s = (Inr v, s')" and good: "(\<forall>h. small_wire (net h)) \<and> aead_shrinks A"
  then obtain scns reps s1 where f: "for_each (\<lambda>(i, scn). real_scenario net A args (envs i) scn) (enumerate 0 scns) s = (Inr reps, s1)"
    and v: "v = JObj [(u ''base_url'', JStr (rstrip_char 47 (ea_base_url args))),
         (u ''tenant_id'', JStr (ea_tenant_id args)), (u ''connector_path'', JStr (ea_connector_path args)),
         (u ''sgraph_prefix'', JStr (u ''/sgraph'')), (u ''scenarios'', JArr reps)]"
    by (auto simp: real_run_def exn_simps)
  have "\<forall>y\<in>set reps. json_plain y"
    by (rule for_each_all [OF f]) (use good scenario_plain(1) [of net A] in \<open>auto split: prod.splits\<close>)
  then show "json_plain v" by (simp add: v)
qed

interpretation upstream_saving: saving_script "upstream_run net A docx args envs"
  "\<lambda>_. (\<forall>h. small_wire (net h)) \<and> aead_shrinks A" for net A docx args envs
proof unfold_locales
  fix s v s'
  assume run: "upstream_run net A docx args envs s = (Inr v, s')" and good: "(\<forall>h. small_wire (net h)) \<and> aead_shrinks A"
  then obtain scns reps s1 where f: "for_each (\<lambda>(i, scn). upstream_scenario net A args (envs i) scn) (enumerate 0 scns) s = (Inr reps, s1)"
    and v: "v = JObj [(u ''base_url'', JStr (rstrip_char 47 (ua_base_url args))),
         (u ''tenant_id'', JStr (ua_tenant_id args)), (u ''sgraph_scan_path'', JStr (ua_scan_path args)),
         (u ''sgraph_prefix'', JStr (u ''/sgraph'')), (u ''scenarios'', JArr reps)]"
    by (auto simp: upstream_run_def exn_simps)
  have "\<forall>y\<in>set reps. json_plain y"
    by (rule for_each_all [OF f]) (use good scenario_plain(2) [of net A] in \<open>auto split: prod.splits\<close>)
  then show "json_plain v" by (simp add: v)
qed

text \<open>The probes: the sizes are numbers Python parsed, the lengths those of the bodies sent.\<close>

lemma scan_digits_bound:
  "scan_digits p a s = Some v \<Longrightarrow> 0 \<le> a \<Longrightarrow> 0 \<le> v \<and> v < (a + 1) * 10 ^ length (filter is_digit s)"
proof (induction p a s rule: scan_digits.induct)
  case (2 prev acc c cs)
  show ?case
  proof (cases "is_digit c")
    case True
    then have c: "0 \<le> c - 48" "c - 48 < 10" by (auto simp: is_digit_def)
    with True 2 have IH: "0 \<le> v" "v < (10 * acc + (c - 48) + 1) * 10 ^ length (filter is_digit cs)" by auto
    have "(10 * acc + (c - 48) + 1) * 10 ^ length (filter is_digit cs) \<le> ((acc + 1) * 10) * 10 ^ length (filter is_digit cs)"
      using c by (intro mult_right_mono) auto
    with IH(2) have "v < ((acc + 1) * 10) * 10 ^ length (filter is_digit cs)" by linarith
    moreover have "((acc + 1) * 10) * 10 ^ length (filter is_digit cs) = (acc + 1) * 10 ^ length (filter is_digit (c # cs))"
      using True by simp
    ultimately show ?thesis using IH(1) by simp
  next
    case False
    with 2 show ?thesis by (auto split: if_splits)
  qed
qed (auto split: if_splits)

lemma py_int_digits_plain: "py_int_digits s = Some n \<Longrightarrow> 0 \<le> n \<and> json_plain (JInt n)"
proof -
  assume n: "py_int_digits s = Some n"
  let ?k = "length (filter is_digit s)"
  have b: "?k \<le> 4300" "scan_digits False 0 s = Some n" using n by (auto simp: py_int_digits_def split: if_splits)
  then have v: "0 \<le> n" "n < 10 ^ ?k" using scan_digits_bound [OF b(2)] by simp_all
  have "n < 10 ^ Suc ?k" using v(2) by (rule less_le_trans) (rule power_increasing, simp_all)
  then have small: "nat n < 10 ^ Suc ?k" "nat n < 10 ^ ?k" using v by (simp_all add: nat_less_iff)
  have "length (nat_digits (nat n)) \<le> 4300"
  proof (cases "?k = 0")
    case True
    with length_nat_digits [OF small(1)] show ?thesis by simp
  next
    case False
    with length_nat_digits [OF small(2)] b(1) show ?thesis by simp
  qed
  with v(1) show ?thesis by simp
qed

lemma py_int_str_plain: "py_int_str s = Some n \<Longrightarrow> json_plain (JInt n)"
  using py_int_digits_plain by (fastforce simp: py_int_str_def split: list.splits if_splits)

lemma int_chunks_plain: "int_chunks ss = Inr ns \<Longrightarrow> \<forall>n\<in>set ns. json_plain (JInt n)"
  by (induction ss arbitrary: ns rule: int_chunks.induct)
    (auto simp: Let_def exn_simps dest: py_int_str_plain split: if_splits option.splits simp del: json_plain.simps)

definition small_bodies :: "network \<Rightarrow> out_request list \<Rightarrow> bool" where
  "small_bodies net sent \<longleftrightarrow>
     (\<forall>h. small_wire (net h)) \<and> (\<forall>q\<in>set sent. \<forall>b. or_body q = Some b \<longrightarrow> length b < 10 ^ 18)"

lemma rows_plain:
  assumes run: "for_each f xs s = (Inr ys, s')" and small: "small_bodies net s'"
    and row: "\<And>x y s s'. x \<in> set xs \<Longrightarrow> f x s = (Inr y, s') \<Longrightarrow>
      \<exists>q. s' = s @ [q] \<and> (small_bodies net [q] \<longrightarrow> json_plain y)"
  shows "json_plain (JArr ys)"
proof -
  obtain qs where qs: "s' = s @ qs" "length qs = length xs" "length ys = length xs"
    "\<forall>i<length xs. small_bodies net [last (s @ take (Suc i) qs)] \<longrightarrow> json_plain (ys ! i)"
    using for_each_steps [OF run, where R = "\<lambda>x y h. small_bodies net [last h] \<longrightarrow> json_plain y"] row by (metis last_snoc)
  have "json_plain (ys ! i)" if i: "i < length xs" for i
  proof -
    have "last (s @ take (Suc i) qs) = qs ! i" using i qs(2) by (simp add: take_Suc_conv_app_nth)
    moreover have "qs ! i \<in> set s'" using i qs(1,2) by simp
    ultimately have "small_bodies net [last (s @ take (Suc i) qs)]" using small by (simp add: small_bodies_def)
    with qs(4) i show ?thesis by blast
  qed
  then show ?thesis using qs(3) by (auto simp: in_set_conv_nth)
qed

lemma limit_probe_plain:
  assumes "limit_probe net args env sz s = (Inr row, s')" "json_plain (JInt sz)"
  shows "\<exists>q. s' = s @ [q] \<and> (small_bodies net [q] \<longrightarrow> json_plain row)"
proof -
  obtain body hs status response nginx where "s' = s @ [\<lparr>or_method = u ''POST'',
      or_url = rstrip_char 47 (pa_base_url args) @ pa_path args, or_headers = hs, or_body = Some body\<rparr>]"
    and r: "probe_reply (net s') = Inr (status, response)"
    and row: "row = JObj [(u ''file_size_bytes'', JInt sz), (u ''request_body_bytes'', JInt (int (length body))),
      (u ''http_status'', JInt status), (u ''looks_like_nginx_413'', JBool nginx), (u ''response'', response)]"
    using assms(1) by (auto simp: limit_probe_def post_signed_file_def exn_simps post_json_len_Inr)
  moreover have "json_plain row" if "small_wire (net s')" "length body < 10 ^ 18"
    using small_plain [OF status_small [OF that(1) r]] small_plain [of "int (length body)"] that(2)
      reply_plain(2) [OF r] assms(2) by (simp add: row)
  ultimately show ?thesis by (auto simp: small_bodies_def)
qed

lemma boundary_probe_plain:
  assumes "boundary_probe net args env (name, sz) s = (Inr row, s')" "json_plain (JInt sz)"
  shows "\<exists>q. s' = s @ [q] \<and> (small_bodies net [q] \<longrightarrow> json_plain row)"
proof -
  obtain body hs status response where "s' = s @ [\<lparr>or_method = u ''POST'',
      or_url = rstrip_char 47 (pa_base_url args) @ pa_path args, or_headers = hs, or_body = Some body\<rparr>]"
    and r: "probe_reply (net s') = Inr (status, response)"
    and row: "row = JObj [(u ''scenario'', JStr name), (u ''file_size_bytes'', JInt sz),
      (u ''request_body_bytes'', JInt (int (length body))), (u ''http_status'', JInt status), (u ''response'', response)]"
    using assms(1) by (auto simp: boundary_probe_def boundary_post_json_def Let_def exn_simps post_json_len_Inr)
  moreover have "json_plain row" if "small_wire (net s')" "length body < 10 ^ 18"
    using small_plain [OF status_small [OF that(1) r]] small_plain [of "int (length body)"] that(2)
      reply_plain(2) [OF r] assms(2) by (simp add: row)
  ultimately show ?thesis by (auto simp: small_bodies_def)
qed

interpretation limit_saving: saving_script "rows (limit_run net args envs)" "small_bodies net" for net args envs
proof unfold_locales
  fix s v s'
  assume run: "rows (limit_run net args envs) s = (Inr v, s')" and good: "small_bodies net s'"
  then obtain sizes out where sizes: "parse_sizes (pa_sizes args) = Inr sizes" and v: "v = JArr out"
    and f: "for_each (\<lambda>(i, sz). limit_probe net args (envs i) sz) (enumerate 0 sizes) s = (Inr out, s')"
    by (auto simp: rows_def limit_run_def exn_simps)
  have plain: "\<forall>n\<in>set sizes. json_plain (JInt n)"
    using sizes by (auto simp: parse_sizes_def exn_simps simp del: json_plain.simps dest: int_chunks_plain split: if_splits)
  show "json_plain v"
    unfolding v by (rule rows_plain [OF f good])
      (use plain limit_probe_plain in \<open>auto simp: enumerate_eq_zip simp del: json_plain.simps dest!: set_zip_rightD\<close>)
qed

interpretation boundary_saving: saving_script "rows (boundary_run net args envs)" "small_bodies net" for net args envs
proof unfold_locales
  fix s v s'
  assume run: "rows (boundary_run net args envs) s = (Inr v, s')" and good: "small_bodies net s'"
  then obtain out where v: "v = JArr out"
    and f: "for_each (\<lambda>(i, scenario). boundary_probe net args (envs i) scenario) (enumerate 0 file_sizes) s = (Inr out, s')"
    by (auto simp: rows_def boundary_run_def exn_simps)
  have plain: "json_plain (JInt sz)" if "(name, sz) \<in> set file_sizes" for name sz
    by (rule small_plain) (use that in \<open>auto simp: file_sizes_def Let_def\<close>)
  show "json_plain v"
    unfolding v by (rule rows_plain [OF f good])
      (use plain boundary_probe_plain in \<open>auto simp: enumerate_eq_zip simp del: json_plain.simps dest!: set_zip_rightD\<close>)
qed

section \<open>A concrete run\<close>

text \<open>A server that gives the same answer to everything, and a cipher that decrypts to nothing.\<close>

definition echo_net :: network where
  "echo_net h = Reply 200 demo_created"

definition void_aead :: aead where
  "void_aead = \<lparr>aead_encrypt = (\<lambda>key iv p. Inr p), aead_decrypt = (\<lambda>key iv c. Inr [])\<rparr>"

lemma echo_small: "small_wire (echo_net h)" "aead_shrinks void_aead"
  by (simp_all add: small_wire_def echo_net_def demo_created_def aead_shrinks_def void_aead_def)

abbreviation created_json :: json where
  "created_json \<equiv> JObj [(u ''transfer_id'', JStr (u ''t1''))]"

lemma created_facts:
  "transfer_id_of created_json = Inr (u ''t1'')" "reply_reasons created_json = Inr []"
  "extract_sgmeta_or_raw [] = (JNull, [])" "decrypt_like_sgraph_ui void_aead key demo_created = Inr []"
  "filename_of JNull scn = Inr (sc_filename scn)"
proof -
  show "transfer_id_of created_json = Inr (u ''t1'')" "reply_reasons created_json = Inr []"
    "extract_sgmeta_or_raw [] = (JNull, [])" by code_simp+
qed (simp_all add: decrypt_like_sgraph_ui_def void_aead_def demo_created_def filename_of_def)

definition echo_transferred :: "bytes \<Rightarrow> transferred" where
  "echo_transferred enc =
     \<lparr>tr_id = u ''t1'', tr_encrypted = enc, tr_downloaded = demo_created, tr_meta = JNull, tr_content = []\<rparr>"

lemma echo_transfer:
  assumes "build_scenarios docx = Inr scns" "scn \<in> set scns"
  shows "\<exists>enc s'. transfer echo_net void_aead base token env scn s = (Inr (echo_transferred enc), s')"
proof -
  note m = build_scenarios_member [OF assms]
  obtain packed where packed: "package_with_sgmeta (sc_content scn) (sc_filename scn) = Inr packed"
    using package_scenario m by blast
  have "json_text_ok (JObj [(u ''file_size_bytes'', JInt (int (length packed))), (u ''content_type_hint'', JStr (sc_mime scn))])"
    using m by simp
  then obtain cb where cb: "json_bytes (JObj [(u ''file_size_bytes'', JInt (int (length packed))),
      (u ''content_type_hint'', JStr (sc_mime scn))]) = Inr cb"
    using json_bytes_ok by blast
  have enc: "encrypt_like_sgraph_ui void_aead (te_key env) (te_iv env) packed = Inr (te_key env, te_iv env @ packed)"
    by (simp add: encrypt_like_sgraph_ui_def void_aead_def)
  have id: "u ''t1'' \<noteq> []" by (simp add: u_def)
  have "\<exists>s'. transfer echo_net void_aead base token env scn s = (Inr (echo_transferred (te_iv env @ packed)), s')"
    by (simp add: transfer_def bindS_def liftE_def packed enc create_transfer_def http_json_def cb send_def echo_net_def
        demo_created created_facts id upload_transfer_def http_bytes_def bytes_reply_def complete_transfer_def
        json_bytes_empty download_transfer_def echo_transferred_def)
  then show ?thesis by blast
qed

lemma echo_scenario:
  assumes ok: "args_ok args" "env_plain env" and scn: "build_scenarios docx = Inr scns" "scn \<in> set scns"
  shows "\<exists>enc s'. real_scenario echo_net void_aead args env scn s =
    (Inr (scenario_report ''connector_response'' scn (echo_transferred enc) created_json), s')"
proof -
  obtain enc s1 where t: "transfer echo_net void_aead (sgraph_base (ea_base_url args)) (ea_token args) env scn s =
      (Inr (echo_transferred enc), s1)"
    using echo_transfer [OF scn] by blast
  have tr: "filename_of (tr_meta (echo_transferred enc)) scn = Inr (sc_filename scn)" "text_ok (tr_id (echo_transferred enc))"
    by (simp_all add: echo_transferred_def created_facts)
  obtain q where "real_scan echo_net args env scn (echo_transferred enc) s1 =
       bindS (liftE (json_reply (echo_net (s1 @ [q]))))
         (finish_scan ''connector'' ''connector_response'' (ea_strict args) scn (echo_transferred enc)) (s1 @ [q])"
    by (rule real_scan_posts [OF ok tr scenario_texts [OF scn], of echo_net s1])
  then have "real_scan echo_net args env scn (echo_transferred enc) s1 =
      (Inr (scenario_report ''connector_response'' scn (echo_transferred enc) created_json), s1 @ [q])"
    using finish_scan_ok [OF created_facts(2)] by (simp add: bindS_def liftE_def echo_net_def demo_created)
  with t show ?thesis by (auto simp: real_scenario_def bindS_def)
qed

lemma text_ok_sha256_hex [simp]: "text_ok (sha256_hex d)"
  using sha256_hex_facts(2) [of d] by (auto simp: text_ok_def is_ascii_def scalar_ascii list_all_iff)

lemma echo_real_main:
  "\<exists>content s'. real_main echo_net void_aead (\<lambda>_. []) (\<lambda>_. None) False (\<lambda>_. demo_tenv) [] =
     (Inr (u ''artifacts/qualification/sgraph_real_path_decisions.json'', content), s')"
proof -
  obtain scns where scns: "build_scenarios (\<lambda>_. []) = Inr scns" using build_scenarios_ok by blast
  note step = echo_scenario [OF demo_args_ok demo_tenv_plain scns]
  obtain reps s' where reps: "for_each (\<lambda>(i :: nat, scn). real_scenario echo_net void_aead demo_args demo_tenv scn) (enumerate 0 scns) [] = (Inr reps, s')"
    using for_scenarios_ok [of scns "\<lambda>_. real_scenario echo_net void_aead demo_args demo_tenv" "[]"] step by blast
  have "json_text_ok y" if x: "x \<in> set (enumerate 0 scns)"
    and y: "(case x of (i, scn) \<Rightarrow> real_scenario echo_net void_aead demo_args demo_tenv scn) s = (Inr y, s')" for x y s s'
  proof -
    obtain i scn where p: "x = (i, scn)" by (cases x)
    have "scn \<in> set scns" using x unfolding p enumerate_eq_zip by (rule set_zip_rightD)
    with y p step [of scn s] scenario_texts [OF scns, of scn] show ?thesis
      by (auto simp: scenario_report_def echo_transferred_def)
  qed
  with for_each_all [OF reps] have reps_text: "\<forall>y\<in>set reps. json_text_ok y" by blast
  let ?v = "JObj [(u ''base_url'', JStr (rstrip_char 47 (ea_base_url demo_args))),
      (u ''tenant_id'', JStr (ea_tenant_id demo_args)), (u ''connector_path'', JStr (ea_connector_path demo_args)),
      (u ''sgraph_prefix'', JStr (u ''/sgraph'')), (u ''scenarios'', JArr reps)]"
  have run: "real_run echo_net void_aead (\<lambda>_. []) demo_args (\<lambda>_. demo_tenv) [] = (Inr ?v, s')"
    using reps by (simp add: real_run_def bindS_def liftE_def scns)
  have "text_ok (rstrip_char 47 (ea_base_url demo_args))" "text_ok (ea_tenant_id demo_args)" "text_ok (ea_connector_path demo_args)"
    by code_simp+
  with reps_text have "json_text_ok ?v" by simp
  then obtain content where "saved ?v = Inr content"
    using text_ok_pretty encodeE_scalar unfolding saved_def text_ok_def by blast
  then show ?thesis
    using run by (simp add: real_main_def save_result_def bindS_def liftE_def demo_args_def opt_default_def)
qed

section \<open>Properties\<close>

text \<open>C32: What is saved is what was found: when the \<open>main\<close> of an end-to-end script or of a probe ends
  normally, the file it wrote decodes and parses to exactly the result of its \<open>run\<close>, replies of the
  servers included, whatever they contain; answers and files must be shorter than \<open>10 ^ 18\<close>.\<close>

theorem saved_reports_read_back:
  assumes "\<forall>h. small_wire (net h)" "aead_shrinks A"
  shows "(real_main net A docx given allow_fallback envs s = (Inr (path, content), s') \<longrightarrow>
      (\<exists>v. real_run net A docx (parse_real_args given allow_fallback) envs s = (Inr v, s') \<and>
        bindE (decodeE content) loadsE = Inr v)) \<and>
    (upstream_main net A docx given allow_fallback envs s = (Inr (path, content), s') \<longrightarrow>
      (\<exists>v. upstream_run net A docx (parse_upstream_args given allow_fallback) envs s = (Inr v, s') \<and>
        bindE (decodeE content) loadsE = Inr v)) \<and>
    (limit_main net given penvs s = (Inr (path, content), s') \<and> small_bodies net s' \<longrightarrow>
      (\<exists>out. limit_run net (parse_limit_args given) penvs s = (Inr out, s') \<and>
        bindE (decodeE content) loadsE = Inr (JArr out))) \<and>
    (boundary_main net given penvs s = (Inr (path, content), s') \<and> small_bodies net s' \<longrightarrow>
      (\<exists>out. boundary_run net (parse_boundary_args given) penvs s = (Inr out, s') \<and>
        bindE (decodeE content) loadsE = Inr (JArr out)))"
proof -
  have rows: "\<exists>out. run s = (Inr out, s') \<and> v = JArr out" if "rows run s = (Inr v, s')" for run v
    using that by (auto simp: rows_def exn_simps)
  note good = conjI [OF assms]
  show ?thesis
  proof (intro conjI impI; (elim conjE)?)
    assume m: "real_main net A docx given allow_fallback envs s = (Inr (path, content), s')"
    from real_saving.file_reads_back [OF m [unfolded real_main_def] good]
    show "\<exists>v. real_run net A docx (parse_real_args given allow_fallback) envs s = (Inr v, s') \<and>
        bindE (decodeE content) loadsE = Inr v" by blast
  next
    assume m: "upstream_main net A docx given allow_fallback envs s = (Inr (path, content), s')"
    from upstream_saving.file_reads_back [OF m [unfolded upstream_main_def] good]
    show "\<exists>v. upstream_run net A docx (parse_upstream_args given allow_fallback) envs s = (Inr v, s') \<and>
        bindE (decodeE content) loadsE = Inr v" by blast
  next
    assume m: "limit_main net given penvs s = (Inr (path, content), s')" and small: "small_bodies net s'"
    from limit_saving.file_reads_back [OF m [unfolded limit_main_def] small] rows
    show "\<exists>out. limit_run net (parse_limit_args given) penvs s = (Inr out, s') \<and>
        bindE (decodeE content) loadsE = Inr (JArr out)" by blast
  next
    assume m: "boundary_main net given penvs s = (Inr (path, content), s')" and small: "small_bodies net s'"
    from boundary_saving.file_reads_back [OF m [unfolded boundary_main_def] small] rows
    show "\<exists>out. boundary_run net (parse_boundary_args given) penvs s = (Inr out, s') \<and>
        bindE (decodeE content) loadsE = Inr (JArr out)" by blast
  qed
qed

theorem saved_reports_read_back_witness:
  "\<exists>v content s'. real_run echo_net void_aead (\<lambda>_. []) (parse_real_args (\<lambda>_. None) False) (\<lambda>_. demo_tenv) [] = (Inr v, s') \<and>
     bindE (decodeE content) loadsE = Inr v"
proof -
  have "\<forall>h. small_wire (echo_net h)" using echo_small(1) by blast
  from saved_reports_read_back [OF this echo_small(2)] show ?thesis using echo_real_main by blast
qed

end
