(* ===== verification/Strict_Files.thy ===== *)
theory Strict_Files
  imports Script_Mains
begin

text \<open>
  The end-to-end scripts run without \<open>--allow-fallback\<close> (\<open>scripts/e2e_sgraph_real_path.py\<close>,
  \<open>scripts/e2e_sgraph_upstream_connector_path.py\<close>): the contract of a strict script and that of a script that saves
  its report give what a reader of the saved file can rely on.
\<close>

section \<open>Strict scripts that save their report\<close>




section \<open>Property\<close>



end
