(* ===== verification/Signature_Helper.thy ===== *)
theory Signature_Helper
  imports Script_Http
begin

text \<open>
  The command line of \<open>scripts/signature_helper.py\<close>: it reads a payload, signs its compact JSON text and
  prints the headers as JSON.  Its signing functions are in \<open>SGraph_Client\<close>.
\<close>

text \<open>The options and \<open>payload\<close>, the text of \<open>--payload\<close>; the result is the printed text.\<close>

definition headers_json :: "headers \<Rightarrow> json" where
  "headers_json hs = JObj (map (\<lambda>(name, v). (u name, JStr v)) hs)"

definition helper_main :: "pystr \<Rightarrow> pystr \<Rightarrow> pystr option \<Rightarrow> pystr \<Rightarrow> real \<Rightarrow> pystr \<Rightarrow> exn + pystr" where
  "helper_main secret api_key path_opt payload now nonce =
     (let path = (case path_opt of None \<Rightarrow> u ''/v1/scan/attachment'' | Some p \<Rightarrow> p) in
      bindE (loadsE payload) (\<lambda>v.
        case v of
          JObj kvs \<Rightarrow> bindE (build_headers secret api_key path kvs now nonce) (\<lambda>hs. Inr (json_pretty (headers_json hs)))
        | _ \<Rightarrow> Inl AttributeError))"

lemma build_headers_plain: "build_headers secret api_key path kvs now nonce = Inr hs \<Longrightarrow> json_plain (headers_json hs)"
proof -
  assume "build_headers secret api_key path kvs now nonce = Inr hs"
  then obtain t s where "hs = [(''X-API-Key'', api_key), (''X-Timestamp'', t), (''X-Nonce'', nonce),
      (''X-Signature'', s), (''Content-Type'', u ''application/json'')]"
    by (auto simp: build_headers_def helper_sign_def Let_def exn_simps)
  moreover have "distinct (map u [''X-API-Key'', ''X-Timestamp'', ''X-Nonce'', ''X-Signature'', ''Content-Type''])"
    by code_simp
  ultimately show ?thesis by (simp add: headers_json_def)
qed

section \<open>Property\<close>

text \<open>C33: Whoever posts what the helper signed is let in: for a payload text that parses to a valid request
  with ordinary fields, the helper prints a JSON object whose members, sent as headers with the
  compact JSON text of the payload, pass the HMAC check of a connector with the same secret.  A
  payload that is not an object is an \<open>AttributeError\<close>, one that is not JSON a \<open>ValueError\<close>.\<close>

theorem helper_output_accepted:
  assumes "loadsE payload = Inr (JObj kvs)" "declared_request (JObj kvs) = Some r" "json_text_ok (JObj kvs)"
    and "plain_text path" "plain_text (rq_tenant_id r)" "plain_text (opt_or (rq_request_id r) [])" "plain_text nonce"
      "text_ok secret" "secret \<noteq> []" "\<bar>trunc now\<bar> < 10 ^ 20"
  shows "(\<exists>out hs body. helper_main secret api_key (Some path) payload now nonce = Inr out \<and>
      loadsE out = Inr (headers_json hs) \<and> json_bytes (JObj kvs) = Inr body \<and>
      signed_post secret path now nonce body hs r) \<and>
    (loadsE other = Inr v \<and> (\<nexists>kvs. v = JObj kvs) \<longrightarrow> helper_main secret api_key path_opt other now nonce = Inl AttributeError) \<and>
    (loadsE other = Inl e \<longrightarrow> helper_main secret api_key path_opt other now nonce = Inl e)"
proof -
  obtain body hs where p: "json_bytes (JObj kvs) = Inr body" "build_headers secret api_key path kvs now nonce = Inr hs"
    "signed_post secret path now nonce body hs r"
    by (rule helper_post [OF assms(2,3) loadsE_plain [OF assms(1)] assms(4-10)])
  have "loadsE (json_pretty (headers_json hs)) = Inr (headers_json hs)"
    using json_loads_pretty [OF build_headers_plain [OF p(2)]] by (simp add: loadsE_Inr)
  moreover have "helper_main secret api_key (Some path) payload now nonce = Inr (json_pretty (headers_json hs))"
    by (simp add: helper_main_def assms(1) p(2))
  moreover have "loadsE other = Inr v \<and> (\<nexists>kvs. v = JObj kvs) \<Longrightarrow> helper_main secret api_key path_opt other now nonce = Inl AttributeError"
    by (cases v) (auto simp: helper_main_def)
  ultimately show ?thesis using p by (auto simp: helper_main_def)
qed

theorem helper_output_accepted_witness:
  "\<exists>out hs body r. helper_main (u ''s'') (u ''k'') (Some (u ''/v1/scan/attachment''))
       (u ''{\"tenant_id\":\"t1\", \"request_id\":\"r1\", \"extracted_text\":\"hi\"}'') 1000 (u ''n1'') = Inr out \<and>
     loadsE out = Inr (headers_json hs) \<and> rq_extracted_text r = Some (u ''hi'') \<and>
     signed_post (u ''s'') (u ''/v1/scan/attachment'') 1000 (u ''n1'') body hs r"
proof -
  let ?kvs = "[(u ''tenant_id'', JStr (u ''t1'')), (u ''request_id'', JStr (u ''r1'')), (u ''extracted_text'', JStr (u ''hi''))]"
  have l: "loadsE (u ''{\"tenant_id\":\"t1\", \"request_id\":\"r1\", \"extracted_text\":\"hi\"}'') = Inr (JObj ?kvs)"
    by code_simp
  have d: "declared_request (JObj ?kvs) = Some \<lparr>rq_tenant_id = u ''t1'', rq_request_id = Some (u ''r1''), rq_filename = None,
      rq_mime = None, rq_file_base64 = None, rq_extracted_text = Some (u ''hi''), rq_metadata = []\<rparr>"
    by code_simp
  have "json_text_ok (JObj ?kvs)" "plain_text (u ''/v1/scan/attachment'')" "plain_text (u ''t1'')" "plain_text (u ''r1'')"
    "plain_text (u ''n1'')" "opt_or (Some (u ''r1'')) [] = u ''r1''" "text_ok (u ''s'')" "u ''s'' \<noteq> []" by code_simp+
  with helper_output_accepted [OF l d, of "u ''/v1/scan/attachment''" "u ''n1''" "u ''s''" 1000 "u ''k''"]
  show ?thesis by (force simp: trunc_nonneg)
qed

end
