(* ===== verification/Qualification.thy ===== *)
theory Qualification
  imports Ops_Scripts
begin

text \<open>
  \<open>scripts/generate_qualification_report.py\<close>: it posts a random sample of three scenarios to the
  connector, tallies verdicts, errors and fallbacks, takes latency percentiles and decides GO or
  NO-GO.  \<open>random.choice\<close> and the clock are arguments.  Floats are exact real numbers here, and
  a number is formatted by rounding its exact value half to even.
\<close>

section \<open>Formatting\<close>

definition round_even :: "real \<Rightarrow> int" where
  "round_even x =
     (let n = \<lfloor>x\<rfloor>; d = x - of_int n in
      if d < 1 / 2 then n else if d > 1 / 2 then n + 1 else if even n then n else n + 1)"

definition pad_left :: "nat \<Rightarrow> pystr \<Rightarrow> pystr" where
  "pad_left k ds = replicate (k - length ds) 48 @ ds"

text \<open>\<open>f"{x:.kf}"\<close>.\<close>

definition fixed :: "nat \<Rightarrow> real \<Rightarrow> pystr" where
  "fixed k x =
     (let n = nat (round_even (\<bar>x\<bar> * 10 ^ k)) in
      sign_str (x < 0) @ nat_digits (n div 10 ^ k) @ 46 # pad_left k (nat_digits (n mod 10 ^ k)))"

section \<open>Percentiles\<close>

text \<open>\<open>q\<close> is between 0 and 1 in every call.\<close>

definition percentile :: "real list \<Rightarrow> real \<Rightarrow> real" where
  "percentile values q =
     (if values = [] then 0
      else
        (let data = sort values;
             idx = of_nat (length data - 1) * q;
             low = nat (trunc idx);
             high = min (low + 1) (length data - 1)
         in if low = high then data ! low
            else (let frac = idx - of_nat low in data ! low * (1 - frac) + data ! high * frac)))"

section \<open>Scenarios\<close>

record qual_scenario =
  qs_name :: pystr
  qs_expected_fallback :: bool
  qs_payload :: jobj

definition qual_payload :: "string \<Rightarrow> pystr \<Rightarrow> jobj" where
  "qual_payload filename tx =
     [(u ''tenant_id'', JStr (u ''tenant-qualification'')), (u ''filename'', JStr (u filename)),
      (u ''mime'', JStr (u ''text/plain'')), (u ''extracted_text'', JStr tx),
      (u ''metadata'', JObj [(u ''source'', JStr (u ''qualification''))])]"

definition scenario_allow :: qual_scenario where
  "scenario_allow =
     \<lparr>qs_name = u ''allow'', qs_expected_fallback = False, qs_payload = qual_payload ''allow.txt'' benign_text\<rparr>"

definition scenario_quarantine :: qual_scenario where
  "scenario_quarantine =
     \<lparr>qs_name = u ''quarantine'', qs_expected_fallback = True, qs_payload = qual_payload ''oversize.txt'' oversize_text\<rparr>"

definition scenario_block :: qual_scenario where
  "scenario_block =
     \<lparr>qs_name = u ''block'', qs_expected_fallback = False, qs_payload = qual_payload ''block.txt'' attack_text\<rparr>"

definition qual_scenarios :: "qual_scenario list" where
  "qual_scenarios = replicate 70 scenario_allow @ replicate 20 scenario_quarantine @ replicate 10 scenario_block"

section \<open>One sample\<close>

record qual_args =
  qa_base_url :: pystr
  qa_path :: pystr
  qa_api_key :: pystr
  qa_hmac_secret :: pystr
  qa_samples :: int

record qual_env =
  qe_choice :: nat
  qe_fresh_id :: pystr
  qe_now :: real
  qe_nonce :: pystr
  qe_elapsed_ms :: real

definition qual_reply :: "wire \<Rightarrow> exn + int \<times> json" where
  "qual_reply w =
     (case w of
        Reply status bs \<Rightarrow> bindE (bindE (decodeE bs) loadsE) (\<lambda>v. Inr (status, v))
      | HttpErr code bs \<Rightarrow> bindE (bindE (decodeE bs) loadsE) (\<lambda>v. Inr (code, v))
      | NoReply e \<Rightarrow> Inl e)"

text \<open>\<open>qe_fresh_id\<close> is the id made from clock and random number when the payload has none.\<close>

definition with_request_id :: "jobj \<Rightarrow> pystr \<Rightarrow> jobj" where
  "with_request_id payload fresh =
     dict_put (u ''request_id'')
       (case map_of payload (u ''request_id'') of
          Some v \<Rightarrow> if truthy v then v else JStr fresh
        | None \<Rightarrow> JStr fresh) payload"

definition post_signed ::
  "network \<Rightarrow> pystr \<Rightarrow> pystr \<Rightarrow> jobj \<Rightarrow> pystr \<Rightarrow> pystr \<Rightarrow> qual_env \<Rightarrow> (int \<times> json \<times> real) script" where
  "post_signed net url path payload0 api_key secret env =
     (let payload = with_request_id payload0 (qe_fresh_id env) in
      bindS (liftE (json_bytes (JObj payload))) (\<lambda>body.
      bindS (liftE (build_headers secret api_key path payload (qe_now env) (qe_nonce env))) (\<lambda>hs.
      bindS (send net \<lparr>or_method = u ''POST'', or_url = url @ path, or_headers = hs, or_body = Some body\<rparr>) (\<lambda>w.
      bindS (liftE (qual_reply w)) (\<lambda>(status, out).
        liftE (Inr (status, out, qe_elapsed_ms env)))))))"

section \<open>Tallies\<close>

type_synonym matrix = "(pystr \<times> (pystr \<times> int) list) list"

record qual_state =
  latencies :: "real list"
  error_count :: int
  fallback_count :: int
  unexpected_fallback_count :: int
  non_fallback_expected_total :: int
  verdict_matrix :: matrix
  first_response :: "(pystr \<times> json) list"

definition zero_row :: "(pystr \<times> int) list" where
  "zero_row = [(u ''allow'', 0), (u ''quarantine'', 0), (u ''block'', 0)]"

definition new_qual_state :: qual_state where
  "new_qual_state =
     \<lparr>latencies = [], error_count = 0, fallback_count = 0, unexpected_fallback_count = 0,
      non_fallback_expected_total = 0,
      verdict_matrix = [(u ''allow'', zero_row), (u ''quarantine'', zero_row), (u ''block'', zero_row)],
      first_response = []\<rparr>"

text \<open>\<open>matrix[name][verdict] += 1\<close>, with the \<open>KeyError\<close> of a missing row or column.\<close>

definition bump :: "matrix \<Rightarrow> pystr \<Rightarrow> pystr \<Rightarrow> exn + matrix" where
  "bump m name verdict =
     (case map_of m name of
        None \<Rightarrow> Inl (KeyError name)
      | Some row \<Rightarrow>
          (case map_of row verdict of
             None \<Rightarrow> Inl (KeyError verdict)
           | Some n \<Rightarrow> Inr (dict_put name (dict_put verdict (n + 1) row) m)))"

definition is_fallback_reply :: "jobj \<Rightarrow> bool" where
  "is_fallback_reply out =
     (case map_of out (u ''policy_trace'') of
        Some (JObj trace) \<Rightarrow> map_of trace (u ''source'') = Some (JStr (u ''connector_fallback''))
      | _ \<Rightarrow> False)"

definition sampled_verdict :: "jobj \<Rightarrow> pystr" where
  "sampled_verdict out =
     (let verdict = verdict_text out in
      if verdict \<in> {u ''allow'', u ''quarantine'', u ''block''} then verdict else u ''quarantine'')"

definition absorb :: "qual_state \<Rightarrow> qual_scenario \<Rightarrow> int \<times> json \<times> real \<Rightarrow> exn + qual_state" where
  "absorb st scenario sample =
     (case sample of (status, reply, latency_ms) \<Rightarrow>
        (case reply of
           JObj out \<Rightarrow>
             (let is_fallback = is_fallback_reply out; expected = qs_expected_fallback scenario in
              bindE (bump (verdict_matrix st) (qs_name scenario) (sampled_verdict out)) (\<lambda>m.
                Inr (st\<lparr>latencies := latencies st @ [latency_ms],
                        error_count := error_count st + (if 400 \<le> status then 1 else 0),
                        fallback_count := fallback_count st + (if is_fallback then 1 else 0),
                        non_fallback_expected_total :=
                          non_fallback_expected_total st + (if expected then 0 else 1),
                        unexpected_fallback_count :=
                          unexpected_fallback_count st + (if \<not> expected \<and> is_fallback then 1 else 0),
                        verdict_matrix := m,
                        first_response :=
                          (if map_of (first_response st) (qs_name scenario) = None
                           then first_response st @ [(qs_name scenario, reply)] else first_response st)\<rparr>)))
         | _ \<Rightarrow> Inl AttributeError))"

definition sample_round :: "network \<Rightarrow> qual_args \<Rightarrow> qual_env \<Rightarrow> nat \<Rightarrow> qual_state \<Rightarrow> qual_state script" where
  "sample_round net args env idx st =
     (let scenario = qual_scenarios ! qe_choice env;
          payload = dict_put (u ''request_id'')
            (JStr (u ''qual-'' @ qs_name scenario @ u ''-'' @ py_str_int (int idx))) (qs_payload scenario)
      in bindS (post_signed net (rstrip_char 47 (qa_base_url args)) (qa_path args) payload (qa_api_key args)
                  (qa_hmac_secret args) env) (\<lambda>sample.
         liftE (absorb st scenario sample)))"

fun sample_loop :: "network \<Rightarrow> qual_args \<Rightarrow> (nat \<Rightarrow> qual_env) \<Rightarrow> nat list \<Rightarrow> qual_state \<Rightarrow> qual_state script" where
  "sample_loop net args envs [] st = liftE (Inr st)"
| "sample_loop net args envs (idx # idxs) st =
     bindS (sample_round net args (envs idx) idx st) (\<lambda>st'. sample_loop net args envs idxs st')"

section \<open>Summary and decision\<close>

record qual_summary =
  total_requests :: int
  error_rate :: real
  fallback_rate :: real
  unexpected_fallback_rate :: real
  latency_p50 :: real
  latency_p95 :: real
  latency_p99 :: real
  sum_matrix :: matrix
  sample_responses :: "(pystr \<times> json) list"
  decision :: pystr
  blockers :: "pystr list"

definition qual_blockers :: "real \<Rightarrow> real \<Rightarrow> real \<Rightarrow> pystr list" where
  "qual_blockers unexpected errors p95 =
     (if unexpected > 1 / 100
      then [u ''unexpected_fallback_rate '' @ fixed 4 unexpected @ u '' > 0.0100''] else []) @
     (if errors \<ge> 1 / 100 then [u ''error_rate '' @ fixed 4 errors @ u '' >= 0.0100''] else []) @
     (if p95 \<ge> 1000 then [u ''latency p95 '' @ fixed 1 p95 @ u ''ms >= 1000.0ms''] else [])"

definition summarize :: "qual_state \<Rightarrow> qual_summary" where
  "summarize st =
     (let total = max 1 (int (length (latencies st)));
          errors = of_int (error_count st) / of_int total;
          unexpected = of_int (unexpected_fallback_count st) / of_int (max 1 (non_fallback_expected_total st));
          p95 = percentile (latencies st) (95 / 100);
          bs = qual_blockers unexpected errors p95
      in \<lparr>total_requests = total, error_rate = errors,
          fallback_rate = of_int (fallback_count st) / of_int total,
          unexpected_fallback_rate = unexpected,
          latency_p50 = percentile (latencies st) (1 / 2), latency_p95 = p95,
          latency_p99 = percentile (latencies st) (99 / 100),
          sum_matrix = verdict_matrix st, sample_responses = first_response st,
          decision = (if bs = [] then u ''GO'' else u ''NO-GO''), blockers = bs\<rparr>)"

definition matrix_cell :: "matrix \<Rightarrow> pystr \<Rightarrow> string \<Rightarrow> pystr" where
  "matrix_cell m name verdict =
     py_str_int (case map_of (case map_of m name of None \<Rightarrow> [] | Some row \<Rightarrow> row) (u verdict) of
                   None \<Rightarrow> 0 | Some n \<Rightarrow> n)"

definition render_markdown :: "qual_summary \<Rightarrow> pystr" where
  "render_markdown s = join_nl
     ([u ''# Qualification Report'', [],
       u ''- Decision: **'' @ decision s @ u ''**'',
       u ''- Total requests: '' @ py_str_int (total_requests s),
       u ''- Error rate: '' @ fixed 4 (error_rate s),
       u ''- Fallback rate (overall): '' @ fixed 4 (fallback_rate s),
       u ''- Fallback rate (unexpected): '' @ fixed 4 (unexpected_fallback_rate s),
       u ''- Latency p50/p95/p99 (ms): '' @ fixed 1 (latency_p50 s) @ u '' / '' @ fixed 1 (latency_p95 s) @
         u '' / '' @ fixed 1 (latency_p99 s),
       [], u ''## Verdict Matrix'', [],
       u ''| Scenario | allow | quarantine | block |'', u ''| --- | ---: | ---: | ---: |''] @
      map (\<lambda>name. u ''| '' @ name @ u '' | '' @ matrix_cell (sum_matrix s) name ''allow'' @ u '' | '' @
             matrix_cell (sum_matrix s) name ''quarantine'' @ u '' | '' @
             matrix_cell (sum_matrix s) name ''block'' @ u '' |'')
        [u ''allow'', u ''quarantine'', u ''block''] @
      [[], u ''## Blockers'', []] @
      (if blockers s = [] then [u ''- none''] else map (\<lambda>item. u ''- '' @ item) (blockers s)) @ [[]])"

definition qual_main :: "network \<Rightarrow> qual_args \<Rightarrow> (nat \<Rightarrow> qual_env) \<Rightarrow> (qual_summary \<times> pystr) script" where
  "qual_main net args envs =
     bindS (sample_loop net args envs [0..<nat (max 1 (qa_samples args))] new_qual_state) (\<lambda>st.
       (let summary = summarize st in liftE (Inr (summary, render_markdown summary))))"

end
