(* ===== verification/Qualification_Properties.thy ===== *)
theory Qualification_Properties
  imports Qualification
begin

text \<open>
  The qualification report is right: its percentiles are bounded by the latencies and ordered, its
  matrix is the tally of what the connector answered, and its decision is the stated thresholds.
\<close>

section \<open>Interpolation\<close>


lemma sort_eq_Nil [simp]: "sort xs = [] \<longleftrightarrow> xs = []"
  by (metis length_sort length_0_conv)








section \<open>The tally\<close>

text \<open>One observation: the scenario, the status and the object the connector answered, the latency.\<close>

type_synonym observation = "qual_scenario \<times> int \<times> jobj \<times> real"

definition verdict_names :: "pystr list" where
  "verdict_names = [u ''allow'', u ''quarantine'', u ''block'']"

definition matrix_of :: "(pystr \<Rightarrow> pystr \<Rightarrow> int) \<Rightarrow> matrix" where
  "matrix_of f = map (\<lambda>name. (name, map (\<lambda>v. (v, f name v)) verdict_names)) verdict_names"

definition tally :: "(observation \<Rightarrow> bool) \<Rightarrow> observation list \<Rightarrow> int" where
  "tally P obs = int (length (filter P obs))"

definition cell :: "observation list \<Rightarrow> pystr \<Rightarrow> pystr \<Rightarrow> int" where
  "cell obs name v = tally (\<lambda>(scenario, status, out, ms). qs_name scenario = name \<and> sampled_verdict out = v) obs"

definition observed_fallback :: "observation \<Rightarrow> bool" where
  "observed_fallback ob = (case ob of (scenario, status, out, ms) \<Rightarrow> is_fallback_reply out)"

definition unexpected :: "observation \<Rightarrow> bool" where
  "unexpected ob = (case ob of (scenario, status, out, ms) \<Rightarrow> \<not> qs_expected_fallback scenario)"

definition tallied :: "qual_state \<Rightarrow> observation list \<Rightarrow> bool" where
  "tallied st obs \<longleftrightarrow>
     latencies st = map (\<lambda>(scenario, status, out, ms). ms) obs \<and>
     error_count st = tally (\<lambda>(scenario, status, out, ms). 400 \<le> status) obs \<and>
     fallback_count st = tally observed_fallback obs \<and>
     non_fallback_expected_total st = tally unexpected obs \<and>
     unexpected_fallback_count st = tally (\<lambda>ob. unexpected ob \<and> observed_fallback ob) obs \<and>
     verdict_matrix st = matrix_of (cell obs)"

lemma tally_simps [simp]: "tally P [] = 0" "tally P (obs @ [ob]) = tally P obs + (if P ob then 1 else 0)"
  by (simp_all add: tally_def)

lemma tally_mono: "(\<And>ob. P ob \<Longrightarrow> Q ob) \<Longrightarrow> tally P obs \<le> tally Q obs"
  unfolding tally_def by (induction obs) auto

lemma tally_le: "0 \<le> tally P obs" "tally P obs \<le> int (length obs)"
  by (simp_all add: tally_def)

lemma new_qual_state_tallied: "tallied new_qual_state []"
  by (simp add: tallied_def new_qual_state_def matrix_of_def verdict_names_def zero_row_def cell_def)

lemma bump_matrix_of:
  assumes "name \<in> set verdict_names" "v \<in> set verdict_names"
  shows "bump (matrix_of f) name v = Inr (matrix_of (\<lambda>n w. f n w + (if n = name \<and> w = v then 1 else 0)))"
  using assms by (auto simp: bump_def matrix_of_def verdict_names_def)

lemma sampled_verdict_name: "sampled_verdict out \<in> set verdict_names"
  by (simp add: sampled_verdict_def Let_def verdict_names_def)

lemma scenario_name: "scenario \<in> set qual_scenarios \<Longrightarrow> qs_name scenario \<in> set verdict_names"
  by (auto simp: qual_scenarios_def scenario_allow_def scenario_quarantine_def scenario_block_def verdict_names_def
      simp del: replicate.simps)

text \<open>Every object reply is tallied: the matrix has a cell for it, so no \<open>KeyError\<close> can occur.\<close>

lemma absorb_tallied:
  assumes "tallied st obs" "scenario \<in> set qual_scenarios"
  shows "\<exists>st'. absorb st scenario (status, JObj out, ms) = Inr st' \<and> tallied st' (obs @ [(scenario, status, out, ms)])"
proof -
  have "cell (obs @ [(scenario, status, out, ms)]) =
      (\<lambda>n w. cell obs n w + (if n = qs_name scenario \<and> w = sampled_verdict out then 1 else 0))"
    by (auto simp: fun_eq_iff cell_def)
  then have "bump (verdict_matrix st) (qs_name scenario) (sampled_verdict out) =
      Inr (matrix_of (cell (obs @ [(scenario, status, out, ms)])))"
    using assms(1) bump_matrix_of [OF scenario_name [OF assms(2)] sampled_verdict_name [of out], of "cell obs"]
    by (simp add: tallied_def)
  then show ?thesis
    using assms(1) by (simp add: absorb_def Let_def tallied_def observed_fallback_def unexpected_def)
qed

lemma absorb_Inl:
  assumes "tallied st obs" "scenario \<in> set qual_scenarios" "absorb st scenario sample = Inl e"
  shows "e = AttributeError"
proof -
  obtain status reply ms where "sample = (status, reply, ms)" by (cases sample)
  moreover have False if "reply = JObj out" for out
    using absorb_tallied [OF assms(1,2), of status out ms] assms(3) calculation that by auto
  ultimately show ?thesis using assms(3) by (cases reply) (auto simp: absorb_def)
qed

lemma length_qual_scenarios: "length qual_scenarios = 100"
  by (simp add: qual_scenarios_def del: replicate.simps)

lemma chosen_scenario: "i < 100 \<Longrightarrow> qual_scenarios ! i \<in> set qual_scenarios"
  using nth_mem [of i qual_scenarios] length_qual_scenarios by simp

text \<open>What the \<open>i\<close>-th sample observed: the scenario chosen, and the answer to the last request sent.\<close>

definition observes :: "network \<Rightarrow> qual_env \<Rightarrow> observation \<Rightarrow> out_request list \<Rightarrow> bool" where
  "observes net env ob sent \<longleftrightarrow>
     (\<exists>status out. ob = (qual_scenarios ! qe_choice env, status, out, qe_elapsed_ms env) \<and>
        qual_reply (net sent) = Inr (status, JObj out))"

lemma post_signed_Inr:
  assumes "post_signed net url path payload key secret env s = (Inr (status, out, ms), s')"
  shows "\<exists>q. s' = s @ [q] \<and> qual_reply (net s') = Inr (status, out) \<and> ms = qe_elapsed_ms env"
  using assms unfolding post_signed_def Let_def
  by (auto simp: bindS_eq_Inr liftE_eq send_eq split: prod.splits)

lemma sample_round_Inr:
  assumes "tallied st obs" "qe_choice env < 100" "sample_round net args env idx st s = (Inr st', s')"
  shows "\<exists>q ob. s' = s @ [q] \<and> observes net env ob s' \<and> tallied st' (obs @ [ob])"
proof -
  let ?sc = "qual_scenarios ! qe_choice env"
  obtain status reply ms s1 where post: "post_signed net (rstrip_char 47 (qa_base_url args)) (qa_path args)
      (dict_put (u ''request_id'') (JStr (u ''qual-'' @ qs_name ?sc @ u ''-'' @ py_str_int (int idx))) (qs_payload ?sc))
      (qa_api_key args) (qa_hmac_secret args) env s = (Inr (status, reply, ms), s1)"
    and ab: "absorb st ?sc (status, reply, ms) = Inr st'" "s' = s1"
    using assms(3) unfolding sample_round_def Let_def by (auto simp: bindS_eq_Inr liftE_eq)
  from post_signed_Inr [OF post] obtain q where q: "s' = s @ [q]" "qual_reply (net s') = Inr (status, reply)"
    "ms = qe_elapsed_ms env" using ab(2) by blast
  obtain out where out: "reply = JObj out" using ab(1) by (cases reply) (simp_all add: absorb_def)
  have "tallied st' (obs @ [(?sc, status, out, ms)])"
    using absorb_tallied [OF assms(1) chosen_scenario [OF assms(2)], of status out ms] ab(1) out by auto
  then show ?thesis using q out unfolding observes_def by blast
qed

lemma sample_loop_Inr:
  assumes "tallied st obs" "\<And>i. qe_choice (envs i) < 100" "sample_loop net args envs idxs st s = (Inr st', s')"
  shows "\<exists>qs obs'. s' = s @ qs \<and> length qs = length idxs \<and> length obs' = length idxs \<and> tallied st' (obs @ obs') \<and>
    (\<forall>i<length idxs. observes net (envs (idxs ! i)) (obs' ! i) (s @ take (Suc i) qs))"
  using assms(1,3)
proof (induction idxs arbitrary: st obs s)
  case (Cons idx idxs)
  then obtain st1 s1 where st: "sample_round net args (envs idx) idx st s = (Inr st1, s1)"
    "sample_loop net args envs idxs st1 s1 = (Inr st', s')" by (auto simp: bindS_eq_Inr)
  obtain q ob where q: "s1 = s @ [q]" "observes net (envs idx) ob s1" "tallied st1 (obs @ [ob])"
    using sample_round_Inr [OF Cons.prems(1) assms(2) st(1)] by blast
  obtain qs obs' where "s' = s1 @ qs" "length qs = length idxs" "length obs' = length idxs" "tallied st' ((obs @ [ob]) @ obs')"
    "\<forall>i<length idxs. observes net (envs (idxs ! i)) (obs' ! i) (s1 @ take (Suc i) qs)"
    using Cons.IH [OF q(3) st(2)] by blast
  then show ?case
    using q by (intro exI [of _ "q # qs"] exI [of _ "ob # obs'"]) (auto simp: less_Suc_eq_0_disj)
qed (auto simp: liftE_eq)

lemma qual_main_Inr:
  assumes "qual_main net args envs [] = (Inr (summary, md), sent)" "\<forall>i. qe_choice (envs i) < 100"
  obtains st obs where "summary = summarize st" "length obs = nat (max 1 (qa_samples args))" "length sent = nat (max 1 (qa_samples args))"
    "tallied st obs" "\<forall>i<nat (max 1 (qa_samples args)). observes net (envs i) (obs ! i) (take (Suc i) sent)"
    "sample_loop net args envs [0..<nat (max 1 (qa_samples args))] new_qual_state [] = (Inr st, sent)"
    "md = render_markdown summary"
proof -
  let ?n = "nat (max 1 (qa_samples args))"
  obtain st where st: "sample_loop net args envs [0..<?n] new_qual_state [] = (Inr st, sent)" "summary = summarize st"
    "md = render_markdown summary"
    using assms(1) unfolding qual_main_def Let_def by (auto simp: bindS_eq_Inr liftE_eq)
  obtain obs where "length obs = ?n" "length sent = ?n" "tallied st obs"
    "\<forall>i<?n. observes net (envs i) (obs ! i) (take (Suc i) sent)"
    using sample_loop_Inr [OF new_qual_state_tallied _ st(1)] assms(2) by auto
  with st that show ?thesis by blast
qed

lemma sum_one_cell:
  fixes f :: "'a \<Rightarrow> 'a \<Rightarrow> int"
  assumes "distinct ns" "x \<in> set ns" "y \<in> set ns"
  shows "(\<Sum>a\<leftarrow>ns. \<Sum>b\<leftarrow>ns. f a b + (if a = x \<and> b = y then 1 else 0)) = (\<Sum>a\<leftarrow>ns. \<Sum>b\<leftarrow>ns. f a b) + 1"
proof -
  have "(\<Sum>b\<leftarrow>ns. if a = x \<and> b = y then 1 else (0 :: int)) = (if a = x then 1 else 0)" for a
    using assms by (simp add: sum_list_distinct_conv_sum_set)
  moreover have "(\<Sum>a\<leftarrow>ns. if a = x then 1 else (0 :: int)) = 1"
    using assms by (simp add: sum_list_distinct_conv_sum_set)
  ultimately show ?thesis by (simp add: sum_list_addf)
qed

lemma distinct_verdict_names: "distinct verdict_names"
  by (simp add: verdict_names_def)

lemma cells_total:
  assumes "\<forall>(scenario, status, out, ms)\<in>set obs. qs_name scenario \<in> set verdict_names"
  shows "(\<Sum>name\<leftarrow>verdict_names. \<Sum>v\<leftarrow>verdict_names. cell obs name v) = int (length obs)"
  using assms
proof (induction obs rule: rev_induct)
  case Nil
  then show ?case by (simp add: cell_def verdict_names_def)
next
  case (snoc ob obs)
  obtain scenario status out ms where ob: "ob = (scenario, status, out, ms)" by (cases ob)
  have n: "qs_name scenario \<in> set verdict_names" "sampled_verdict out \<in> set verdict_names"
    using snoc.prems ob sampled_verdict_name by auto
  have step: "cell (obs @ [ob]) name v = cell obs name v + (if name = qs_name scenario \<and> v = sampled_verdict out then 1 else 0)" for name v
    by (auto simp: cell_def ob)
  have "(\<Sum>name\<leftarrow>verdict_names. \<Sum>v\<leftarrow>verdict_names. cell (obs @ [ob]) name v) =
      (\<Sum>name\<leftarrow>verdict_names. \<Sum>v\<leftarrow>verdict_names. cell obs name v) + 1"
    unfolding step by (rule sum_one_cell [OF distinct_verdict_names n])
  then show ?case using snoc by simp
qed

section \<open>Properties\<close>



text \<open>C39: The tally is well typed: in a state that tallies some observations, every reply for a sampled
  scenario has its cell in the matrix, so no \<open>KeyError\<close> can be raised, the next state tallies one
  observation more, and the only exception is the \<open>AttributeError\<close> of a reply that is not an
  object.  A reply without one of the three verdicts, such as an error envelope, counts as
  \<open>quarantine\<close>.\<close>

theorem tally_well_typed:
  assumes "tallied st obs" "scenario \<in> set qual_scenarios"
  shows "(\<exists>st'. absorb st scenario (status, JObj out, ms) = Inr st' \<and> tallied st' (obs @ [(scenario, status, out, ms)])) \<and>
    (absorb st scenario sample = Inl e \<longrightarrow> e = AttributeError \<and> (\<nexists>kvs. fst (snd sample) = JObj kvs)) \<and>
    (map_of out (u ''verdict'') = None \<longrightarrow> sampled_verdict out = u ''quarantine'')"
proof -
  obtain c r l where s: "sample = (c, r, l)" by (cases sample)
  have "absorb st scenario sample = Inl e \<Longrightarrow> fst (snd sample) \<noteq> JObj kvs" for kvs
    using absorb_tallied [OF assms, of c kvs l] by (auto simp: s)
  moreover have "lower (strip (u ''quarantine'')) = u ''quarantine''" by code_simp
  then have "map_of out (u ''verdict'') = None \<Longrightarrow> sampled_verdict out = u ''quarantine''"
    by (simp add: sampled_verdict_def verdict_text_def Let_def)
  ultimately show ?thesis using absorb_tallied [OF assms] absorb_Inl [OF assms] by blast
qed

theorem tally_well_typed_witness:
  "\<exists>st'. absorb new_qual_state scenario_block (503, JObj [], 12) = Inr st' \<and>
     verdict_matrix st' = matrix_of (cell [(scenario_block, 503, [], 12)]) \<and> sampled_verdict [] = u ''quarantine''"
proof -
  have "scenario_block \<in> set qual_scenarios" by (simp add: qual_scenarios_def del: replicate.simps)
  from tally_well_typed [OF new_qual_state_tallied this, of 503 "[]" 12 "(503, JNull, 12)" TypeError] show ?thesis
    by (auto simp: tallied_def)
qed

text \<open>C22: The report is about what happened: a run that returns has sent \<open>max 1 samples\<close> requests, and its
  rates and its matrix are the counts over the observations, one per request: the scenario chosen
  and the connector's answer to that request; the nine cells add up to the number of requests.\<close>

theorem qualification_report_correct:
  assumes "qual_main net args envs [] = (Inr (summary, md), sent)" "\<forall>i. qe_choice (envs i) < 100"
  shows "\<exists>obs. length obs = nat (max 1 (qa_samples args)) \<and> length sent = length obs \<and>
    (\<forall>i<length obs. observes net (envs i) (obs ! i) (take (Suc i) sent)) \<and>
    total_requests summary = int (length obs) \<and>
    error_rate summary = of_int (tally (\<lambda>(scenario, status, out, ms). 400 \<le> status) obs) / of_int (total_requests summary) \<and>
    fallback_rate summary = of_int (tally observed_fallback obs) / of_int (total_requests summary) \<and>
    unexpected_fallback_rate summary =
      of_int (tally (\<lambda>ob. unexpected ob \<and> observed_fallback ob) obs) / of_int (max 1 (tally unexpected obs)) \<and>
    sum_matrix summary = matrix_of (cell obs) \<and>
    (\<Sum>name\<leftarrow>verdict_names. \<Sum>v\<leftarrow>verdict_names. cell obs name v) = total_requests summary"
proof -
  let ?n = "nat (max 1 (qa_samples args))"
  obtain st obs where st: "summary = summarize st" and obs: "length obs = ?n" "length sent = ?n" "tallied st obs"
    "\<forall>i<?n. observes net (envs i) (obs ! i) (take (Suc i) sent)"
    by (rule qual_main_Inr [OF assms])
  have "\<forall>(scenario, status, out, ms)\<in>set obs. qs_name scenario \<in> set verdict_names"
  proof (clarify)
    fix scenario status out ms
    assume "(scenario, status, out, ms) \<in> set obs"
    then obtain i where "i < ?n" "obs ! i = (scenario, status, out, ms)" using obs(1) by (metis in_set_conv_nth)
    then have "scenario = qual_scenarios ! qe_choice (envs i)" using obs(4) by (auto simp: observes_def)
    then show "qs_name scenario \<in> set verdict_names" using scenario_name chosen_scenario assms(2) by blast
  qed
  note cells_total [OF this]
  moreover have "length (latencies st) = ?n" using obs(1,3) by (simp add: tallied_def)
  then have "total_requests summary = int ?n" by (simp add: st summarize_def Let_def)
  ultimately show ?thesis
    using obs by (intro exI [of _ obs]) (simp add: st summarize_def Let_def tallied_def)
qed

text \<open>A network that allows everything: one sample of the first scenario.\<close>

definition demo_qual_args :: qual_args where
  "demo_qual_args = \<lparr>qa_base_url = u ''http://h/'', qa_path = u ''/v1/scan/attachment'', qa_api_key = u ''k1'',
     qa_hmac_secret = u ''s3cret'', qa_samples = 0\<rparr>"

definition demo_qual_env :: qual_env where
  "demo_qual_env = \<lparr>qe_choice = 0, qe_fresh_id = u ''x'', qe_now = 1000, qe_nonce = u ''n1'', qe_elapsed_ms = 12\<rparr>"

definition demo_qual_payload :: jobj where
  "demo_qual_payload = dict_put (u ''request_id'') (JStr (u ''qual-allow-0'')) (qual_payload ''allow.txt'' benign_text)"

lemma demo_qual_headers:
  "\<exists>body hs. json_bytes (JObj demo_qual_payload) = Inr body \<and>
     build_headers (u ''s3cret'') (u ''k1'') (u ''/v1/scan/attachment'') demo_qual_payload 1000 (u ''n1'') = Inr hs"
proof -
  have p: "plain_text (u ''/v1/scan/attachment'')" "plain_text (u ''n1'')" "text_ok (u ''s3cret'')"
    "plain_text (u ''tenant-qualification'')" "plain_text (u ''qual-allow-0'')" by code_simp+
  have b: "text_ok benign_text" by (simp add: benign_text_def)
  have r: "declared_request (JObj demo_qual_payload) =
      Some \<lparr>rq_tenant_id = u ''tenant-qualification'', rq_request_id = Some (u ''qual-allow-0''), rq_filename = Some (u ''allow.txt''),
        rq_mime = Some (u ''text/plain''), rq_file_base64 = None, rq_extracted_text = Some benign_text,
        rq_metadata = [(u ''source'', JStr (u ''qualification''))]\<rparr>"
    using b by (simp add: declared_request_def demo_qual_payload_def qual_payload_def tenant_field_def opt_str_field_def
        metadata_field_def request_keys_def)
  have "json_text_ok (JObj demo_qual_payload)" "json_plain (JObj demo_qual_payload)"
    using b by (simp_all add: demo_qual_payload_def qual_payload_def)
  from helper_post [OF r this p(1) _ _ p(2,3), of 1000 "u ''k1''"] p(4,5) show ?thesis
    by (auto simp: trunc_nonneg opt_or_def plain_text_def)
qed

lemma demo_qual_run:
  obtains summary md sent where
    "qual_main (\<lambda>_. Reply 200 demo_allow) demo_qual_args (\<lambda>_. demo_qual_env) [] = (Inr (summary, md), sent)"
    "sample_responses summary = [(u ''allow'', JObj [(u ''verdict'', JStr (u ''allow''))])]"
proof -
  obtain body hs where h: "json_bytes (JObj demo_qual_payload) = Inr body"
    "build_headers (u ''s3cret'') (u ''k1'') (u ''/v1/scan/attachment'') demo_qual_payload 1000 (u ''n1'') = Inr hs"
    using demo_qual_headers by blast
  have first: "qual_scenarios ! 0 = scenario_allow" "scenario_allow \<in> set qual_scenarios"
    by (simp_all add: qual_scenarios_def nth_append del: replicate.simps)
  have rid: "with_request_id demo_qual_payload fresh = demo_qual_payload" for fresh
    by (simp add: with_request_id_def demo_qual_payload_def qual_payload_def)
  have payload: "dict_put (u ''request_id'') (JStr (u ''qual-'' @ qs_name scenario_allow @ u ''-'' @ py_str_int 0)) (qs_payload scenario_allow) =
      demo_qual_payload"
  proof -
    have "u ''qual-'' @ u ''allow'' @ u ''-'' @ py_str_int 0 = u ''qual-allow-0''" by code_simp
    then show ?thesis by (simp add: scenario_allow_def demo_qual_payload_def)
  qed
  have reply: "qual_reply (Reply 200 demo_allow) = Inr (200, JObj [(u ''verdict'', JStr (u ''allow''))])"
    using demo_allow_parses by (simp add: qual_reply_def)
  obtain st where st: "absorb new_qual_state scenario_allow (200, JObj [(u ''verdict'', JStr (u ''allow''))], 12) = Inr st"
    using absorb_tallied [OF new_qual_state_tallied first(2)] by blast
  have "sample_round (\<lambda>_. Reply 200 demo_allow) demo_qual_args demo_qual_env 0 new_qual_state [] =
      (Inr st, [\<lparr>or_method = u ''POST'', or_url = rstrip_char 47 (u ''http://h/'') @ u ''/v1/scan/attachment'',
        or_headers = hs, or_body = Some body\<rparr>])"
    unfolding sample_round_def Let_def
    by (simp add: demo_qual_env_def first(1) payload)
      (simp add: demo_qual_args_def post_signed_def Let_def rid h bindS_def liftE_def send_def reply st)
  moreover have "first_response st = [(u ''allow'', JObj [(u ''verdict'', JStr (u ''allow''))])]"
    using st by (auto simp: absorb_def exn_simps Let_def new_qual_state_def scenario_allow_def)
  ultimately show ?thesis
    by (intro that [of "summarize st"]) (simp_all add: qual_main_def bindS_def liftE_def Let_def demo_qual_args_def summarize_def)
qed

theorem qualification_report_correct_witness:
  "\<exists>summary md sent. qual_main (\<lambda>_. Reply 200 demo_allow) demo_qual_args (\<lambda>_. demo_qual_env) [] = (Inr (summary, md), sent) \<and>
     total_requests summary = 1 \<and> length sent = 1"
proof -
  obtain summary md sent where r: "qual_main (\<lambda>_. Reply 200 demo_allow) demo_qual_args (\<lambda>_. demo_qual_env) [] = (Inr (summary, md), sent)"
    by (rule demo_qual_run)
  have "\<forall>i :: nat. qe_choice demo_qual_env < 100" by (simp add: demo_qual_env_def)
  from qualification_report_correct [OF r this] have "total_requests summary = 1 \<and> length sent = 1"
    by (auto simp: demo_qual_args_def)
  with r show ?thesis by blast
qed

text \<open>C30: The decision is the stated thresholds on the counts: GO exactly if at most one in a hundred of the
  samples that should not fall back did, fewer than one in a hundred requests was an HTTP error,
  and the 95th percentile is under a second; each violated threshold adds one blocker, and the
  Markdown report states the same decision.\<close>

theorem qualification_decision:
  "(decision (summarize st) = u ''GO'' \<longleftrightarrow>
      100 * unexpected_fallback_count st \<le> max 1 (non_fallback_expected_total st) \<and>
      100 * error_count st < max 1 (int (length (latencies st))) \<and> percentile (latencies st) (95 / 100) < 1000) \<and>
   (decision (summarize st) = u ''GO'' \<or> decision (summarize st) = u ''NO-GO'') \<and>
   length (blockers (summarize st)) =
      (if 100 * unexpected_fallback_count st \<le> max 1 (non_fallback_expected_total st) then 0 else 1) +
      (if 100 * error_count st < max 1 (int (length (latencies st))) then 0 else 1) +
      (if percentile (latencies st) (95 / 100) < 1000 then 0 else 1) \<and>
   (\<exists>rest. render_markdown (summarize st) =
      u ''# Qualification Report'' @ [10, 10] @ u ''- Decision: **'' @ decision (summarize st) @ u ''**'' @ [10] @ rest)"
proof -
  have le: "(1 / 100 :: real) < of_int a / of_int (max 1 b) \<longleftrightarrow> \<not> 100 * a \<le> max 1 b" for a b :: int
  proof -
    have "(0 :: real) < of_int (max 1 b)" by (simp del: of_int_max)
    then have "(1 / 100 :: real) < of_int a / of_int (max 1 b) \<longleftrightarrow> of_int (max 1 b) < (of_int (100 * a) :: real)"
      by (simp add: field_simps del: of_int_max)
    also have "\<dots> \<longleftrightarrow> max 1 b < 100 * a" by (rule of_int_less_iff)
    finally show ?thesis by linarith
  qed
  have lt: "(1 / 100 :: real) \<le> of_int a / of_int (max 1 b) \<longleftrightarrow> \<not> 100 * a < max 1 b" for a b :: int
  proof -
    have "(0 :: real) < of_int (max 1 b)" by (simp del: of_int_max)
    then have "(1 / 100 :: real) \<le> of_int a / of_int (max 1 b) \<longleftrightarrow> of_int (max 1 b) \<le> (of_int (100 * a) :: real)"
      by (simp add: field_simps del: of_int_max)
    also have "\<dots> \<longleftrightarrow> max 1 b \<le> 100 * a" by (rule of_int_le_iff)
    finally show ?thesis by linarith
  qed
  have bs: "blockers (summarize st) = qual_blockers (of_int (unexpected_fallback_count st) / of_int (max 1 (non_fallback_expected_total st)))
      (of_int (error_count st) / of_int (max 1 (int (length (latencies st))))) (percentile (latencies st) (95 / 100))"
    and d: "decision (summarize st) = (if blockers (summarize st) = [] then u ''GO'' else u ''NO-GO'')"
    by (simp_all add: summarize_def Let_def del: of_int_max)
  have "\<exists>rest. render_markdown (summarize st) =
      u ''# Qualification Report'' @ [10, 10] @ u ''- Decision: **'' @ decision (summarize st) @ u ''**'' @ [10] @ rest"
    by (simp add: render_markdown_def)
  then show ?thesis
    unfolding d bs qual_blockers_def le lt by (auto simp: not_le not_less)
qed

end
