(* ===== verification/Perf_Report.thy ===== *)
theory Perf_Report
  imports Qualification
begin

text \<open>
  \<open>scripts/perf_report.py\<close>: it reads two k6 summaries, extracts rates and latency percentiles from
  either shape k6 writes, and renders a Markdown table.  The file system is a function from path to
  content; \<open>float(x)\<close> is modelled for every JSON value, strings included (ASCII digits).
\<close>

section \<open>\<open>float(x)\<close>\<close>

text \<open>Underscores may only stand between two digits; they are then dropped.\<close>

fun underscores_ok :: "bool \<Rightarrow> pystr \<Rightarrow> bool" where
  "underscores_ok prev [] = True"
| "underscores_ok prev (c # s) =
     (if c = 95 then prev \<and> s \<noteq> [] \<and> is_digit (hd s) \<and> underscores_ok False s
      else underscores_ok (is_digit c) s)"

text \<open>Digits, an optional fraction, an optional exponent, and nothing else.\<close>

definition decimal_str :: "bool \<Rightarrow> pystr \<Rightarrow> pyfloat option" where
  "decimal_str neg s =
     (let ip = takeWhile is_digit s; r = dropWhile is_digit s;
          fp = (if r \<noteq> [] \<and> hd r = 46 then takeWhile is_digit (tl r) else []);
          r2 = (if r \<noteq> [] \<and> hd r = 46 then dropWhile is_digit (tl r) else r)
      in if ip = [] \<and> fp = [] then None
         else if r2 = [] then Some (float_of neg ip fp 0)
         else (case exp_part r2 of Some (x, []) \<Rightarrow> Some (float_of neg ip fp x) | _ \<Rightarrow> None))"

definition unsigned_float :: "bool \<Rightarrow> pystr \<Rightarrow> pyfloat option" where
  "unsigned_float neg s =
     (if lower s = u ''inf'' \<or> lower s = u ''infinity'' then Some (Inf neg)
      else if lower s = u ''nan'' then Some NaN
      else if underscores_ok False s then decimal_str neg (filter (\<lambda>c. c \<noteq> 95) s)
      else None)"

definition py_float_str :: "pystr \<Rightarrow> pyfloat option" where
  "py_float_str s =
     (case strip s of
        [] \<Rightarrow> None
      | c # r \<Rightarrow>
          if c = 45 then unsigned_float True r
          else if c = 43 then unsigned_float False r
          else unsigned_float False (c # r))"

fun py_float :: "json \<Rightarrow> exn + pyfloat" where
  "py_float (JBool b) = Inr (Dec False (if b then 1 else 0) 0)"
| "py_float (JInt n) =
     (case float_of (n < 0) (nat_digits (nat \<bar>n\<bar>)) [] 0 of
        Inf _ \<Rightarrow> Inl OverflowError | f \<Rightarrow> Inr f)"
| "py_float (JFloat f) = Inr f"
| "py_float (JStr s) = (case py_float_str s of None \<Rightarrow> Inl ValueError | Some f \<Rightarrow> Inr f)"
| "py_float _ = Inl TypeError"

section \<open>Extraction\<close>

definition load_json :: "bytes \<Rightarrow> exn + json" where
  "load_json content = bindE (decodeE content) loadsE"

definition metric :: "json \<Rightarrow> string \<Rightarrow> exn + jobj" where
  "metric summary name =
     bindE (py_get summary ''metrics'' (JObj [])) (\<lambda>metrics.
     bindE (py_get metrics name (JObj [])) (\<lambda>raw.
       Inr (case raw of JObj kvs \<Rightarrow> kvs | _ \<Rightarrow> [])))"

definition metric_values :: "json \<Rightarrow> string \<Rightarrow> exn + jobj" where
  "metric_values summary name =
     bindE (metric summary name) (\<lambda>kvs.
       Inr (case map_of kvs (u ''values'') of
              Some (JObj (x # xs)) \<Rightarrow> x # xs
            | _ \<Rightarrow> kvs))"

definition zero_float :: json where
  "zero_float = JFloat (Dec False 0 0)"

text \<open>\<open>d.get(k1)\<close>, and where that is \<open>None\<close> \<open>d.get(k2, 0.0)\<close>.\<close>

definition first_of :: "jobj \<Rightarrow> string \<Rightarrow> string \<Rightarrow> json" where
  "first_of d k1 k2 =
     (case map_of d (u k1) of
        Some v \<Rightarrow> if v = JNull then (case map_of d (u k2) of None \<Rightarrow> zero_float | Some w \<Rightarrow> w) else v
      | None \<Rightarrow> (case map_of d (u k2) of None \<Rightarrow> zero_float | Some w \<Rightarrow> w))"

record perf_figures =
  pf_failed :: pyfloat
  pf_fallback :: pyfloat
  pf_unexpected :: pyfloat
  pf_scenario_error :: pyfloat
  pf_p50 :: pyfloat
  pf_p95 :: pyfloat
  pf_p99 :: pyfloat
  pf_avg :: pyfloat

definition or_zero :: "json \<Rightarrow> json" where
  "or_zero v = (if truthy v then v else zero_float)"

definition figures_of :: "jobj \<Rightarrow> jobj \<Rightarrow> jobj \<Rightarrow> jobj \<Rightarrow> jobj \<Rightarrow> exn + perf_figures" where
  "figures_of duration failed fallback unexpected_fallback scenario_error =
     bindE (py_float (first_of failed ''rate'' ''value'')) (\<lambda>f1.
     bindE (py_float (first_of fallback ''rate'' ''value'')) (\<lambda>f2.
     bindE (py_float (first_of unexpected_fallback ''rate'' ''value'')) (\<lambda>f3.
     bindE (py_float (first_of scenario_error ''rate'' ''value'')) (\<lambda>f4.
     bindE (py_float (or_zero (first_of duration ''p(50)'' ''med''))) (\<lambda>p50.
     bindE (py_float (or_zero (first_of duration ''p(95)'' ''p95''))) (\<lambda>p95.
     bindE (py_float (or_zero (first_of duration ''p(99)'' ''p99''))) (\<lambda>p99.
     bindE (py_float (case map_of duration (u ''avg'') of None \<Rightarrow> zero_float | Some v \<Rightarrow> v)) (\<lambda>avg.
       Inr \<lparr>pf_failed = f1, pf_fallback = f2, pf_unexpected = f3, pf_scenario_error = f4,
            pf_p50 = p50, pf_p95 = p95, pf_p99 = p99, pf_avg = avg\<rparr>))))))))"

definition extract_figures :: "json \<Rightarrow> exn + perf_figures" where
  "extract_figures summary =
     bindE (metric_values summary ''http_req_duration'') (\<lambda>duration.
     bindE (metric_values summary ''http_req_failed'') (\<lambda>failed.
     bindE (metric_values summary ''fallback_rate'') (\<lambda>fallback.
     bindE (metric_values summary ''unexpected_fallback_rate'') (\<lambda>unexpected_fallback.
     bindE (metric_values summary ''scenario_error_rate'') (\<lambda>scenario_error.
       figures_of duration failed fallback unexpected_fallback scenario_error)))))"

section \<open>Report\<close>

definition dec_value :: "nat \<Rightarrow> int \<Rightarrow> real" where
  "dec_value m e = (if 0 \<le> e then of_nat m * 10 ^ nat e else of_nat m / 10 ^ nat (- e))"

fun format_fixed :: "nat \<Rightarrow> pyfloat \<Rightarrow> pystr" where
  "format_fixed k (Dec neg m e) = sign_str neg @ fixed k (dec_value m e)"
| "format_fixed k (Inf neg) = sign_str neg @ u ''inf''"
| "format_fixed k NaN = u ''nan''"

definition latency_cells :: "perf_figures \<Rightarrow> pystr" where
  "latency_cells d =
     format_fixed 1 (pf_p50 d) @ u '' | '' @ format_fixed 1 (pf_p95 d) @ u '' | '' @ format_fixed 1 (pf_p99 d) @ u '' |''"

definition perf_markdown :: "perf_figures \<Rightarrow> perf_figures \<Rightarrow> pystr" where
  "perf_markdown baseline stress = join_nl
     [u ''# Performance Report'', [],
      u ''| Profile | Error rate | Fallback rate | p50 ms | p95 ms | p99 ms |'',
      u ''| --- | ---: | ---: | ---: | ---: | ---: |'',
      u ''| baseline | '' @ format_fixed 4 (pf_failed baseline) @ u '' | '' @ format_fixed 4 (pf_fallback baseline) @
        u '' (unexpected '' @ format_fixed 4 (pf_unexpected baseline) @ u '') | '' @ latency_cells baseline,
      u ''| stress | '' @ format_fixed 4 (pf_failed stress) @ u '' | '' @ format_fixed 4 (pf_fallback stress) @
        u '' | '' @ latency_cells stress,
      []]"

text \<open>\<open>read path\<close> is the content of a file, if it exists.\<close>

datatype perf_outcome =
    System_Exit pystr
  | Perf_Raised exn
  | Perf_Written perf_figures perf_figures pystr

definition perf_main :: "(pystr \<Rightarrow> bytes option) \<Rightarrow> pystr \<Rightarrow> pystr \<Rightarrow> perf_outcome" where
  "perf_main read baseline_path stress_path =
     (case (read baseline_path, read stress_path) of
        (Some b, Some s) \<Rightarrow>
          (case bindE (bindE (load_json b) extract_figures) (\<lambda>baseline.
                bindE (bindE (load_json s) extract_figures) (\<lambda>stress. Inr (baseline, stress))) of
             Inl e \<Rightarrow> Perf_Raised e
           | Inr (baseline, stress) \<Rightarrow> Perf_Written baseline stress (perf_markdown baseline stress))
      | _ \<Rightarrow>
          System_Exit (u ''missing k6 summary files: '' @
            comma_sep (filter (\<lambda>p. read p = None) [baseline_path, stress_path])))"

section \<open>Facts\<close>

text \<open>The two shapes of a k6 metric: its figures under \<open>values\<close>, or directly in it.\<close>

definition nested_summary :: "(pystr \<times> jobj) list \<Rightarrow> jobj \<Rightarrow> json" where
  "nested_summary ms extra =
     JObj [(u ''metrics'', JObj (map (\<lambda>(name, fs). (name, JObj (extra @ [(u ''values'', JObj fs)]))) ms))]"

definition flat_summary :: "(pystr \<times> jobj) list \<Rightarrow> json" where
  "flat_summary ms = JObj [(u ''metrics'', JObj (map (\<lambda>(name, fs). (name, JObj fs)) ms))]"

lemma metric_values_flat:
  assumes "\<forall>(name, fs)\<in>set ms. u ''values'' \<notin> fst ` set fs"
  shows "metric_values (flat_summary ms) name = Inr (case map_of ms (u name) of None \<Rightarrow> [] | Some fs \<Rightarrow> fs)"
proof -
  have m: "map_of (map (\<lambda>(n, fs). (n, JObj fs)) ms) = map_option JObj \<circ> map_of ms"
    by (rule map_of_map)
  have "map_of fs (u ''values'') = None" if "map_of ms (u name) = Some fs" for fs
    using assms map_of_SomeD [OF that] by (auto simp: map_of_eq_None_iff)
  then show ?thesis
    by (auto simp: metric_values_def metric_def py_get_def flat_summary_def m split: option.splits)
qed

lemma metric_values_nested:
  assumes "\<forall>(name, fs)\<in>set ms. fs \<noteq> []" "u ''values'' \<notin> fst ` set extra"
  shows "metric_values (nested_summary ms extra) name = Inr (case map_of ms (u name) of None \<Rightarrow> [] | Some fs \<Rightarrow> fs)"
proof -
  have m: "map_of (map (\<lambda>(n, fs). (n, JObj (extra @ [(u ''values'', JObj fs)]))) ms) =
      map_option (\<lambda>fs. JObj (extra @ [(u ''values'', JObj fs)])) \<circ> map_of ms"
    by (rule map_of_map)
  have none: "map_of extra (u ''values'') = None" using assms(2) by (simp add: map_of_eq_None_iff)
  have "\<exists>x xs. fs = x # xs" if "map_of ms (u name) = Some fs" for fs
    using assms(1) map_of_SomeD [OF that] by (cases fs) auto
  then show ?thesis
    by (auto simp: metric_values_def metric_def py_get_def nested_summary_def m none map_of_append map_add_def
        split: option.splits)
qed

section \<open>Properties\<close>

text \<open>The two shapes of k6 summaries give the same figures: for any metrics with at least one figure
  each, none called \<open>values\<close>, the report extracts from the summary with the figures nested under
  \<open>values\<close>, beside any other keys, what it extracts from the flat one, errors included; a summary
  without metrics gives zeros.\<close>

theorem summary_shapes_agree:
  assumes "\<forall>(name, fs)\<in>set ms. fs \<noteq> [] \<and> u ''values'' \<notin> fst ` set fs" "u ''values'' \<notin> fst ` set extra"
  shows "extract_figures (nested_summary ms extra) = extract_figures (flat_summary ms) \<and>
    extract_figures (JObj []) =
      Inr \<lparr>pf_failed = Dec False 0 0, pf_fallback = Dec False 0 0, pf_unexpected = Dec False 0 0,
           pf_scenario_error = Dec False 0 0, pf_p50 = Dec False 0 0, pf_p95 = Dec False 0 0,
           pf_p99 = Dec False 0 0, pf_avg = Dec False 0 0\<rparr>"
proof -
  have "metric_values (nested_summary ms extra) name = metric_values (flat_summary ms) name" for name
  proof -
    have "\<forall>(name, fs)\<in>set ms. u ''values'' \<notin> fst ` set fs" "\<forall>(name, fs)\<in>set ms. fs \<noteq> []" using assms(1) by auto
    then show ?thesis using metric_values_flat [of ms name] metric_values_nested [of ms extra name] assms(2) by simp
  qed
  moreover have "metric_values (JObj []) name = Inr []" for name
    by (simp add: metric_values_def metric_def py_get_def)
  ultimately show ?thesis
    by (simp add: extract_figures_def figures_of_def first_of_def zero_float_def or_zero_def)
qed

theorem summary_shapes_agree_witness:
  "map_option pf_p95 (case extract_figures (nested_summary
      [(u ''http_req_duration'', [(u ''p(95)'', JInt 7), (u ''med'', JStr (u '' 1_0.5e1 ''))])]
      [(u ''type'', JStr (u ''trend''))]) of Inl e \<Rightarrow> None | Inr f \<Rightarrow> Some f) = Some (Dec False 7 0)"
proof -
  let ?ms = "[(u ''http_req_duration'', [(u ''p(95)'', JInt 7), (u ''med'', JStr (u '' 1_0.5e1 ''))])]"
    and ?extra = "[(u ''type'', JStr (u ''trend''))]"
  have a: "\<forall>(name, fs)\<in>set ?ms. fs \<noteq> [] \<and> u ''values'' \<notin> fst ` set fs" and b: "u ''values'' \<notin> fst ` set ?extra"
    by simp_all
  have f: "map_option pf_p95 (case extract_figures (flat_summary ?ms) of Inl e \<Rightarrow> None | Inr f \<Rightarrow> Some f) = Some (Dec False 7 0)"
    by code_simp
  show ?thesis
    unfolding conjunct1 [OF summary_shapes_agree [OF a b]] by (rule f)
qed

text \<open>The script exits with a message exactly if a summary file is missing, the message then lists
  exactly the missing paths, baseline first; with both files present it either writes a report or
  raises, and the report is that of the two files' own figures.\<close>

theorem perf_main_outcome:
  "(perf_main read b s = System_Exit msg \<longleftrightarrow>
      (read b = None \<or> read s = None) \<and>
      msg = u ''missing k6 summary files: '' @ comma_sep ((if read b = None then [b] else []) @ (if read s = None then [s] else []))) \<and>
   (perf_main read b s = Perf_Written f g md \<longleftrightarrow>
      (\<exists>x y. read b = Some x \<and> read s = Some y \<and> bindE (load_json x) extract_figures = Inr f \<and>
         bindE (load_json y) extract_figures = Inr g \<and> md = perf_markdown f g))"
proof (cases "read b = None \<or> read s = None")
  case True
  then show ?thesis by (auto simp: perf_main_def split: option.splits)
next
  case False
  then obtain x y where xy: "read b = Some x" "read s = Some y" by auto
  then show ?thesis
    by (cases "bindE (load_json x) extract_figures"; cases "bindE (load_json y) extract_figures")
      (auto simp: perf_main_def)
qed

end
