(* ===== verification/Perf_Saved.thy ===== *)
theory Perf_Saved
  imports Perf_Report
begin

text \<open>
  The two files \<open>scripts/perf_report.py\<close> writes.  Whatever numbers the k6 summaries contain, the saved
  JSON reads back as the figures of the report, and both files can always be written.
\<close>

section \<open>The performance report\<close>

definition figures_json :: "perf_figures \<Rightarrow> json" where
  "figures_json d =
     JObj [(u ''http_req_failed_rate'', JFloat (pf_failed d)), (u ''fallback_rate'', JFloat (pf_fallback d)),
       (u ''unexpected_fallback_rate'', JFloat (pf_unexpected d)),
       (u ''scenario_error_rate'', JFloat (pf_scenario_error d)),
       (u ''latency_ms'', JObj [(u ''p50'', JFloat (pf_p50 d)), (u ''p95'', JFloat (pf_p95 d)),
          (u ''p99'', JFloat (pf_p99 d)), (u ''avg'', JFloat (pf_avg d))])]"

definition report_json :: "perf_figures \<Rightarrow> perf_figures \<Rightarrow> json" where
  "report_json baseline stress =
     JObj [(u ''baseline'', figures_json baseline), (u ''stress'', figures_json stress)]"

text \<open>The two files written when both summaries could be read.\<close>

definition perf_files :: "perf_figures \<Rightarrow> perf_figures \<Rightarrow> exn + (bytes \<times> bytes)" where
  "perf_files baseline stress =
     bindE (saved (report_json baseline stress)) (\<lambda>out_json.
     bindE (encodeE (perf_markdown baseline stress)) (\<lambda>out_md. Inr (out_json, out_md)))"

section \<open>The performance report reads back\<close>

lemma float_plain_unit: "float_plain (Dec neg 0 0)" "float_plain (Dec neg 1 0)"
proof -
  have "\<not> too_large 1 0" "length (nat_digits 1) = 1" by code_simp+
  then show "float_plain (Dec neg 0 0)" "float_plain (Dec neg 1 0)" by simp_all
qed

lemma decimal_str_plain: "decimal_str neg s = Some f \<Longrightarrow> float_plain f"
  by (auto simp: decimal_str_def Let_def float_of_plain list_all_takeWhile split: if_splits option.splits prod.splits list.splits)

lemma py_float_str_plain: "py_float_str s = Some f \<Longrightarrow> float_plain f"
  by (auto simp: py_float_str_def unsigned_float_def decimal_str_plain split: list.splits if_splits)

lemma py_float_plain:
  assumes "json_plain v" "py_float v = Inr f"
  shows "float_plain f"
proof (cases v)
  case (JInt n)
  have "list_all is_digit (nat_digits (nat \<bar>n\<bar>) @ [])" using nat_digits_range by (auto simp: list_all_iff)
  from float_of_plain [OF this, of "n < 0" 0] show ?thesis
    using assms JInt by (auto simp del: float_plain.simps split: pyfloat.splits)
qed (use assms float_plain_unit in \<open>auto simp: py_float_str_plain split: option.splits\<close>)

lemma map_of_plain: "json_plain (JObj kvs) \<Longrightarrow> map_of kvs k = Some v \<Longrightarrow> json_plain v"
  by (auto dest!: map_of_SomeD)

lemma py_get_plain: "json_plain v \<Longrightarrow> json_plain d \<Longrightarrow> py_get v k d = Inr x \<Longrightarrow> json_plain x"
  by (auto simp: py_get_def split: json.splits option.splits dest: map_of_plain simp del: json_plain.simps)

lemma metric_values_plain:
  assumes "json_plain summary" "metric_values summary name = Inr kvs"
  shows "json_plain (JObj kvs)"
proof -
  obtain kvs0 where m: "metric summary name = Inr kvs0" and kvs: "kvs = (case map_of kvs0 (u ''values'') of
      Some (JObj (x # xs)) \<Rightarrow> x # xs | _ \<Rightarrow> kvs0)"
    using assms(2) by (auto simp: metric_values_def exn_simps)
  obtain metrics raw where g: "py_get summary ''metrics'' (JObj []) = Inr metrics" "py_get metrics name (JObj []) = Inr raw"
    and kvs0: "kvs0 = (case raw of JObj kvs \<Rightarrow> kvs | _ \<Rightarrow> [])"
    using m by (auto simp: metric_def exn_simps)
  have "json_plain metrics" by (rule py_get_plain [OF assms(1) _ g(1)]) simp
  then have "json_plain raw" by (rule py_get_plain [OF _ _ g(2)]) simp
  then have p0: "json_plain (JObj kvs0)" by (cases raw) (simp_all add: kvs0)
  have "kvs = kvs0 \<or> (\<exists>x xs. map_of kvs0 (u ''values'') = Some (JObj (x # xs)) \<and> kvs = x # xs)"
    unfolding kvs by (auto split: option.split json.split list.split)
  then consider (none) "kvs = kvs0" | (inner) x xs where "map_of kvs0 (u ''values'') = Some (JObj (x # xs))" "kvs = x # xs"
    by blast
  then show ?thesis
  proof cases
    case none
    with p0 show ?thesis by simp
  next
    case inner
    then show ?thesis using map_of_plain [OF p0 inner(1)] by (simp only:)
  qed
qed

lemma first_of_plain: "json_plain (JObj d) \<Longrightarrow> json_plain (first_of d k1 k2)"
  by (auto simp: first_of_def zero_float_def dest: map_of_plain split: option.splits simp del: json_plain.simps(4))

lemma or_zero_plain: "json_plain v \<Longrightarrow> json_plain (or_zero v)"
  by (simp add: or_zero_def zero_float_def)

definition figures_plain :: "perf_figures \<Rightarrow> bool" where
  "figures_plain d \<longleftrightarrow> list_all float_plain
     [pf_failed d, pf_fallback d, pf_unexpected d, pf_scenario_error d, pf_p50 d, pf_p95 d, pf_p99 d, pf_avg d]"

lemma extract_figures_plain:
  assumes "json_plain summary" "extract_figures summary = Inr d"
  shows "figures_plain d"
proof -
  have avg: "json_plain (case map_of kvs (u ''avg'') of None \<Rightarrow> zero_float | Some v \<Rightarrow> v)" if "json_plain (JObj kvs)" for kvs
    using that by (auto simp: zero_float_def dest: map_of_plain split: option.splits simp del: json_plain.simps(4))
  obtain du fa fb uf se where m: "metric_values summary ''http_req_duration'' = Inr du"
    "metric_values summary ''http_req_failed'' = Inr fa" "metric_values summary ''fallback_rate'' = Inr fb"
    "metric_values summary ''unexpected_fallback_rate'' = Inr uf" "metric_values summary ''scenario_error_rate'' = Inr se"
    and f: "figures_of du fa fb uf se = Inr d"
    using assms(2) unfolding extract_figures_def bindE_eq_Inr by blast
  note p = m [THEN metric_values_plain [OF assms(1)]]
  obtain f1 f2 f3 f4 f5 f6 f7 f8 where v: "py_float (first_of fa ''rate'' ''value'') = Inr f1"
    "py_float (first_of fb ''rate'' ''value'') = Inr f2" "py_float (first_of uf ''rate'' ''value'') = Inr f3"
    "py_float (first_of se ''rate'' ''value'') = Inr f4" "py_float (or_zero (first_of du ''p(50)'' ''med'')) = Inr f5"
    "py_float (or_zero (first_of du ''p(95)'' ''p95'')) = Inr f6" "py_float (or_zero (first_of du ''p(99)'' ''p99'')) = Inr f7"
    "py_float (case map_of du (u ''avg'') of None \<Rightarrow> zero_float | Some v \<Rightarrow> v) = Inr f8"
    and d: "d = \<lparr>pf_failed = f1, pf_fallback = f2, pf_unexpected = f3, pf_scenario_error = f4,
            pf_p50 = f5, pf_p95 = f6, pf_p99 = f7, pf_avg = f8\<rparr>"
    using f unfolding figures_of_def bindE_eq_Inr by blast
  show ?thesis
    unfolding figures_plain_def d
    using py_float_plain [OF first_of_plain [OF p(2)] v(1)] py_float_plain [OF first_of_plain [OF p(3)] v(2)]
      py_float_plain [OF first_of_plain [OF p(4)] v(3)] py_float_plain [OF first_of_plain [OF p(5)] v(4)]
      py_float_plain [OF or_zero_plain [OF first_of_plain [OF p(1)]] v(5)]
      py_float_plain [OF or_zero_plain [OF first_of_plain [OF p(1)]] v(6)]
      py_float_plain [OF or_zero_plain [OF first_of_plain [OF p(1)]] v(7)] py_float_plain [OF avg [OF p(1)] v(8)]
    by simp
qed

lemma report_plain: "figures_plain b \<Longrightarrow> figures_plain s \<Longrightarrow> json_plain (report_json b s) \<and> json_text_ok (report_json b s)"
  by (simp add: report_json_def figures_json_def figures_plain_def)

text \<open>The Markdown text consists of encodable characters.\<close>

lemma text_ok_fixed: "text_ok (fixed k x)"
proof -
  have "text_ok (nat_digits n)" for n by (rule text_ok_digits) (auto simp: list_all_iff dest: nat_digits_range)
  moreover have "text_ok (replicate n 48)" for n by (rule text_ok_digits) (simp add: list_all_iff is_digit_def)
  ultimately show ?thesis by (simp add: fixed_def Let_def pad_left_def sign_str_def scalar_ascii)
qed

lemma text_ok_format_fixed [simp]: "text_ok (format_fixed k f)"
  by (cases f) (simp_all add: text_ok_fixed sign_str_def scalar_ascii)

lemma text_ok_join_nl: "list_all text_ok ss \<Longrightarrow> text_ok (join_nl ss)"
  by (induction ss rule: join_nl.induct) (auto simp: scalar_ascii)

lemma text_ok_perf_markdown: "text_ok (perf_markdown b s)"
  unfolding perf_markdown_def by (rule text_ok_join_nl) (simp add: latency_cells_def)

section \<open>Property\<close>

text \<open>C34: The performance report can be written and read back: for any two summaries of which figures can
  be extracted, both files are written without an exception, the JSON file parses to exactly the
  reported figures, infinite and undefined ones included, and the Markdown file decodes to the
  rendered table.\<close>

theorem perf_report_reads_back:
  assumes "perf_main read baseline_path stress_path = Perf_Written baseline stress md"
  shows "\<exists>out_json out_md. perf_files baseline stress = Inr (out_json, out_md) \<and>
    bindE (decodeE out_json) loadsE = Inr (report_json baseline stress) \<and> decodeE out_md = Inr md"
proof -
  obtain b s where r: "bindE (load_json b) extract_figures = Inr baseline" "bindE (load_json s) extract_figures = Inr stress"
    and md: "md = perf_markdown baseline stress"
    using assms by (auto simp: perf_main_def exn_simps split: option.splits sum.splits)
  have "figures_plain d" if "bindE (load_json c) extract_figures = Inr d" for c d
    using that by (auto simp: exn_simps load_json_def dest: loadsE_plain extract_figures_plain)
  then have p: "json_plain (report_json baseline stress)" "json_text_ok (report_json baseline stress)"
    using r report_plain by blast+
  obtain out_json where j: "saved (report_json baseline stress) = Inr out_json"
    using text_ok_pretty [OF p(2)] encodeE_scalar unfolding saved_def text_ok_def by blast
  obtain out_md where m: "encodeE (perf_markdown baseline stress) = Inr out_md"
    using text_ok_perf_markdown encodeE_scalar unfolding text_ok_def by blast
  have "decodeE out_md = Inr md" using m utf8_decode_encode by (simp add: md decodeE_def encodeE_Inr)
  then show ?thesis using saved_reads_back [OF j p(1)] j m by (simp add: perf_files_def)
qed

text \<open>A baseline with nested and a stress summary with flat figures.\<close>

definition demo_files :: "pystr \<Rightarrow> bytes option" where
  "demo_files path =
     (if path = u ''b'' then Some (map byte_of (u ''{\"metrics\":{\"http_req_duration\":{\"values\":{\"p(95)\":NaN}}}}''))
      else Some (map byte_of (u ''{\"metrics\":{\"http_req_failed\":{\"value\":Infinity}}}'')))"

theorem perf_report_reads_back_witness:
  "\<exists>b s md out_json out_md. perf_main demo_files (u ''b'') (u ''s'') = Perf_Written b s md \<and> pf_p95 b = NaN \<and>
     pf_failed s = Inf False \<and> perf_files b s = Inr (out_json, out_md) \<and>
     bindE (decodeE out_json) loadsE = Inr (report_json b s)"
proof -
  have "bindE (load_json (the (demo_files (u ''b'')))) extract_figures = Inr \<lparr>pf_failed = Dec False 0 0,
      pf_fallback = Dec False 0 0, pf_unexpected = Dec False 0 0, pf_scenario_error = Dec False 0 0,
      pf_p50 = Dec False 0 0, pf_p95 = NaN, pf_p99 = Dec False 0 0, pf_avg = Dec False 0 0\<rparr>"
    "bindE (load_json (the (demo_files (u ''s'')))) extract_figures = Inr \<lparr>pf_failed = Inf False,
      pf_fallback = Dec False 0 0, pf_unexpected = Dec False 0 0, pf_scenario_error = Dec False 0 0,
      pf_p50 = Dec False 0 0, pf_p95 = Dec False 0 0, pf_p99 = Dec False 0 0, pf_avg = Dec False 0 0\<rparr>"
    by code_simp+
  moreover have "\<exists>b. demo_files (u ''b'') = Some b" "\<exists>b. demo_files (u ''s'') = Some b" by (simp_all add: demo_files_def)
  ultimately obtain b s md where w: "perf_main demo_files (u ''b'') (u ''s'') = Perf_Written b s md"
    "pf_p95 b = NaN" "pf_failed s = Inf False"
    by (auto simp: perf_main_def)
  with perf_report_reads_back [OF w(1)] show ?thesis by blast
qed

end
