(* ===== verification/Qualification_Saved.thy ===== *)
theory Qualification_Saved
  imports Qualification_Properties Perf_Saved
begin

text \<open>
  The two files \<open>scripts/generate_qualification_report.py\<close> writes.  A rate or a percentile is an exact number in
  the summary; the float that Python computes for it is given by the parameter \<open>flt\<close>, of which nothing is used
  but that its text can be read back.
\<close>

section \<open>The qualification report\<close>

definition parse_qual_args :: "(string \<Rightarrow> pystr option) \<Rightarrow> int option \<Rightarrow> qual_args" where
  "parse_qual_args given samples =
     \<lparr>qa_base_url = opt_default given ''--base-url'' ''https://localhost:8088'',
      qa_path = opt_default given ''--path'' ''/v1/scan/attachment'',
      qa_api_key = opt_default given ''--api-key'' ''local-connector-key'',
      qa_hmac_secret = opt_default given ''--hmac-secret'' ''local-connector-hmac'',
      qa_samples = (case samples of None \<Rightarrow> 100 | Some n \<Rightarrow> n)\<rparr>"

definition summary_json :: "(real \<Rightarrow> pyfloat) \<Rightarrow> qual_summary \<Rightarrow> json" where
  "summary_json flt s =
     JObj [(u ''total_requests'', JInt (total_requests s)), (u ''error_rate'', JFloat (flt (error_rate s))),
       (u ''fallback_rate'', JFloat (flt (fallback_rate s))),
       (u ''unexpected_fallback_rate'', JFloat (flt (unexpected_fallback_rate s))),
       (u ''latency_ms'', JObj [(u ''p50'', JFloat (flt (latency_p50 s))), (u ''p95'', JFloat (flt (latency_p95 s))),
          (u ''p99'', JFloat (flt (latency_p99 s)))]),
       (u ''verdict_matrix'', JObj (map (\<lambda>(name, row). (name, JObj (map (\<lambda>(v, n). (v, JInt n)) row))) (sum_matrix s))),
       (u ''sample_responses'', JObj (sample_responses s)),
       (u ''go_no_go'', JObj [(u ''decision'', JStr (decision s)), (u ''blockers'', JArr (map JStr (blockers s)))])]"

definition qual_files :: "(real \<Rightarrow> pyfloat) \<Rightarrow> qual_summary \<Rightarrow> pystr \<Rightarrow> exn + (bytes \<times> bytes)" where
  "qual_files flt summary md =
     bindE (saved (summary_json flt summary)) (\<lambda>out_json.
     bindE (encodeE md) (\<lambda>out_md. Inr (out_json, out_md)))"

section \<open>The sample responses\<close>

definition responses_plain :: "qual_state \<Rightarrow> bool" where
  "responses_plain st \<longleftrightarrow> json_plain (JObj (first_response st))"

lemma absorb_responses:
  assumes "absorb st scenario (status, reply, ms) = Inr st'" "json_plain reply" "responses_plain st"
  shows "responses_plain st'"
proof -
  have "first_response st' = first_response st \<or>
      (map_of (first_response st) (qs_name scenario) = None \<and> first_response st' = first_response st @ [(qs_name scenario, reply)])"
    using assms(1) by (auto simp: absorb_def Let_def exn_simps split: json.splits if_splits)
  then show ?thesis using assms(2,3) by (auto simp: responses_plain_def map_of_eq_None_iff)
qed

lemma qual_reply_plain: "qual_reply w = Inr (status, v) \<Longrightarrow> json_plain v"
  by (auto simp: qual_reply_def exn_simps dest: loadsE_plain split: wire.splits)

lemma sample_round_responses:
  assumes "sample_round net args env idx st s = (Inr st', s')" "responses_plain st"
  shows "responses_plain st'"
proof -
  let ?sc = "qual_scenarios ! qe_choice env"
  obtain status reply ms s1 where post: "post_signed net (rstrip_char 47 (qa_base_url args)) (qa_path args)
      (dict_put (u ''request_id'') (JStr (u ''qual-'' @ qs_name ?sc @ u ''-'' @ py_str_int (int idx))) (qs_payload ?sc))
      (qa_api_key args) (qa_hmac_secret args) env s = (Inr (status, reply, ms), s1)"
    and ab: "absorb st ?sc (status, reply, ms) = Inr st'"
    using assms(1) unfolding sample_round_def Let_def by (auto simp: bindS_eq_Inr liftE_eq)
  from post_signed_Inr [OF post] have "json_plain reply" using qual_reply_plain by blast
  then show ?thesis by (rule absorb_responses [OF ab _ assms(2)])
qed

lemma sample_loop_responses:
  "sample_loop net args envs idxs st s = (Inr st', s') \<Longrightarrow> responses_plain st \<Longrightarrow> responses_plain st'"
  by (induction idxs arbitrary: st s) (auto simp: bindS_eq_Inr liftE_eq dest: sample_round_responses)

lemma matrix_plain:
  assumes "\<And>name v. 0 \<le> f name v \<and> f name v < 10 ^ 18"
  shows "json_plain (JObj (map (\<lambda>(name, row). (name, JObj (map (\<lambda>(v, n). (v, JInt n)) row))) (matrix_of f)))"
proof -
  have "json_plain (JInt (f name v))" for name v by (rule small_plain) (use assms [of name v] in linarith)
  then show ?thesis by (simp add: matrix_of_def verdict_names_def)
qed

lemma summary_plain:
  assumes run: "qual_main net args envs [] = (Inr (summary, md), sent)" "\<forall>i. qe_choice (envs i) < 100"
    and flt: "\<forall>x. float_plain (flt x)" and few: "qa_samples args < 10 ^ 18"
  shows "json_plain (summary_json flt summary)"
proof (rule qual_main_Inr [OF run])
  fix st obs
  assume st: "summary = summarize st" and obs: "length obs = nat (max 1 (qa_samples args))" "tallied st obs"
    and loop: "sample_loop net args envs [0..<nat (max 1 (qa_samples args))] new_qual_state [] = (Inr st, sent)"
  have n: "int (length obs) < 10 ^ 18" using obs(1) few by simp
  have "responses_plain st" by (rule sample_loop_responses [OF loop]) (simp add: responses_plain_def new_qual_state_def)
  moreover have "length (latencies st) = length obs" using obs(2) by (simp add: tallied_def)
  then have "json_plain (JInt (total_requests summary))"
    using n by (intro small_plain) (simp add: st summarize_def Let_def)
  moreover have cells: "0 \<le> cell obs name v \<and> cell obs name v < 10 ^ 18" for name v
    unfolding cell_def using tally_le n by (meson order.strict_trans1)
  have m: "verdict_matrix st = matrix_of (cell obs)" using obs(2) by (simp add: tallied_def)
  have "json_plain (JObj (map (\<lambda>(name, row). (name, JObj (map (\<lambda>(v, n). (v, JInt n)) row))) (verdict_matrix st)))"
    unfolding m by (rule matrix_plain) (rule cells)
  ultimately show ?thesis
    using flt by (simp add: summary_json_def st summarize_def Let_def responses_plain_def)
qed

section \<open>The files can be written\<close>

lemma text_ok_fixed_num [simp]: "text_ok (fixed k x)"
  by (rule text_ok_fixed)

lemma text_ok_names [simp]: "text_ok (u ''GO'')" "text_ok (u ''NO-GO'')"
  by code_simp+

lemma summary_texts:
  "text_ok (decision (summarize st))" "\<forall>b\<in>set (blockers (summarize st)). text_ok b"
proof -
  have t: "text_ok (u ''unexpected_fallback_rate '')" "text_ok (u '' > 0.0100'')" "text_ok (u ''error_rate '')"
    "text_ok (u '' >= 0.0100'')" "text_ok (u ''latency p95 '')" "text_ok (u ''ms >= 1000.0ms'')" by code_simp+
  show "text_ok (decision (summarize st))" by (simp add: summarize_def Let_def)
  show "\<forall>b\<in>set (blockers (summarize st)). text_ok b" using t by (auto simp: summarize_def Let_def qual_blockers_def)
qed

lemma text_ok_render: "text_ok (render_markdown (summarize st))"
proof -
  have t: "text_ok (u ''# Qualification Report'')" "text_ok (u ''- Decision: **'')" "text_ok (u ''**'')" "text_ok (u ''- Total requests: '')"
    "text_ok (u ''- Error rate: '')" "text_ok (u ''- Fallback rate (overall): '')" "text_ok (u ''- Fallback rate (unexpected): '')"
    "text_ok (u ''- Latency p50/p95/p99 (ms): '')" "text_ok (u '' / '')" "text_ok (u ''## Verdict Matrix'')"
    "text_ok (u ''| Scenario | allow | quarantine | block |'')" "text_ok (u ''| --- | ---: | ---: | ---: |'')" "text_ok (u ''| '')"
    "text_ok (u '' | '')" "text_ok (u '' |'')" "text_ok (u ''## Blockers'')" "text_ok (u ''- none'')" "text_ok (u ''- '')" "text_ok []"
    "text_ok (u ''allow'')" "text_ok (u ''quarantine'')" "text_ok (u ''block'')"
    by code_simp+
  have c: "text_ok (matrix_cell m name v)" for m name v by (simp add: matrix_cell_def text_ok_py_str_int)
  show ?thesis
    unfolding render_markdown_def
    by (rule text_ok_join_nl) (use summary_texts [of st] in \<open>auto simp: t c text_ok_py_str_int list_all_iff\<close>)
qed

lemma summary_encodable:
  assumes "\<forall>x. float_plain (flt x)" "verdict_matrix st = matrix_of f" "json_text_ok (JObj (first_response st))"
  shows "json_text_ok (summary_json flt (summarize st))"
proof -
  have t: "text_ok (u ''total_requests'')" "text_ok (u ''error_rate'')" "text_ok (u ''fallback_rate'')" "text_ok (u ''unexpected_fallback_rate'')"
    "text_ok (u ''latency_ms'')" "text_ok (u ''p50'')" "text_ok (u ''p95'')" "text_ok (u ''p99'')" "text_ok (u ''verdict_matrix'')"
    "text_ok (u ''sample_responses'')" "text_ok (u ''go_no_go'')" "text_ok (u ''decision'')" "text_ok (u ''blockers'')"
    "text_ok (u ''allow'')" "text_ok (u ''quarantine'')" "text_ok (u ''block'')" by code_simp+
  have m: "sum_matrix (summarize st) = matrix_of f" "sample_responses (summarize st) = first_response st"
    using assms(2) by (simp_all add: summarize_def Let_def)
  show ?thesis
    using assms(1,3) summary_texts [of st] by (simp add: summary_json_def m matrix_of_def verdict_names_def t)
qed

section \<open>Property\<close>

text \<open>C31: The saved qualification report is the one that was computed: for a run of fewer than \<open>10 ^ 18\<close> samples whose
  quoted replies contain only encodable characters, both files are written; the JSON file parses to exactly
  the summary, with its matrix, its decision and blockers and the quoted replies, and the Markdown file
  decodes to the rendered report.\<close>

theorem qualification_files_read_back:
  assumes "qual_main net args envs [] = (Inr (summary, md), sent)" "\<forall>i. qe_choice (envs i) < 100"
    and "\<forall>x. float_plain (flt x)" "qa_samples args < 10 ^ 18" "json_text_ok (JObj (sample_responses summary))"
  shows "\<exists>out_json out_md. qual_files flt summary md = Inr (out_json, out_md) \<and>
    bindE (decodeE out_json) loadsE = Inr (summary_json flt summary) \<and> decodeE out_md = Inr md"
proof (rule qual_main_Inr [OF assms(1,2)])
  fix st obs
  assume st: "summary = summarize st" "md = render_markdown summary" and obs: "tallied st obs"
  have "verdict_matrix st = matrix_of (cell obs)" "sample_responses summary = first_response st"
    using obs by (simp_all add: tallied_def st(1) summarize_def Let_def)
  then have "json_text_ok (summary_json flt summary)"
    using summary_encodable [OF assms(3)] assms(5) st(1) by simp
  then obtain out_json where j: "saved (summary_json flt summary) = Inr out_json"
    using text_ok_pretty encodeE_scalar unfolding saved_def text_ok_def by blast
  obtain out_md where m: "encodeE md = Inr out_md"
    using text_ok_render encodeE_scalar unfolding st text_ok_def by blast
  have "decodeE out_md = Inr md" using m utf8_decode_encode by (simp add: decodeE_def encodeE_Inr)
  with saved_reads_back [OF j summary_plain [OF assms(1-4)]] j m show ?thesis by (simp add: qual_files_def)
qed

theorem qualification_files_read_back_witness:
  "\<exists>summary md out_json out_md. qual_files (\<lambda>_. Dec False 0 0) summary md = Inr (out_json, out_md) \<and>
     bindE (decodeE out_json) loadsE = Inr (summary_json (\<lambda>_. Dec False 0 0) summary) \<and> decodeE out_md = Inr md \<and>
     sample_responses summary = [(u ''allow'', JObj [(u ''verdict'', JStr (u ''allow''))])]"
proof -
  obtain summary md sent where r: "qual_main (\<lambda>_. Reply 200 demo_allow) demo_qual_args (\<lambda>_. demo_qual_env) [] = (Inr (summary, md), sent)"
    "sample_responses summary = [(u ''allow'', JObj [(u ''verdict'', JStr (u ''allow''))])]"
    by (rule demo_qual_run)
  have c: "\<forall>i :: nat. qe_choice demo_qual_env < 100" and n: "qa_samples demo_qual_args < 10 ^ 18"
    by (simp_all add: demo_qual_env_def demo_qual_args_def)
  have flt: "\<forall>x :: real. float_plain ((\<lambda>_. Dec False 0 0) x)" using float_plain_unit by blast
  have "text_ok (u ''allow'')" "text_ok (u ''verdict'')" by code_simp+
  then have t: "json_text_ok (JObj (sample_responses summary))" by (simp add: r(2))
  from qualification_files_read_back [OF r(1) c flt n t] r(2) show ?thesis by blast
qed

end
