(* ===== verification/Spec2Isabelle.thy ===== *)
theory Spec2Isabelle
  imports Severity Startup Strict_Files Signature_Helper Qualification_Saved Ops_Scripts
begin

text \<open>
  The SGraph-Omega connector is an HTTP service between a file platform (SGraph) and a scanner (Omega). SGraph
  posts a decrypted file or its text, signed with a shared secret; the connector authenticates the request,
  refuses replays, forwards the file to Omega behind a circuit breaker, turns the answer into one of the
  verdicts \<open>allow\<close>, \<open>quarantine\<close>, \<open>block\<close>, and answers with a
  configured fallback verdict if Omega does not.  A hook on the SGraph side enforces the verdict.  A set of
  scripts drives and measures the whole.  All paths below are under \<open>src/\<close>.

  \<^bold>\<open>Parts and theories, in the order of their imports.\<close>

  \<^item> \<open>Prelude\<close>: sequencing of fallible steps (\<open>bindE\<close> on
    \<open>exn + 'a\<close>), association lists as insertion-ordered dicts (\<open>dict_put\<close>,
    \<open>map_of\<close>), the collections \<open>exn_simps\<close> and \<open>bytes_simps\<close>.
  \<^item> \<open>Py_Str\<close>, \<open>Py_Codec\<close>, \<open>Py_Sha256\<close>, \<open>Py_Json\<close>,
    \<open>Py_Json_Text\<close>, \<open>Py_Json_Roundtrip\<close>, \<open>Py_Exn\<close>: the part of Python's
    library that the sources call, as concrete definitions: \<open>str\<close> methods and \<open>int\<close>
    parsing, UTF-8, hex and Base64, SHA-256 and HMAC on 8-bit and 32-bit words, JSON values,
    \<open>json.dumps\<close> (compact and indented) and \<open>json.loads\<close>, the exception classes.
    Round trips: \<open>utf8_decode_encode\<close>, the Base64 and decimal inverses,
    \<open>json_loads_dumps\<close>, \<open>json_loads_pretty\<close>; whatever \<open>json_loads\<close>
    returns can be printed and read back (\<open>json_loads_plain\<close>).
  \<^item> \<open>Security\<close> (\<open>connector/security.py\<close>): canonical string, signature, and
    the nonce cache with its eviction. The locale \<open>replay_guard\<close> states what the authentication
    needs of a cache; \<open>nonce_cache\<close> interprets it on \<open>check_and_mark\<close>.  The cache
    refines a map from live nonces to expiry times.
  \<^item> \<open>Models\<close> (\<open>connector/models.py\<close>, \<open>connector/errors.py\<close>):
    request and response records, error envelope; the locale \<open>libs_contract\<close> is what the
    connector relies on of Pydantic, interpreted by the declared fields.
  \<^item> \<open>Config\<close> (\<open>connector/config.py\<close>): settings from the environment.
  \<^item> \<open>Auth\<close> (\<open>connector/auth.py\<close>): API-key and HMAC check on every branch; the
    replay property and its gap at the edge of the window.
  \<^item> \<open>Signer\<close>: the locale \<open>header_signer\<close>, the contract between whoever signs
    and the validator; interpreted for the Omega client, the SGraph client and the helper script.
  \<^item> \<open>Omega_Client\<close> and \<open>Breaker\<close> (\<open>connector/omega_client.py\<close>):
    classification of answers, retry loop, breaker; \<open>breaker_step\<close> is the step relation of the
    atomic sections between two \<open>await\<close>s, so \<open>breaker_run\<close> covers all interleavings
    of concurrent scans.  Rule induction gives its refinement of the event history.
  \<^item> \<open>Audit_Log\<close> (\<open>connector/logging_utils.py\<close>), \<open>Connector_App\<close>
    (\<open>connector/app.py\<close>): both scan endpoints, their exception handlers and the health check, as
    functions of the runtime and of an environment (clocks, UUIDs, answers of Omega).
    \<open>Scan_Decisions\<close> and \<open>Connector_Properties\<close> hold what they guarantee.
  \<^item> \<open>Connector_Server\<close>, \<open>Server_Properties\<close>, \<open>Startup\<close>
    (\<open>connector/app.py\<close> as a running service): a handler awaits only Omega, so a request is two
    atomic sections, \<open>arrive\<close> (parsing, authentication, nonce, breaker check) and
    \<open>resume\<close> (breaker update, normalisation or fallback, audit, reply).
    \<open>server_step\<close> interleaves the sections of all requests over the shared runtime; rule
    induction over \<open>server_run\<close> gives the invariant and the accounts, and the projection to
    \<open>breaker_run\<close>.  \<open>lifespan\<close> makes the first runtime from the environment.
  \<^item> \<open>Severity\<close>: verdicts as a linear order (an instance of \<open>linorder\<close>) and
    the abstract three-valued decision, which \<open>decide\<close> and the hook refine.
  \<^item> \<open>SGraph_Client\<close> (\<open>upstream_patches/sgraph/*.py\<close>,
    \<open>scripts/signature_helper.py\<close>): client, hooks and helper; both hooks satisfy the locale
    \<open>verdict_hook\<close>.  \<open>End_To_End\<close> connects the client to the connector.
  \<^item> \<open>Script_Http\<close>: what the scripts share.  A script is a function on the list of requests
    sent so far that returns an exception or a value and the longer list; the network answers from that list.
    \<open>bindS\<close>, \<open>liftE\<close> and \<open>for_each\<close> compose scripts the way the code
    does.
  \<^item> \<open>Sgmeta\<close>, \<open>Sgraph_Documents\<close>, \<open>Sgraph_Transfer\<close>,
    \<open>Sgraph_Transfer_Properties\<close> (\<open>scripts/e2e_sgraph_real_path.py\<close>,
    \<open>scripts/e2e_sgraph_upstream_connector_path.py\<close>): the SGMETA envelope, the generated
    documents, the transfer and the scan of each scenario.  The locale \<open>strict_script\<close> holds what
    both scripts guarantee in strict mode.
  \<^item> \<open>Script_Mains\<close>, \<open>Strict_Files\<close>, \<open>Signature_Helper\<close>,
    \<open>Perf_Saved\<close>, \<open>Qualification_Saved\<close>: the \<open>main\<close> functions.  The
    locale \<open>saving_script\<close> is the contract of a script whose report is saved as JSON, interpreted
    for the four scripts that save one; \<open>strict_saved\<close> extends it by
    \<open>strict_script\<close>.
  \<^item> \<open>Body_Probes\<close> (\<open>scripts/e2e_connector_body_limit_probe.py\<close>,
    \<open>scripts/e2e_connector_boundary_20mb.py\<close>), \<open>Ops_Scripts\<close>
    (\<open>scripts/preflight_upstream.py\<close>, \<open>scripts/compose_healthcheck.py\<close>,
    \<open>scripts/smoke_local.py\<close>).
  \<^item> \<open>Qualification\<close>, \<open>Qualification_Properties\<close>
    (\<open>scripts/generate_qualification_report.py\<close>) and \<open>Perf_Report\<close>
    (\<open>scripts/perf_report.py\<close>): sampling, tallies, percentiles and the release decision; the
    figures taken from k6 summaries.

  \<^bold>\<open>What the theorems show.\<close>  The connector, one request: nothing happens without
  authentication, every authenticated request is answered with a verdict, every error path has its status.
  The connector under every interleaving of requests: a request is not admitted twice, even while the first is
  in flight; every request that arrived is answered or can still be answered, with one audit record per
  decision; \<open>allow\<close> needs Omega or the configured fail mode; without overlap it computes what the
  sequential handlers do.  The Omega client: result and number of posts of a scan, breaker refined by its
  history.  The signers: what a signer of the same secret sends is accepted.  End to end: the client gets the
  connector's decision and the hook enforces it.  The scripts: envelopes and size lists round-trip, the
  end-to-end script delivers the file it made, and reports, rows and exit codes state what the servers
  answered.

  \<^bold>\<open>Conventions.\<close>  A string is its list of code points (\<open>pystr\<close>), bytes are
  8-bit words, Python's integers are \<open>int\<close>.  Clock readings and latencies are real numbers;
  floats of JSON are exact decimals (or infinite or NaN), so the rounding of binary floating point is not
  modelled, except that a number whose magnitude overflows becomes infinite; \<open>f"{x:.4f}"\<close> rounds
  the exact value half to even. A raise is \<open>Inl\<close> of an \<open>exn\<close>.  What is read from
  outside (clocks, UUIDs, random bytes and choices, environment variables, the network) is an argument.

  \<^bold>\<open>Bounds and fuel.\<close>  The JSON parser recurses on fuel, one more than the length of the
  text, which \<open>json_loads_dumps\<close> shows to be enough for everything the printer makes.  The retry
  loop is structural in the attempts left.  The loop of \<open>_mk_bytes\<close> is a \<open>while\<close>
  whose termination is proved (\<open>mk_bytes_terminates\<close>).  Integers parsed from headers are bounded
  by 20 digits in the theorems that print and read them back.

  \<^bold>\<open>Parameters.\<close>  Pydantic, FastAPI and the HTTP library (record \<open>libs\<close> with
  \<open>libs_contract\<close>, outcomes of posts), \<open>urlopen\<close>, AES-GCM (record
  \<open>aead\<close>: decryption inverts encryption), python-docx (the content of one scenario), and for the
  JSON file of the qualification report the float nearest to an exact rate.

  \<^bold>\<open>Not modelled.\<close>  Argument parsing by \<open>argparse\<close> beyond the defaults,
  progress lines printed by the scripts, the making of directories, the logging handler, TLS contexts and
  timeouts, the tests and the deployment files: they are library calls or input and output around the modelled
  functions.  Cancelled requests are not modelled: a handler runs to its end.
\<close>

section \<open>Properties across components\<close>

text \<open>C3: End to end: the SGraph client with the connector's secret and a configured key, sending a
  valid payload with a fresh nonce and a clock within the skew to a live connector, gets back the
  object of the decision the connector took, whatever Omega did; its verdict is one of the
  three, and the hook raises on \<open>block\<close> and otherwise returns exactly that verdict.\<close>

theorem end_to_end_scan:
  assumes "libs_contract L" "env_ok renv"
    and "declared_request (JObj kvs) = Some r" "opt_truthy (rq_request_id r)"
      "opt_truthy (rq_file_base64 r) \<or> opt_truthy (rq_extracted_text r)"
      "json_plain (JObj kvs)" "text_ok (json_dumps (JObj kvs))"
    and "hmac_secret (rt_auth rt) = cc_hmac_secret cc" "cc_hmac_secret cc \<noteq> []"
      "text_ok (cc_hmac_secret cc)" "text_ok (cc_path_scan_attachment cc)"
    and "validate_api_key (rt_auth rt) (Some (cc_api_key cc)) (rq_request_id r) = Inr key"
    and "strip (ce_nonce env) \<noteq> []" "text_ok (ce_nonce env)"
    and "\<bar>trunc (re_now_auth renv) - trunc (ce_now env)\<bar> \<le> auth_skew_sec (rt_auth rt)" "\<bar>trunc (ce_now env)\<bar> < 10 ^ 20"
    and "make_replay_key (rq_tenant_id r) key (strip (ce_nonce env)) = Inr rk"
      "rk \<notin> fst ` set (entries (cleanup (re_now_cache renv) (rt_cache rt)))"
    and "ce_request env (client_url cc) = None"
      "ce_open env (client_url cc) = connector_network L rt renv render text (cc_path_scan_attachment cc)"
    and render: "\<And>resp. fst (decide L rt r False renv) = Inr resp \<Longrightarrow>
      bindE (decodeE (render (response_json resp))) loadsE = Inr (response_json resp)"
  shows "\<exists>resp data. client_scan_attachment cc kvs env = Inr data \<and> response_json resp = JObj data \<and>
    fst (decide L rt r False renv) = Inr resp \<and> rs_verdict resp \<in> set verdicts \<and>
    enforce_connector_verdict data =
      (if rs_verdict resp = u ''block''
       then Inl (RuntimeError (u ''blocked by connector security verdict''))
       else Inr (rs_verdict resp))"
proof -
  obtain resp data where d: "client_scan_attachment cc kvs env = Inr data" "response_json resp = JObj data"
    "fst (decide L rt r False renv) = Inr resp" "rs_verdict resp \<in> set verdicts" "verdict_text data = rs_verdict resp"
    using end_to_end [OF assms(1-20) render] by blast
  have "enforce_connector_verdict data =
      (if rs_verdict resp = u ''block''
       then Inl (RuntimeError (u ''blocked by connector security verdict''))
       else Inr (rs_verdict resp))"
    using d(4,5) by (auto simp: enforce_connector_verdict_def Let_def verdicts_def)
  with d show ?thesis by blast
qed

theorem end_to_end_scan_witness:
  "\<exists>data. client_scan_attachment demo_cc demo_kvs demo_link = Inr data \<and>
     enforce_connector_verdict data = Inl (RuntimeError (u ''blocked by connector security verdict''))"
proof -
  have key: "validate_api_key (rt_auth demo_rt) (Some (cc_api_key demo_cc)) (rq_request_id demo_payload) = Inr (u ''k1'')"
    using demo_key by (simp add: demo_cc_def)
  have t: "text_ok (rq_tenant_id demo_payload)" "text_ok (u ''k1'')" "text_ok (strip (u ''n1''))"
    "text_ok (u ''n1'')" "strip (u ''n1'') \<noteq> []" "opt_truthy (rq_request_id demo_payload)"
    "opt_truthy (rq_extracted_text demo_payload)" "json_plain (JObj demo_kvs)"
    "text_ok (json_dumps (JObj demo_kvs))" "cc_hmac_secret demo_cc \<noteq> []" "text_ok (cc_hmac_secret demo_cc)"
    "text_ok (cc_path_scan_attachment demo_cc)"
    by code_simp+
  obtain rk where rk: "make_replay_key (rq_tenant_id demo_payload) (u ''k1'') (strip (u ''n1'')) = Inr rk"
    using make_replay_key_Inr t(1-3) by metis
  have v: "rs_verdict demo_fallback = u ''block''" by code_simp
  from end_to_end_scan [of declared_libs "demo_renv 1000 net_down" demo_kvs demo_payload demo_rt demo_cc "u ''k1''"
      demo_link rk demo_render "\<lambda>_. []"] rk key t v demo_decide demo_render_fallback
  show ?thesis
    using demo_declared
    by (auto simp: declared.libs_contract_axioms demo_renv_ok demo_link_def trunc_nonneg demo_cc_def demo_cfg_def
        simp del: json_dumps.simps json_plain.simps)
qed

text \<open>The connector's own requests to Omega satisfy the same contract: the body and headers that
  \<open>omega_client.py\<close> posts pass the HMAC check of a validator with the same secret whose clock is
  within the skew, with the replay key of the payload's tenant and the nonce, for every attempt
  of the retry loop alike.\<close>

theorem omega_request_accepted:
  assumes "prepare_request L c payload debug env = Inr (body, hs)" "oc_require_hmac c"
    and "hmac_secret cfg = oc_hmac_secret c" "oc_hmac_secret c \<noteq> []" "strip (oe_nonce env) \<noteq> []"
    and "\<bar>trunc now - trunc (oe_now_sign env)\<bar> \<le> auth_skew_sec cfg" "\<bar>trunc (oe_now_sign env)\<bar> < 10 ^ 20"
  shows "hmac_gate cfg (posted (scan_path debug) body hs) payload key now =
    make_replay_key (rq_tenant_id payload) key (strip (oe_nonce env))"
proof -
  have "c = c\<lparr>oc_require_hmac := True\<rparr>" using assms(2) by simp
  then have "omega_headers (c\<lparr>oc_require_hmac := True\<rparr>) (scan_path debug) body (rq_tenant_id payload)
      (opt_or (rq_request_id payload) []) (oe_now_sign env) (oe_nonce env) = Inr hs"
    using assms(1) by (auto simp: prepare_request_def bindE_eq_Inr)
  then show ?thesis
    by (rule omega_signer.gate_accepts) (use assms(3-7) in auto)
qed

theorem omega_request_accepted_witness:
  "\<exists>body hs. prepare_request declared_libs demo_signing_client demo_payload False (demo_scan_env 0 k200) = Inr (body, hs) \<and>
     hmac_gate demo_cfg (posted (scan_path False) body hs) demo_payload (u ''k1'') 100 =
       make_replay_key (rq_tenant_id demo_payload) (u ''k1'') (strip (u ''n''))"
proof -
  obtain body hs where p: "prepare_request declared_libs demo_signing_client demo_payload False (demo_scan_env 0 k200) = Inr (body, hs)"
    using demo_signing_prepare by blast
  have "strip (u ''n'') \<noteq> []" "hmac_secret demo_cfg \<noteq> []" by code_simp+
  then show ?thesis
    using omega_request_accepted [OF p, of demo_cfg 100 "u ''k1''"] p
    by (auto simp: demo_signing_client_def new_omega_client_def demo_cfg_def demo_scan_env_def trunc_nonneg)
qed

end
